theory Spec2Isabelle
  imports Complex_Main "HOL-Library.Product_Lexorder"
begin

section \<open>Hydrogen management of the molecular graph (Code/GraphMol/AddHs.cpp)\<close>

subsection \<open>Geometry\<close>

text \<open>
  Modelled from the spec: \<open>RDGeom::Point3D\<close> (Geometry/point.h is not among the
  sources). A point is three coordinates, over the reals instead of doubles; the
  default constructor gives the origin. \<open>normalize\<close> divides every coordinate by the
  length; on the zero vector the C++ divides by zero, here the result is the zero
  vector, so theorems about \<open>normalize\<close> below assume a non-zero argument where
  the value matters.
\<close>

record Point3D =
  px :: real
  py :: real
  pz :: real

definition P3 :: "real \<Rightarrow> real \<Rightarrow> real \<Rightarrow> Point3D" where
  "P3 a b c = \<lparr>px = a, py = b, pz = c\<rparr>"

definition padd :: "Point3D \<Rightarrow> Point3D \<Rightarrow> Point3D" where
  "padd p q = P3 (px p + px q) (py p + py q) (pz p + pz q)"

definition psub :: "Point3D \<Rightarrow> Point3D \<Rightarrow> Point3D" where
  "psub p q = P3 (px p - px q) (py p - py q) (pz p - pz q)"

definition pscale :: "Point3D \<Rightarrow> real \<Rightarrow> Point3D" where
  "pscale p k = P3 (px p * k) (py p * k) (pz p * k)"

definition lengthSq :: "Point3D \<Rightarrow> real" where
  "lengthSq p = px p * px p + py p * py p + pz p * pz p"

definition plength :: "Point3D \<Rightarrow> real" where
  "plength p = sqrt (lengthSq p)"

definition normalize :: "Point3D \<Rightarrow> Point3D" where
  "normalize p = P3 (px p / plength p) (py p / plength p) (pz p / plength p)"

definition dotProduct :: "Point3D \<Rightarrow> Point3D \<Rightarrow> real" where
  "dotProduct p q = px p * px q + py p * py q + pz p * pz q"

definition crossProduct :: "Point3D \<Rightarrow> Point3D \<Rightarrow> Point3D" where
  "crossProduct p q =
     P3 (py p * pz q - pz p * py q) (pz p * px q - px p * pz q) (px p * py q - py p * px q)"

definition directionVector :: "Point3D \<Rightarrow> Point3D \<Rightarrow> Point3D" where
  "directionVector p q = normalize (psub q p)"

subsection \<open>Atoms, bonds, conformers, molecules\<close>

datatype ChiralType = CHI_UNSPECIFIED | CHI_TETRAHEDRAL_CW | CHI_TETRAHEDRAL_CCW

datatype HybridizationType = HYB_UNSPECIFIED | HYB_S | SP | SP2 | SP3 | SP3D | SP3D2 | HYB_OTHER

datatype BondType = SINGLE | DOUBLE | TRIPLE | AROMATIC | OTHER_BOND

datatype BondStereo = STEREONONE | STEREOANY | STEREOZ | STEREOE | STEREOCIS | STEREOTRANS

datatype BondDir = DIR_NONE | BEGINWEDGE | BEGINDASH | ENDDOWNRIGHT | ENDUPRIGHT | EITHERDOUBLE
  | DIR_UNKNOWN

text \<open>The enumerators' numeric values, which the code compares by order.\<close>

fun stereoRank :: "BondStereo \<Rightarrow> nat" where
  "stereoRank STEREONONE = 0"
| "stereoRank STEREOANY = 1"
| "stereoRank STEREOZ = 2"
| "stereoRank STEREOE = 3"
| "stereoRank STEREOCIS = 4"
| "stereoRank STEREOTRANS = 5"

fun dirRank :: "BondDir \<Rightarrow> nat" where
  "dirRank DIR_NONE = 0"
| "dirRank BEGINWEDGE = 1"
| "dirRank BEGINDASH = 2"
| "dirRank ENDDOWNRIGHT = 3"
| "dirRank ENDUPRIGHT = 4"
| "dirRank EITHERDOUBLE = 5"
| "dirRank DIR_UNKNOWN = 6"

text \<open>
  A query is a tree of nodes: a description (the node kind, as the code reads it with
  \<open>getDescription\<close>), a negation flag, the value of an equality leaf, the children of
  a combinator, and, for a recursive-structure node, the nested query molecule, whose
  type is the parameter \<open>'m\<close>.
\<close>

datatype 'm Query = Query (getDescription: string) (getNegation: bool) (getVal: int)
  (children: "'m Query list") (getQueryMol: "'m option")

record 'm Atom =
  atomicNum :: int
  isotope :: nat
  numExplicitHs :: nat
  noImplicit :: bool
  implicitValence :: nat
  explicitValence :: int
  atomIsAromatic :: bool
  chiralTag :: ChiralType
  hybridization :: HybridizationType
  query :: "'m Query option"
  isImplicit :: bool
  origNoImplicit :: "bool option"
  unknownStereo :: bool
  molAtomMapNumber :: "int option"
  cipCode :: "string option"
  cipRank :: "nat option"

record Bond =
  beginAtomIdx :: nat
  endAtomIdx :: nat
  bondType :: BondType
  bondIsAromatic :: bool
  stereo :: BondStereo
  stereoAtoms :: "nat list"
  bondDir :: BondDir

record Conformer =
  is3D :: bool
  positions :: "Point3D list"

record 'm Mol =
  atoms :: "'m Atom list"
  bonds :: "Bond list"
  conformers :: "Conformer list"

text \<open>
  Modelled from the spec: the graph accessors of \<open>ROMol\<close>/\<open>RWMol\<close> and of
  \<open>Conformer\<close> (RDKitBase.h is not among the sources). Atoms and bonds are dense,
  index-addressed collections; the bonds of an atom are enumerated in bond-index order,
  which is the order they were added in.
\<close>

definition getNumAtoms :: "'m Mol \<Rightarrow> nat" where
  "getNumAtoms m = length (atoms m)"

definition incident :: "nat \<Rightarrow> Bond \<Rightarrow> bool" where
  "incident a b = (beginAtomIdx b = a \<or> endAtomIdx b = a)"

definition getOtherAtomIdx :: "Bond \<Rightarrow> nat \<Rightarrow> nat" where
  "getOtherAtomIdx b a = (if beginAtomIdx b = a then endAtomIdx b else beginAtomIdx b)"

definition getAtomBonds :: "'m Mol \<Rightarrow> nat \<Rightarrow> nat list" where
  "getAtomBonds m a = filter (\<lambda>i. incident a (bonds m ! i)) [0..<length (bonds m)]"

definition getAtomNeighbors :: "'m Mol \<Rightarrow> nat \<Rightarrow> nat list" where
  "getAtomNeighbors m a = map (\<lambda>i. getOtherAtomIdx (bonds m ! i) a) (getAtomBonds m a)"

definition getDegree :: "'m Mol \<Rightarrow> nat \<Rightarrow> nat" where
  "getDegree m a = length (getAtomBonds m a)"

definition getBondBetweenAtoms :: "'m Mol \<Rightarrow> nat \<Rightarrow> nat \<Rightarrow> nat option" where
  "getBondBetweenAtoms m a b =
     (case filter (\<lambda>i. getOtherAtomIdx (bonds m ! i) a = b) (getAtomBonds m a) of
        [] \<Rightarrow> None | i # _ \<Rightarrow> Some i)"

definition getAtomPos :: "Conformer \<Rightarrow> nat \<Rightarrow> Point3D option" where
  "getAtomPos c i = (if i < length (positions c) then Some (positions c ! i) else None)"

definition setAtomPos :: "Conformer \<Rightarrow> nat \<Rightarrow> Point3D \<Rightarrow> Conformer" where
  "setAtomPos c i p =
     c\<lparr>positions := (positions c @ replicate (Suc i - length (positions c)) (P3 0 0 0))[i := p]\<rparr>"

subsection \<open>Placing a new hydrogen: \<open>setHydrogenCoords\<close>\<close>

text \<open>
  The services the placement calls and the sources do not contain are parameters:
  the covalent radius \<open>getRb0\<close> of the periodic table, the rotation of a vector by
  an angle about an axis (\<open>Transform3D::SetRotation\<close> followed by the product with
  the vector) and \<open>Point3D::getPerpendicular\<close>.
\<close>

record Services =
  getRb0 :: "int \<Rightarrow> real"
  rotate :: "real \<Rightarrow> Point3D \<Rightarrow> Point3D \<Rightarrow> Point3D"
  getPerpendicular :: "Point3D \<Rightarrow> Point3D"

text \<open>
  A failed \<open>PRECONDITION\<close>, \<open>POSTCONDITION\<close>, \<open>TEST_ASSERT\<close> or range check
  throws; it is the value \<open>None\<close>.
\<close>

definition getAtomNeighborNot :: "'m Mol \<Rightarrow> nat \<Rightarrow> nat \<Rightarrow> nat option" where
  "getAtomNeighborNot mol atom other =
     (if \<not> getDegree mol atom > 1 then None
      else case filter (\<lambda>n. n \<noteq> other) (getAtomNeighbors mol atom) of
             [] \<Rightarrow> None | n # _ \<Rightarrow> Some n)"

text \<open>
  The local variables \<open>dirVect\<close> and \<open>perpVect\<close> are declared before the loops over
  the conformers and are not reset inside them, so they are the state of these loops.
\<close>

type_synonym LoopVars = "Point3D \<times> Point3D"

fun overConformers ::
  "(LoopVars \<Rightarrow> Conformer \<Rightarrow> (LoopVars \<times> Conformer) option) \<Rightarrow> LoopVars \<Rightarrow>
   Conformer list \<Rightarrow> Conformer list option" where
  "overConformers body vars [] = Some []"
| "overConformers body vars (c # cs) =
     (case body vars c of
        None \<Rightarrow> None
      | Some (vars', c') \<Rightarrow>
          (case overConformers body vars' cs of None \<Rightarrow> None | Some cs' \<Rightarrow> Some (c' # cs')))"

definition scaleOf :: "Conformer \<Rightarrow> real \<Rightarrow> real" where
  "scaleOf c bondLength = (if is3D c then bondLength else 1)"

definition degree1Body ::
  "real \<Rightarrow> nat \<Rightarrow> nat \<Rightarrow> LoopVars \<Rightarrow> Conformer \<Rightarrow> (LoopVars \<times> Conformer) option" where
  "degree1Body bondLength hydIdx heavyIdx vars c =
     (let dirVect = (if is3D c then (fst vars)\<lparr>pz := 1\<rparr> else (fst vars)\<lparr>px := 1\<rparr>)
      in case getAtomPos c heavyIdx of
           None \<Rightarrow> None
         | Some heavyPos \<Rightarrow>
             Some ((dirVect, snd vars),
                   setAtomPos c hydIdx (padd heavyPos (pscale dirVect (scaleOf c bondLength)))))"

definition degenerate :: "Point3D \<Rightarrow> bool" where
  "degenerate v = (\<bar>lengthSq v\<bar> < 1 / 10000)"

definition degree2Body ::
  "Services \<Rightarrow> 'm Mol \<Rightarrow> real \<Rightarrow> nat \<Rightarrow> nat \<Rightarrow> nat \<Rightarrow> LoopVars \<Rightarrow> Conformer \<Rightarrow>
   (LoopVars \<times> Conformer) option" where
  "degree2Body sv mol bondLength hydIdx heavyIdx nbr1 vars c =
     (case (getAtomPos c heavyIdx, getAtomPos c nbr1) of
        (Some heavyPos, Some nbr1Pos) \<Rightarrow>
          (if degenerate (psub nbr1Pos heavyPos) then Some (vars, setAtomPos c hydIdx heavyPos)
           else
             let nbr1Vect = pscale (normalize (psub nbr1Pos heavyPos)) (- 1);
                 place = (\<lambda>dirVect perpVect.
                    Some ((dirVect, perpVect),
                          setAtomPos c hydIdx
                            (padd heavyPos (pscale dirVect (scaleOf c bondLength)))))
             in case hybridization (atoms mol ! heavyIdx) of
                  SP3 \<Rightarrow>
                    (let perpVect = (if is3D c then getPerpendicular sv nbr1Vect
                                     else (snd vars)\<lparr>pz := 1\<rparr>)
                     in place (rotate sv ((180 - 109471 / 1000) * pi / 180) perpVect nbr1Vect)
                          perpVect)
                | SP2 \<Rightarrow>
                    (let perp0 = getPerpendicular sv nbr1Vect;
                         useNbr = (getDegree mol nbr1 > 1 \<and>
                           (case getBondBetweenAtoms mol heavyIdx nbr1 of
                              None \<Rightarrow> False
                            | Some b \<Rightarrow> bondIsAromatic (bonds mol ! b) \<or>
                                        bondType (bonds mol ! b) = DOUBLE))
                     in if useNbr then
                          (case getAtomNeighborNot mol nbr1 heavyIdx of
                             None \<Rightarrow> None
                           | Some nbr2 \<Rightarrow>
                               (case getAtomPos c nbr2 of
                                  None \<Rightarrow> None
                                | Some nbr2Pos \<Rightarrow>
                                    (let perpVect = normalize (crossProduct
                                           (directionVector nbr1Pos nbr2Pos) nbr1Vect)
                                     in place (rotate sv (60 * pi / 180) perpVect nbr1Vect)
                                          perpVect)))
                        else (let perpVect = normalize perp0
                              in place (rotate sv (60 * pi / 180) perpVect nbr1Vect) perpVect))
                | _ \<Rightarrow> place nbr1Vect (snd vars))
      | _ \<Rightarrow> None)"

definition degree3Body ::
  "Services \<Rightarrow> 'm Mol \<Rightarrow> real \<Rightarrow> nat \<Rightarrow> nat \<Rightarrow> nat \<Rightarrow> nat \<Rightarrow> LoopVars \<Rightarrow> Conformer \<Rightarrow>
   (LoopVars \<times> Conformer) option" where
  "degree3Body sv mol bondLength hydIdx heavyIdx nbr1 nbr2 vars c =
     (case (getAtomPos c heavyIdx, getAtomPos c nbr1, getAtomPos c nbr2) of
        (Some heavyPos, Some nbr1Pos, Some nbr2Pos) \<Rightarrow>
          (if degenerate (psub heavyPos nbr1Pos) \<or> degenerate (psub heavyPos nbr2Pos)
           then Some (vars, setAtomPos c hydIdx heavyPos)
           else
             let nbr1Vect = normalize (psub heavyPos nbr1Pos);
                 nbr2Vect = normalize (psub heavyPos nbr2Pos);
                 dirVect = normalize (padd nbr1Vect nbr2Vect)
             in if is3D c then
                  (case hybridization (atoms mol ! heavyIdx) of
                     SP3 \<Rightarrow>
                       (let nbrPerp = crossProduct nbr1Vect nbr2Vect;
                            rotnAxis = normalize (crossProduct nbrPerp dirVect);
                            dirVect' = rotate sv ((109471 / 1000 / 2) * pi / 180) rotnAxis dirVect
                        in Some ((dirVect', snd vars),
                                 setAtomPos c hydIdx
                                   (padd heavyPos (pscale dirVect' (scaleOf c bondLength)))))
                   | _ \<Rightarrow>
                       Some ((dirVect, snd vars),
                             setAtomPos c hydIdx
                               (padd heavyPos (pscale dirVect (scaleOf c bondLength)))))
                else Some ((dirVect, snd vars), setAtomPos c hydIdx (padd heavyPos dirVect)))
      | _ \<Rightarrow> None)"

definition degree4Dir ::
  "Conformer \<Rightarrow> string option \<Rightarrow> Point3D \<Rightarrow> Point3D \<Rightarrow> Point3D \<Rightarrow> Point3D" where
  "degree4Dir c cip nbr1Vect nbr2Vect nbr3Vect =
     (if is3D c then
        (if \<bar>dotProduct nbr3Vect (crossProduct nbr1Vect nbr2Vect)\<bar> < 1 / 10 then
           (let dirVect = crossProduct nbr1Vect nbr2Vect
            in case cip of
                 None \<Rightarrow> dirVect
               | Some code \<Rightarrow>
                   (let v1 = psub dirVect nbr3Vect;
                        v2 = psub nbr1Vect nbr3Vect;
                        v3 = psub nbr2Vect nbr3Vect;
                        vol = dotProduct v1 (crossProduct v2 v3)
                    in if (code = ''S'' \<and> vol < 0) \<or> (code = ''R'' \<and> vol > 0)
                       then pscale dirVect (- 1) else dirVect))
         else padd (padd nbr1Vect nbr2Vect) nbr3Vect)
      else
        (let minDot0 = dotProduct nbr1Vect nbr2Vect;
             dir0 = padd nbr1Vect nbr2Vect;
             (minDot1, dir1) = (if dotProduct nbr2Vect nbr3Vect < minDot0
                                then (dotProduct nbr2Vect nbr3Vect, padd nbr2Vect nbr3Vect)
                                else (minDot0, dir0));
             dir2 = (if dotProduct nbr1Vect nbr3Vect < minDot1
                     then padd nbr1Vect nbr3Vect else dir1)
         in pscale dir2 (- 1)))"

definition degree4Body ::
  "'m Mol \<Rightarrow> real \<Rightarrow> nat \<Rightarrow> nat \<Rightarrow> nat \<Rightarrow> nat \<Rightarrow> nat \<Rightarrow> LoopVars \<Rightarrow> Conformer \<Rightarrow>
   (LoopVars \<times> Conformer) option" where
  "degree4Body mol bondLength hydIdx heavyIdx nbr1 nbr2 nbr3 vars c =
     (case (getAtomPos c heavyIdx, getAtomPos c nbr1, getAtomPos c nbr2, getAtomPos c nbr3) of
        (Some heavyPos, Some nbr1Pos, Some nbr2Pos, Some nbr3Pos) \<Rightarrow>
          (if degenerate (psub heavyPos nbr1Pos) \<or> degenerate (psub heavyPos nbr2Pos) \<or>
              degenerate (psub heavyPos nbr3Pos)
           then Some (vars, setAtomPos c hydIdx heavyPos)
           else
             let dirVect = normalize (degree4Dir c (cipCode (atoms mol ! heavyIdx))
                             (normalize (psub heavyPos nbr1Pos))
                             (normalize (psub heavyPos nbr2Pos))
                             (normalize (psub heavyPos nbr3Pos)))
             in Some ((dirVect, snd vars),
                      setAtomPos c hydIdx (padd heavyPos (pscale dirVect (scaleOf c bondLength)))))
      | _ \<Rightarrow> None)"

text \<open>
  The neighbours of the heavy atom other than the hydrogen: the first one found is
  \<open>nbr1\<close>, and every later one overwrites \<open>nbr2\<close> (degree 3), or the second is \<open>nbr2\<close>
  and every later one overwrites \<open>nbr3\<close> (degree 4).
\<close>

definition otherNbrs :: "'m Mol \<Rightarrow> nat \<Rightarrow> nat \<Rightarrow> nat list" where
  "otherNbrs mol heavyIdx hydIdx = filter (\<lambda>n. n \<noteq> hydIdx) (getAtomNeighbors mol heavyIdx)"

definition rankedNbrs :: "'m Mol \<Rightarrow> nat \<Rightarrow> nat \<Rightarrow> nat list" where
  "rankedNbrs mol heavyIdx hydIdx =
     map snd (sort (map (\<lambda>n. (case cipRank (atoms mol ! n) of None \<Rightarrow> 0 | Some r \<Rightarrow> r, n))
                        (otherNbrs mol heavyIdx hydIdx)))"

definition setHydrogenCoords :: "Services \<Rightarrow> 'm Mol \<Rightarrow> nat \<Rightarrow> nat \<Rightarrow> 'm Mol option" where
  "setHydrogenCoords sv mol hydIdx heavyIdx =
     (if heavyIdx = hydIdx \<or> \<not> hydIdx < getNumAtoms mol \<or> getDegree mol hydIdx \<noteq> 1 \<or>
         getBondBetweenAtoms mol heavyIdx hydIdx = None \<or> \<not> heavyIdx < getNumAtoms mol
      then None
      else
        let bondLength = getRb0 sv 1 + getRb0 sv (atomicNum (atoms mol ! heavyIdx));
            vars0 = (P3 0 0 0, P3 0 0 0);
            deg = getDegree mol heavyIdx;
            confs =
              (if deg = 1 then
                 overConformers (degree1Body bondLength hydIdx heavyIdx) vars0 (conformers mol)
               else if deg = 2 then
                 (case getAtomNeighborNot mol heavyIdx hydIdx of
                    None \<Rightarrow> None
                  | Some nbr1 \<Rightarrow>
                      overConformers (degree2Body sv mol bondLength hydIdx heavyIdx nbr1) vars0
                        (conformers mol))
               else if deg = 3 then
                 (case otherNbrs mol heavyIdx hydIdx of
                    nbr1 # n # ns \<Rightarrow>
                      overConformers
                        (degree3Body sv mol bondLength hydIdx heavyIdx nbr1 (last (n # ns)))
                        vars0 (conformers mol)
                  | _ \<Rightarrow> None)
               else if deg = 4 then
                 (case (if cipCode (atoms mol ! heavyIdx) \<noteq> None
                        then take 3 (rankedNbrs mol heavyIdx hydIdx)
                        else (case otherNbrs mol heavyIdx hydIdx of
                                a # b # n # ns \<Rightarrow> [a, b, last (n # ns)] | _ \<Rightarrow> [])) of
                    [nbr1, nbr2, nbr3] \<Rightarrow>
                      overConformers
                        (degree4Body mol bondLength hydIdx heavyIdx nbr1 nbr2 nbr3)
                        vars0 (conformers mol)
                  | _ \<Rightarrow> None)
               else
                 (let hydPos = padd (P3 0 0 0) (pscale (P3 0 0 0) bondLength)
                  in Some (map (\<lambda>c. setAtomPos c hydIdx hydPos) (conformers mol))))
        in case confs of None \<Rightarrow> None | Some cs \<Rightarrow> Some (mol\<lparr>conformers := cs\<rparr>))"

subsection \<open>Example inputs\<close>

text \<open>\<open>new Atom(n)\<close> and a fresh bond, with the constructors' defaults.\<close>

definition newAtom :: "int \<Rightarrow> 'm Atom" where
  "newAtom n = \<lparr>atomicNum = n, isotope = 0, numExplicitHs = 0, noImplicit = False,
     implicitValence = 0, explicitValence = 0, atomIsAromatic = False,
     chiralTag = CHI_UNSPECIFIED, hybridization = HYB_UNSPECIFIED, query = None,
     isImplicit = False, origNoImplicit = None, unknownStereo = False,
     molAtomMapNumber = None, cipCode = None, cipRank = None\<rparr>"

definition newBond :: "nat \<Rightarrow> nat \<Rightarrow> BondType \<Rightarrow> Bond" where
  "newBond a b t = \<lparr>beginAtomIdx = a, endAtomIdx = b, bondType = t, bondIsAromatic = False,
     stereo = STEREONONE, stereoAtoms = [], bondDir = DIR_NONE\<rparr>"

definition exServices :: Services where
  "exServices = \<lparr>getRb0 = (\<lambda>z. if z = 1 then 33 / 100 else 77 / 100),
                  rotate = (\<lambda>a axis v. v), getPerpendicular = (\<lambda>v. v)\<rparr>"

text \<open>A carbon and its hydrogen, with a 3-D conformer followed by a 2-D one.\<close>

definition exMixed :: "unit Mol" where
  "exMixed = \<lparr>atoms = [newAtom 6, newAtom 1], bonds = [newBond 0 1 SINGLE],
     conformers = [\<lparr>is3D = True, positions = [P3 0 0 0, P3 0 0 0]\<rparr>,
                   \<lparr>is3D = False, positions = [P3 0 0 0, P3 0 0 0]\<rparr>]\<rparr>"

text \<open>A carbon with two carbon neighbours at right angles and a hydrogen, drawn in 2-D.\<close>

definition exPlanarConf :: Conformer where
  "exPlanarConf = \<lparr>is3D = False,
        positions = [P3 0 0 0, P3 (- 1) 0 0, P3 0 (- 1) 0, P3 0 0 0]\<rparr>"

definition exPlanar :: "unit Mol" where
  "exPlanar = \<lparr>atoms = [newAtom 6, newAtom 6, newAtom 6, newAtom 1],
     bonds = [newBond 0 1 SINGLE, newBond 0 2 SINGLE, newBond 0 3 SINGLE],
     conformers = [exPlanarConf]\<rparr>"

text \<open>A sulfur with four fluorines and a hydrogen (degree 5), away from the origin.\<close>

definition exCrowded :: "unit Mol" where
  "exCrowded = \<lparr>atoms = [newAtom 16, newAtom 9, newAtom 9, newAtom 9, newAtom 9, newAtom 1],
     bonds = [newBond 0 1 SINGLE, newBond 0 2 SINGLE, newBond 0 3 SINGLE, newBond 0 4 SINGLE,
              newBond 0 5 SINGLE],
     conformers = [\<lparr>is3D = True,
        positions = [P3 1 2 3, P3 2 2 3, P3 0 2 3, P3 1 3 3, P3 1 1 3, P3 7 7 7]\<rparr>]\<rparr>"

subsection \<open>Query hydrogens: \<open>isQueryH\<close>\<close>

text \<open>
  The loop over \<open>childStack\<close>: the front node is popped; an \<open>AtomOr\<close> node sets
  \<open>hasOr\<close>, an \<open>AtomAtomicNum\<close> node sets \<open>hasHQuery\<close> when it is a non-negated
  test for atomic number 1, and the children of any other node are pushed at the back.
  The loop stops as soon as both flags are set. It ends because every step removes one
  node from the trees waiting on the stack.
\<close>

fun nodes :: "'m Query \<Rightarrow> nat" where
  "nodes (Query d n v cs qm) = Suc (sum_list (map nodes cs))"

function scanChildren :: "bool \<Rightarrow> bool \<Rightarrow> 'm Query list \<Rightarrow> bool \<times> bool" where
  "scanChildren hasHQuery hasOr [] = (hasHQuery, hasOr)"
| "scanChildren hasHQuery hasOr (q # childStack) =
     (if hasHQuery \<and> hasOr then (hasHQuery, hasOr)
      else if getDescription q = ''AtomOr'' then scanChildren hasHQuery True childStack
      else if getDescription q = ''AtomAtomicNum'' then
        scanChildren (if getVal q = 1 \<and> \<not> getNegation q then True else hasHQuery) hasOr
          childStack
      else scanChildren hasHQuery hasOr (childStack @ children q))"
  by pat_completeness auto
termination
proof (relation "measure (\<lambda>(h, r, st). sum_list (map nodes st))")
  show "wf (measure (\<lambda>(h :: bool, r :: bool, st :: 'm Query list). sum_list (map nodes st)))"
    by simp
next
  fix hasHQuery hasOr :: bool and q :: "'m Query" and childStack :: "'m Query list"
  show "((hasHQuery, True, childStack), (hasHQuery, hasOr, q # childStack))
          \<in> measure (\<lambda>(h, r, st). sum_list (map nodes st))"
    by (cases q) simp
  show "((if getVal q = 1 \<and> \<not> getNegation q then True else hasHQuery, hasOr, childStack),
          (hasHQuery, hasOr, q # childStack))
          \<in> measure (\<lambda>(h, r, st). sum_list (map nodes st))"
    by (cases q) simp
  show "((hasHQuery, hasOr, childStack @ children q), (hasHQuery, hasOr, q # childStack))
          \<in> measure (\<lambda>(h, r, st). sum_list (map nodes st))"
    by (cases q) simp
qed

definition orWarning :: string where
  "orWarning = ''WARNING: merging explicit H queries involved in ORs is not supported. This query will not be merged''"

text \<open>
  \<open>isQueryH\<close> returns its verdict together with the warnings it wrote to the log.
\<close>

definition isQueryH :: "'m Mol \<Rightarrow> nat \<Rightarrow> bool \<times> string list" where
  "isQueryH mol idx =
     (let atom = atoms mol ! idx in
      if atomicNum atom = 1 \<and>
         (case query atom of
            None \<Rightarrow> True
          | Some q \<Rightarrow> \<not> getNegation q \<and> getDescription q = ''AtomAtomicNum'')
      then (True, [])
      else if getDegree mol idx \<noteq> 1 then (False, [])
      else case query atom of
             None \<Rightarrow> (False, [])
           | Some q \<Rightarrow>
               if getNegation q then (False, [])
               else
                 (case scanChildren False (getDescription q = ''AtomOr'') (children q) of
                    (hasHQuery, hasOr) \<Rightarrow>
                      if hasHQuery \<and> hasOr then (False, [orWarning]) else (hasHQuery, [])))"

subsection \<open>Removing an atom\<close>

text \<open>
  Modelled from the spec: \<open>RWMol::removeAtom\<close> (RWMol.cpp is not among the sources).
  The atom and its incident bonds disappear, every atom index greater than the removed
  one is shifted down by one wherever it is stored (bond end points, stereo reference
  atoms, conformer positions), and the bonds that remain keep their relative order.
  A pair of stereo reference atoms that names the removed atom is emptied.
\<close>

definition renumber :: "nat \<Rightarrow> nat \<Rightarrow> nat" where
  "renumber idx i = (if idx < i then i - 1 else i)"

definition renumberBond :: "nat \<Rightarrow> Bond \<Rightarrow> Bond" where
  "renumberBond idx b =
     b\<lparr>beginAtomIdx := renumber idx (beginAtomIdx b),
       endAtomIdx := renumber idx (endAtomIdx b),
       stereoAtoms := (if idx \<in> set (stereoAtoms b) then []
                       else map (renumber idx) (stereoAtoms b))\<rparr>"

definition dropAt :: "nat \<Rightarrow> 'a list \<Rightarrow> 'a list" where
  "dropAt idx xs = take idx xs @ drop (Suc idx) xs"

definition removeAtom :: "'m Mol \<Rightarrow> nat \<Rightarrow> 'm Mol" where
  "removeAtom mol idx =
     mol\<lparr>atoms := dropAt idx (atoms mol),
         bonds := map (renumberBond idx) (filter (\<lambda>b. \<not> incident idx b) (bonds mol)),
         conformers := map (\<lambda>c. c\<lparr>positions := dropAt idx (positions c)\<rparr>) (conformers mol)\<rparr>"

subsection \<open>Merging query hydrogens: \<open>mergeQueryHs\<close>\<close>

text \<open>
  Modelled from the spec: the query constructors of QueryOps.h and
  \<open>QueryAtom::expandQuery\<close> (not among the sources). An equality leaf carries its
  description and value; expanding a query by another puts both, in this order, under
  a new \<open>AtomAnd\<close> node.
\<close>

definition makeAtomNumQuery :: "int \<Rightarrow> 'm Query" where
  "makeAtomNumQuery n = Query ''AtomAtomicNum'' False n [] None"

definition makeAtomHCountQuery :: "nat \<Rightarrow> 'm Query" where
  "makeAtomHCountQuery i = Query ''AtomHCount'' False (int i) [] None"

definition setNegation :: "bool \<Rightarrow> 'm Query \<Rightarrow> 'm Query" where
  "setNegation b q = Query (getDescription q) b (getVal q) (children q) (getQueryMol q)"

definition expandQuery :: "'m Query \<Rightarrow> 'm Query \<Rightarrow> 'm Query" where
  "expandQuery orig what = Query ''AtomAnd'' False 0 [orig, what] None"

text \<open>
  The atom that replaces a plain atom: a default-constructed \<open>QueryAtom\<close> with the
  atomic-number query, to which \<open>updateProps\<close> copies the property dictionary of the
  old atom.
\<close>

definition queryAtomFor :: "'m Atom \<Rightarrow> 'm Atom" where
  "queryAtomFor atom =
     (newAtom 0)\<lparr>query := Some (makeAtomNumQuery (atomicNum atom)),
                 isImplicit := isImplicit atom, origNoImplicit := origNoImplicit atom,
                 unknownStereo := unknownStereo atom,
                 molAtomMapNumber := molAtomMapNumber atom,
                 cipCode := cipCode atom, cipRank := cipRank atom\<rparr>"

text \<open>
  The recursion into nested query molecules. The call of \<open>mergeQueryHs\<close> on the
  molecule of a recursive-structure node is the parameter \<open>rec\<close>, which may abort as
  the function itself may. Below the root, a recursive-structure node is handed to
  \<open>rec\<close> and not descended into; the children of any other node are visited.
\<close>

fun mergeInChild :: "('m \<Rightarrow> 'm option) \<Rightarrow> 'm Query \<Rightarrow> 'm Query option" where
  "mergeInChild rec (Query d n v cs qm) =
     (if d = ''RecursiveStructure'' then
        (case qm of
           None \<Rightarrow> None
         | Some m \<Rightarrow> map_option (\<lambda>m'. Query d n v cs (Some m')) (rec m))
      else map_option (\<lambda>cs'. Query d n v cs' qm) (those (map (mergeInChild rec) cs)))"

definition mergeInQuery :: "('m \<Rightarrow> 'm option) \<Rightarrow> 'm Query \<Rightarrow> 'm Query option" where
  "mergeInQuery rec q =
     (case (if getDescription q = ''RecursiveStructure''
            then (case getQueryMol q of None \<Rightarrow> None | Some m \<Rightarrow> map_option Some (rec m))
            else Some (getQueryMol q)) of
        None \<Rightarrow> None
      | Some qm' \<Rightarrow>
          map_option (\<lambda>cs'. Query (getDescription q) (getNegation q) (getVal q) cs' qm')
            (those (map (mergeInChild rec) (children q))))"

definition eligibleHs :: "'m Mol \<Rightarrow> bool list \<Rightarrow> bool \<Rightarrow> nat \<Rightarrow> nat list" where
  "eligibleHs mol hatoms mergeUnmappedOnly currIdx =
     filter (\<lambda>n. hatoms ! n \<and>
                 (\<not> mergeUnmappedOnly \<or> molAtomMapNumber (atoms mol ! n) = None))
       (getAtomNeighbors mol currIdx)"

definition addHCountQueries :: "'m Query \<Rightarrow> nat \<Rightarrow> 'm Query" where
  "addHCountQueries q numHsToRemove =
     foldl (\<lambda>q i. expandQuery q (setNegation True (makeAtomHCountQuery i))) q
       [0..<numHsToRemove]"

definition withHCountQueries :: "'m Atom \<Rightarrow> nat \<Rightarrow> 'm Atom" where
  "withHCountQueries atom numHsToRemove =
     (if numHsToRemove = 0 then atom
      else case query atom of
             None \<Rightarrow>
               (queryAtomFor atom)\<lparr>query :=
                  Some (addHCountQueries (makeAtomNumQuery (atomicNum atom)) numHsToRemove)\<rparr>
           | Some q \<Rightarrow> atom\<lparr>query := Some (addHCountQueries q numHsToRemove)\<rparr>)"

definition mergeAtom ::
  "('m \<Rightarrow> 'm option) \<Rightarrow> bool list \<Rightarrow> bool \<Rightarrow> nat \<Rightarrow> 'm Mol \<times> nat list \<Rightarrow>
   ('m Mol \<times> nat list) option" where
  "mergeAtom rec hatoms mergeUnmappedOnly currIdx st =
     (case st of (mol, atomsToRemove) \<Rightarrow>
        if hatoms ! currIdx then Some (mol, atomsToRemove)
        else
          let hs = eligibleHs mol hatoms mergeUnmappedOnly currIdx;
              atom = withHCountQueries (atoms mol ! currIdx) (length hs)
          in (case query atom of
                None \<Rightarrow> Some (mol\<lparr>atoms := (atoms mol)[currIdx := atom]\<rparr>, atomsToRemove @ hs)
              | Some q \<Rightarrow>
                  (case mergeInQuery rec q of
                     None \<Rightarrow> None
                   | Some q' \<Rightarrow>
                       Some (mol\<lparr>atoms := (atoms mol)[currIdx := atom\<lparr>query := Some q'\<rparr>]\<rparr>,
                             atomsToRemove @ hs))))"

fun mergeLoop ::
  "('m \<Rightarrow> 'm option) \<Rightarrow> bool list \<Rightarrow> bool \<Rightarrow> nat list \<Rightarrow> 'm Mol \<times> nat list \<Rightarrow>
   ('m Mol \<times> nat list) option" where
  "mergeLoop rec hatoms mergeUnmappedOnly [] st = Some st"
| "mergeLoop rec hatoms mergeUnmappedOnly (currIdx # rest) st =
     (case mergeAtom rec hatoms mergeUnmappedOnly currIdx st of
        None \<Rightarrow> None
      | Some st' \<Rightarrow> mergeLoop rec hatoms mergeUnmappedOnly rest st')"

text \<open>
  The removal loop: \<open>getAtomWithIdx\<close> checks the index against the current number of
  atoms and throws when it is out of range.
\<close>

fun removeAtoms :: "'m Mol \<Rightarrow> nat list \<Rightarrow> 'm Mol option" where
  "removeAtoms mol [] = Some mol"
| "removeAtoms mol (i # rest) =
     (if i < getNumAtoms mol then removeAtoms (removeAtom mol i) rest else None)"

definition hatomsOf :: "'m Mol \<Rightarrow> bool list" where
  "hatomsOf mol = map (\<lambda>i. fst (isQueryH mol i)) [0..<getNumAtoms mol]"

definition mergeWarnings :: "'m Mol \<Rightarrow> string list" where
  "mergeWarnings mol = concat (map (\<lambda>i. snd (isQueryH mol i)) [0..<getNumAtoms mol])"

definition mergeMarked ::
  "('m \<Rightarrow> 'm option) \<Rightarrow> 'm Mol \<Rightarrow> bool \<Rightarrow> ('m Mol \<times> nat list) option" where
  "mergeMarked rec mol mergeUnmappedOnly =
     mergeLoop rec (hatomsOf mol) mergeUnmappedOnly [0..<getNumAtoms mol] (mol, [])"

definition mergeQueryHs :: "('m \<Rightarrow> 'm option) \<Rightarrow> 'm Mol \<Rightarrow> bool \<Rightarrow> 'm Mol option" where
  "mergeQueryHs rec mol mergeUnmappedOnly =
     (case mergeMarked rec mol mergeUnmappedOnly of
        None \<Rightarrow> None
      | Some (mol', atomsToRemove) \<Rightarrow> removeAtoms mol' (rev (sort atomsToRemove)))"

text \<open>
  A carbon bonded to a degree-1 query atom whose query is a negated conjunction of
  "atomic number is 1" and "carbon or nitrogen".
\<close>

definition exNegatedQuery :: "unit Query" where
  "exNegatedQuery =
     Query ''AtomAnd'' True 0
       [makeAtomNumQuery 1,
        Query ''AtomOr'' False 0 [makeAtomNumQuery 6, makeAtomNumQuery 7] None] None"

definition exNegated :: "unit Mol" where
  "exNegated = \<lparr>atoms = [newAtom 6, (newAtom 0)\<lparr>query := Some exNegatedQuery\<rparr>],
     bonds = [newBond 0 1 SINGLE], conformers = []\<rparr>"

text \<open>The same with the negation removed from the root.\<close>

definition exOrQuery :: "unit Query" where
  "exOrQuery =
     Query ''AtomAnd'' False 0
       [makeAtomNumQuery 1,
        Query ''AtomOr'' False 0 [makeAtomNumQuery 6, makeAtomNumQuery 7] None] None"

definition exOr :: "unit Mol" where
  "exOr = \<lparr>atoms = [newAtom 6, (newAtom 0)\<lparr>query := Some exOrQuery\<rparr>],
     bonds = [newBond 0 1 SINGLE], conformers = []\<rparr>"

text \<open>
  What one turn of the main loop leaves at \<open>currIdx\<close>, and what it appends to the
  list of atoms to remove; \<open>wellFormed\<close> is invariant (a) of the data model: the end
  points of every bond are atoms of the molecule.
\<close>

definition mergedAtom ::
  "('m \<Rightarrow> 'm option) \<Rightarrow> bool list \<Rightarrow> bool \<Rightarrow> 'm Mol \<Rightarrow> nat \<Rightarrow> 'm Atom option" where
  "mergedAtom rec hatoms mergeUnmappedOnly mol i =
     (if hatoms ! i then Some (atoms mol ! i)
      else
        let atom = withHCountQueries (atoms mol ! i)
                     (length (eligibleHs mol hatoms mergeUnmappedOnly i))
        in case query atom of
             None \<Rightarrow> Some atom
           | Some q \<Rightarrow> map_option (\<lambda>q'. atom\<lparr>query := Some q'\<rparr>) (mergeInQuery rec q))"

definition markedBy :: "bool list \<Rightarrow> bool \<Rightarrow> 'm Mol \<Rightarrow> nat \<Rightarrow> nat list" where
  "markedBy hatoms mergeUnmappedOnly mol i =
     (if hatoms ! i then [] else eligibleHs mol hatoms mergeUnmappedOnly i)"

definition wellFormed :: "'m Mol \<Rightarrow> bool" where
  "wellFormed mol =
     list_all (\<lambda>b. beginAtomIdx b < getNumAtoms mol \<and> endAtomIdx b < getNumAtoms mol)
       (bonds mol)"

text \<open>
  Two borons bridged by two hydrogens, in a ring: each hydrogen has degree 2.
\<close>

definition exBridged :: "unit Mol" where
  "exBridged = \<lparr>atoms = [newAtom 5, newAtom 1, newAtom 5, newAtom 1],
     bonds = [newBond 0 1 SINGLE, newBond 1 2 SINGLE, newBond 2 3 SINGLE, newBond 3 0 SINGLE],
     conformers = []\<rparr>"

text \<open>Methane's carbon as a query atom with two explicit hydrogens (\<open>[#6]([H])[H]\<close>).\<close>

definition exMethylene :: "unit Mol" where
  "exMethylene = \<lparr>atoms = [(newAtom 6)\<lparr>query := Some (makeAtomNumQuery 6)\<rparr>, newAtom 1, newAtom 1],
     bonds = [newBond 0 1 SINGLE, newBond 0 2 SINGLE],
     conformers = []\<rparr>"

subsection \<open>Removing hydrogens: \<open>removeHs\<close>\<close>

text \<open>
  The services of the surrounding library that \<open>addHs\<close> and \<open>removeHs\<close> call are
  parameters: \<open>calcValences strict mol i\<close> is what \<open>updatePropertyCache(strict)\<close>
  computes for atom \<open>i\<close> (the explicit valence and the implicit hydrogen count, or an
  exception), \<open>getValenceList\<close> is the periodic table's list of valences, and
  \<open>sanitizeMol\<close> is the sanitization pass, which returns the sanitized molecule or
  throws.
\<close>

record 'm Chem =
  calcValences :: "bool \<Rightarrow> 'm Mol \<Rightarrow> nat \<Rightarrow> (int \<times> nat) option"
  getValenceList :: "int \<Rightarrow> int list"
  sanitizeMol :: "'m Mol \<Rightarrow> 'm Mol option"

text \<open>
  Modelled from the spec: the accessors of \<open>Atom\<close> (Atom.h is not among the
  sources). The chiral tag has the three values of the data model and inversion swaps
  clockwise and counterclockwise; an atom flagged no-implicit has no implicit
  hydrogens; the total valence is the sum of the two cached valences.
\<close>

fun invertChirality :: "ChiralType \<Rightarrow> ChiralType" where
  "invertChirality CHI_TETRAHEDRAL_CW = CHI_TETRAHEDRAL_CCW"
| "invertChirality CHI_TETRAHEDRAL_CCW = CHI_TETRAHEDRAL_CW"
| "invertChirality CHI_UNSPECIFIED = CHI_UNSPECIFIED"

definition getNumImplicitHs :: "'m Atom \<Rightarrow> nat" where
  "getNumImplicitHs atom = (if noImplicit atom then 0 else implicitValence atom)"

definition getTotalValence :: "'m Atom \<Rightarrow> int" where
  "getTotalValence atom = explicitValence atom + int (getNumImplicitHs atom)"

definition updatePropertyCache :: "'m Chem \<Rightarrow> bool \<Rightarrow> 'm Mol \<Rightarrow> nat \<Rightarrow> 'm Mol option" where
  "updatePropertyCache ch strict mol i =
     (case calcValences ch strict mol i of
        None \<Rightarrow> None
      | Some (ev, iv) \<Rightarrow>
          Some (mol\<lparr>atoms := (atoms mol)[i := (atoms mol ! i)\<lparr>explicitValence := ev,
                                                              implicitValence := iv\<rparr>]\<rparr>))"

text \<open>
  Modelled from the spec: \<open>Atom::getPerturbationOrder\<close>, which counts the swaps that
  turn the probe list into the atom's own list of bond indices: walking along the
  reference, an element of the probe that differs is swapped with the reference's
  element further down the probe.
\<close>

fun replaceFirst :: "nat \<Rightarrow> nat \<Rightarrow> nat list \<Rightarrow> nat list" where
  "replaceFirst a b [] = []"
| "replaceFirst a b (x # xs) = (if x = a then b # xs else x # replaceFirst a b xs)"

fun countSwapsToInterconvert :: "nat list \<Rightarrow> nat list \<Rightarrow> nat" where
  "countSwapsToInterconvert [] probe = 0"
| "countSwapsToInterconvert (r # ref) [] = 0"
| "countSwapsToInterconvert (r # ref) (p # probe) =
     (if p = r then countSwapsToInterconvert ref probe
      else Suc (countSwapsToInterconvert ref (replaceFirst r p probe)))"

definition getPerturbationOrder :: "'m Mol \<Rightarrow> nat \<Rightarrow> nat list \<Rightarrow> nat" where
  "getPerturbationOrder mol atom probe = countSwapsToInterconvert (getAtomBonds mol atom) probe"

text \<open>The decision taken for a hydrogen at \<open>idx\<close>: the local variable \<open>removeIt\<close>.\<close>

definition blocksRemoval :: "'m Mol \<Rightarrow> nat \<Rightarrow> nat \<Rightarrow> bool" where
  "blocksRemoval mol hBond bi =
     (bondType (bonds mol ! bi) = DOUBLE \<and>
      (stereoRank (stereo (bonds mol ! bi)) > stereoRank STEREOANY \<or>
       dirRank (bondDir (bonds mol ! hBond)) > dirRank DIR_NONE))"

definition removeIt :: "'m Mol \<Rightarrow> bool \<Rightarrow> nat \<Rightarrow> bool" where
  "removeIt mol implicitOnly idx =
     (let atom = atoms mol ! idx in
      case getAtomBonds mol idx of
        [] \<Rightarrow> False
      | hBond # others \<Rightarrow>
          let nbr = getOtherAtomIdx (bonds mol ! hBond) idx in
          if query atom \<noteq> None then False
          else if isImplicit atom then
            (if others = [] then \<not> atomicNum (atoms mol ! nbr) < 1 else True)
          else if \<not> implicitOnly \<and> isotope atom = 0 \<and> others = [] then
            (if atomicNum (atoms mol ! nbr) > 1 then
               (if getDegree mol nbr = 2
                then \<not> list_ex (blocksRemoval mol hBond) (getAtomBonds mol nbr)
                else True)
             else False)
          else False)"

text \<open>The explicit hydrogen count of the heavy atom.\<close>

definition countsAsExplicit :: "'m Chem \<Rightarrow> bool \<Rightarrow> 'm Atom \<Rightarrow> bool" where
  "countsAsExplicit ch updateExplicitCount heavyAtom =
     (if updateExplicitCount \<or> noImplicit heavyAtom \<or> chiralTag heavyAtom \<noteq> CHI_UNSPECIFIED
      then True
      else ((atomicNum heavyAtom = 7 \<or> atomicNum heavyAtom = 15) \<and> atomIsAromatic heavyAtom) \<or>
           getTotalValence heavyAtom \<in> set (tl (getValenceList ch (atomicNum heavyAtom))))"

text \<open>The parity fix-up of the heavy atom's chiral tag (lines 667 to 684).\<close>

definition neighborIndices :: "'m Mol \<Rightarrow> nat \<Rightarrow> nat \<Rightarrow> nat list" where
  "neighborIndices mol heavyIdx hBond =
     filter (\<lambda>bi. bi \<noteq> hBond) (getAtomBonds mol heavyIdx) @ [hBond]"

definition fixedChiralTag :: "'m Mol \<Rightarrow> nat \<Rightarrow> nat \<Rightarrow> ChiralType" where
  "fixedChiralTag mol heavyIdx hBond =
     (let tag = chiralTag (atoms mol ! heavyIdx) in
      if tag \<noteq> CHI_UNSPECIFIED then
        (let nSwaps = getPerturbationOrder mol heavyIdx (neighborIndices mol heavyIdx hBond)
         in if nSwaps mod 2 \<noteq> 0 then invertChirality tag else tag)
      else tag)"

text \<open>
  \<open>adjustStereoAtomsIfRequired\<close>: the bonds of the heavy atom are visited in order;
  at the first double bond with a stereo descriptor beyond "any" whose stereo atoms
  name the hydrogen, the first neighbour of the heavy atom that is neither the other
  end of that double bond nor the hydrogen takes the hydrogen's place, and the
  function returns. The result is the molecule and whether an adjustment was made.
\<close>

fun swapStereo :: "BondStereo \<Rightarrow> BondStereo \<times> bool" where
  "swapStereo STEREOCIS = (STEREOTRANS, True)"
| "swapStereo STEREOTRANS = (STEREOCIS, True)"
| "swapStereo s = (s, False)"

fun adjustOverBonds :: "'m Mol \<Rightarrow> nat \<Rightarrow> nat \<Rightarrow> nat list \<Rightarrow> 'm Mol \<times> bool" where
  "adjustOverBonds mol atom heavyAtom [] = (mol, False)"
| "adjustOverBonds mol atom heavyAtom (bi # rest) =
     (let bnd = bonds mol ! bi in
      if bondType bnd = DOUBLE \<and> stereoRank (stereo bnd) > stereoRank STEREOANY \<and>
         atom \<in> set (stereoAtoms bnd)
      then
        (let dblNbrIdx = getOtherAtomIdx bnd heavyAtom in
         case filter (\<lambda>n. \<not> (n = dblNbrIdx \<or> n = atom)) (getAtomNeighbors mol heavyAtom) of
           [] \<Rightarrow> adjustOverBonds mol atom heavyAtom rest
         | nbr # _ \<Rightarrow>
             (mol\<lparr>bonds := (bonds mol)[bi := bnd\<lparr>stereoAtoms := replaceFirst atom nbr (stereoAtoms bnd),
                                                 stereo := fst (swapStereo (stereo bnd))\<rparr>]\<rparr>,
              snd (swapStereo (stereo bnd))))
      else adjustOverBonds mol atom heavyAtom rest)"

definition adjustStereoAtomsIfRequired :: "'m Mol \<Rightarrow> nat \<Rightarrow> nat \<Rightarrow> 'm Mol \<times> bool" where
  "adjustStereoAtomsIfRequired mol atom heavyAtom =
     (if getDegree mol heavyAtom = 2 then (mol, False)
      else if getBondBetweenAtoms mol atom heavyAtom = None then (mol, False)
      else adjustOverBonds mol atom heavyAtom (getAtomBonds mol heavyAtom))"

text \<open>
  The single bonds of the heavy atom other than the hydrogen's: \<open>oBond\<close> is the last
  one without a direction, \<open>foundADir\<close> says whether one has a direction.
\<close>

definition otherSingles :: "'m Mol \<Rightarrow> nat \<Rightarrow> nat \<Rightarrow> nat list" where
  "otherSingles mol heavyIdx hBond =
     filter (\<lambda>bi. bi \<noteq> hBond \<and> bondType (bonds mol ! bi) = SINGLE) (getAtomBonds mol heavyIdx)"

definition copyDirection :: "'m Mol \<Rightarrow> nat \<Rightarrow> nat \<Rightarrow> 'm Mol" where
  "copyDirection mol heavyIdx hBond =
     (let singles = otherSingles mol heavyIdx hBond;
          foundADir = list_ex (\<lambda>bi. bondDir (bonds mol ! bi) \<noteq> DIR_NONE) singles;
          bond = bonds mol ! hBond
      in case rev (filter (\<lambda>bi. bondDir (bonds mol ! bi) = DIR_NONE) singles) of
           [] \<Rightarrow> mol
         | oBond # _ \<Rightarrow>
             if foundADir then mol
             else
               let flipIt = (beginAtomIdx (bonds mol ! oBond) = heavyIdx \<and>
                             beginAtomIdx bond = heavyIdx);
                   dir = (if flipIt
                          then (if bondDir bond = ENDDOWNRIGHT then ENDUPRIGHT else ENDDOWNRIGHT)
                          else bondDir bond)
               in mol\<lparr>bonds := (bonds mol)[oBond := (bonds mol ! oBond)\<lparr>bondDir := dir\<rparr>]\<rparr>)"

text \<open>
  What happens to the heavy atom and its bonds when the hydrogen at \<open>idx\<close> is
  removed (lines 626 to 733), before \<open>removeAtom\<close>.
\<close>

definition setHeavy :: "'m Mol \<Rightarrow> nat \<Rightarrow> ('m Atom \<Rightarrow> 'm Atom) \<Rightarrow> 'm Mol" where
  "setHeavy mol heavyIdx f = mol\<lparr>atoms := (atoms mol)[heavyIdx := f (atoms mol ! heavyIdx)]\<rparr>"

definition usesStereoAdjust :: "'m Mol \<Rightarrow> nat \<Rightarrow> nat \<Rightarrow> bool" where
  "usesStereoAdjust mol heavyIdx hBond =
     (\<not> (bondDir (bonds mol ! hBond) = DIR_UNKNOWN \<and>
         beginAtomIdx (bonds mol ! hBond) = heavyIdx))"

definition detachHydrogen :: "'m Chem \<Rightarrow> bool \<Rightarrow> 'm Mol \<Rightarrow> nat \<Rightarrow> 'm Mol" where
  "detachHydrogen ch updateExplicitCount mol idx =
     (case getAtomBonds mol idx of
        [] \<Rightarrow> mol
      | hBond # _ \<Rightarrow>
          let heavyIdx = getOtherAtomIdx (bonds mol ! hBond) idx;
              heavyAtom = atoms mol ! heavyIdx;
              mol1 = (if countsAsExplicit ch updateExplicitCount heavyAtom
                      then setHeavy mol heavyIdx
                             (\<lambda>a. a\<lparr>numExplicitHs := numExplicitHs a + 1\<rparr>)
                      else mol);
              mol2 = setHeavy mol1 heavyIdx
                       (\<lambda>a. a\<lparr>chiralTag := fixedChiralTag mol1 heavyIdx hBond\<rparr>);
              bond = bonds mol2 ! hBond
          in if bondDir bond = DIR_UNKNOWN \<and> beginAtomIdx bond = heavyIdx
             then setHeavy mol2 heavyIdx (\<lambda>a. a\<lparr>unknownStereo := True\<rparr>)
             else if bondDir bond = ENDDOWNRIGHT \<or> bondDir bond = ENDUPRIGHT
             then fst (adjustStereoAtomsIfRequired (copyDirection mol2 heavyIdx hBond) idx heavyIdx)
             else fst (adjustStereoAtomsIfRequired mol2 idx heavyIdx))"

definition restoreNoImplicit :: "'m Mol \<Rightarrow> nat \<Rightarrow> 'm Mol" where
  "restoreNoImplicit mol idx =
     (case origNoImplicit (atoms mol ! idx) of
        None \<Rightarrow> mol
      | Some orig \<Rightarrow> setHeavy mol idx (\<lambda>a. a\<lparr>noImplicit := orig, origNoImplicit := None\<rparr>))"

definition removeHsStep :: "'m Chem \<Rightarrow> bool \<Rightarrow> bool \<Rightarrow> 'm Mol \<Rightarrow> nat \<Rightarrow> 'm Mol \<times> nat" where
  "removeHsStep ch implicitOnly updateExplicitCount mol currIdx =
     (if atomicNum (atoms mol ! currIdx) = 1 then
        (if removeIt mol implicitOnly currIdx
         then (removeAtom (detachHydrogen ch updateExplicitCount mol currIdx) currIdx, currIdx)
         else (mol, Suc currIdx))
      else (restoreNoImplicit mol currIdx, Suc currIdx))"

text \<open>
  The main loop ends: a turn either removes the atom at \<open>currIdx\<close> or moves on to the
  next index.
\<close>

lemma length_atoms_setHeavy: "length (atoms (setHeavy mol i f)) = length (atoms mol)"
  by (simp add: setHeavy_def)

lemma atoms_adjustOverBonds: "atoms (fst (adjustOverBonds mol a h bs)) = atoms mol"
  by (induction bs) (auto simp: Let_def split: list.splits)

lemma atoms_adjustStereo: "atoms (fst (adjustStereoAtomsIfRequired mol a h)) = atoms mol"
  by (simp add: adjustStereoAtomsIfRequired_def atoms_adjustOverBonds)

lemma atoms_copyDirection: "atoms (copyDirection mol h b) = atoms mol"
  by (simp add: copyDirection_def Let_def split: list.splits)

lemma length_atoms_detach:
  "length (atoms (detachHydrogen ch u mol idx)) = length (atoms mol)"
  by (simp add: detachHydrogen_def Let_def atoms_adjustStereo atoms_copyDirection
      length_atoms_setHeavy split: list.splits)

lemma length_atoms_removeAtom:
  "idx < length (atoms mol) \<Longrightarrow> length (atoms (removeAtom mol idx)) = length (atoms mol) - 1"
  by (simp add: removeAtom_def dropAt_def)

lemma removeHsStep_decreases:
  assumes "currIdx < getNumAtoms mol"
    and "removeHsStep ch implicitOnly updateExplicitCount mol currIdx = (mol', next)"
  shows "getNumAtoms mol' - next < getNumAtoms mol - currIdx"
proof (cases "atomicNum (atoms mol ! currIdx) = 1 \<and> removeIt mol implicitOnly currIdx")
  case True
  then have "mol' = removeAtom (detachHydrogen ch updateExplicitCount mol currIdx) currIdx"
    and "next = currIdx"
    using assms(2) by (auto simp: removeHsStep_def)
  then show ?thesis
    using assms(1) by (simp add: getNumAtoms_def length_atoms_removeAtom length_atoms_detach)
next
  case False
  then have "getNumAtoms mol' = getNumAtoms mol" and "next = Suc currIdx"
    using assms(2)
    by (auto simp: removeHsStep_def getNumAtoms_def restoreNoImplicit_def length_atoms_setHeavy
        split: if_splits option.splits)
  then show ?thesis using assms(1) by simp
qed

function removeHsLoop :: "'m Chem \<Rightarrow> bool \<Rightarrow> bool \<Rightarrow> 'm Mol \<Rightarrow> nat \<Rightarrow> 'm Mol" where
  "removeHsLoop ch implicitOnly updateExplicitCount mol currIdx =
     (if currIdx < getNumAtoms mol then
        (case removeHsStep ch implicitOnly updateExplicitCount mol currIdx of
           (mol', next) \<Rightarrow> removeHsLoop ch implicitOnly updateExplicitCount mol' next)
      else mol)"
  by pat_completeness auto
termination
proof (relation "measure (\<lambda>(ch, io, ue, mol, currIdx). getNumAtoms mol - currIdx)", goal_cases)
  case 1
  show ?case by simp
next
  case (2 ch implicitOnly updateExplicitCount mol currIdx mol' nxt)
  then have e: "removeHsStep ch implicitOnly updateExplicitCount mol currIdx = (mol', nxt)"
    by simp
  show ?case
    using removeHsStep_decreases [OF 2(1) e] by (simp add: e)
qed

declare removeHsLoop.simps [simp del]

text \<open>
  An exception is a value. A valence failure of \<open>updatePropertyCache\<close> is one of the
  sanitization exceptions, as the sanitization pass's own failures are.
\<close>

datatype Exn = MolSanitizeException | OtherException

fun refreshCaches :: "'m Chem \<Rightarrow> 'm Mol \<Rightarrow> nat list \<Rightarrow> Exn + 'm Mol" where
  "refreshCaches ch mol [] = Inr mol"
| "refreshCaches ch mol (i # rest) =
     (if atomicNum (atoms mol ! i) = 1 then refreshCaches ch mol rest
      else case updatePropertyCache ch False mol i of
             None \<Rightarrow> Inl MolSanitizeException
           | Some mol' \<Rightarrow> refreshCaches ch mol' rest)"

definition removeHs :: "'m Chem \<Rightarrow> 'm Mol \<Rightarrow> bool \<Rightarrow> bool \<Rightarrow> bool \<Rightarrow> Exn + 'm Mol" where
  "removeHs ch mol implicitOnly updateExplicitCount sanitize =
     (case refreshCaches ch mol [0..<getNumAtoms mol] of
        Inl e \<Rightarrow> Inl e
      | Inr mol1 \<Rightarrow>
          let mol2 = removeHsLoop ch implicitOnly updateExplicitCount mol1 0
          in if \<not> implicitOnly \<and> sanitize then
               (case sanitizeMol ch mol2 of
                  None \<Rightarrow> Inl MolSanitizeException
                | Some mol3 \<Rightarrow> Inr mol3)
             else Inr mol2)"

text \<open>
  The variant that returns a copy. The molecules live in a store, from addresses to
  molecules; the argument is the address \<open>src\<close> of the input, and \<open>res\<close> is the
  address that \<open>new RWMol(mol)\<close> returns. The result is the store in which the call
  ends and either the exception or the address of the new molecule. Only a
  \<open>MolSanitizeException\<close> is caught.
\<close>

type_synonym 'm Store = "nat \<rightharpoonup> 'm Mol"

definition removeHsCopy ::
  "'m Chem \<Rightarrow> 'm Store \<Rightarrow> nat \<Rightarrow> nat \<Rightarrow> bool \<Rightarrow> bool \<Rightarrow> bool \<Rightarrow> 'm Store \<times> (Exn + nat)" where
  "removeHsCopy ch store res src implicitOnly updateExplicitCount sanitize =
     (case store src of
        None \<Rightarrow> (store, Inl OtherException)
      | Some mol \<Rightarrow>
          let store1 = fun_upd store res (Some mol)
          in (case removeHs ch mol implicitOnly updateExplicitCount sanitize of
                Inl MolSanitizeException \<Rightarrow> (fun_upd store1 res None, Inl MolSanitizeException)
              | Inl e \<Rightarrow> (store1, Inl e)
              | Inr mol' \<Rightarrow> (fun_upd store1 res (Some mol'), Inr res)))"

text \<open>
  A carbon with one hydrogen atom in the graph, a valence service that always answers
  "explicit valence 4, no implicit hydrogens", and a sanitization pass that always
  fails, or always succeeds.
\<close>

definition exCH :: "unit Mol" where
  "exCH = \<lparr>atoms = [newAtom 6, newAtom 1], bonds = [newBond 0 1 SINGLE], conformers = []\<rparr>"

definition exChemFailing :: "unit Chem" where
  "exChemFailing = \<lparr>calcValences = (\<lambda>strict mol i. Some (4, 0)),
                     getValenceList = (\<lambda>z. [4]),
                     sanitizeMol = (\<lambda>mol. None)\<rparr>"

definition exChem :: "unit Chem" where
  "exChem = \<lparr>calcValences = (\<lambda>strict mol i. Some (4, 0)),
              getValenceList = (\<lambda>z. [4]),
              sanitizeMol = (\<lambda>mol. Some mol)\<rparr>"

definition exStore :: "unit Store" where
  "exStore = map_of [(0, exCH)]"

text \<open>
  The parity of the permutation that takes a probe list into a reference list, in the
  words of the spec: the parity of the number of inversions, that is of the pairs of
  probe elements that stand in the opposite order in the reference.
\<close>

definition precedes :: "nat list \<Rightarrow> nat \<Rightarrow> nat \<Rightarrow> bool" where
  "precedes ref x y = (x \<in> set (takeWhile (\<lambda>z. z \<noteq> y) ref))"

fun inversions :: "nat list \<Rightarrow> nat list \<Rightarrow> nat" where
  "inversions ref [] = 0"
| "inversions ref (p # probe) =
     length (filter (\<lambda>q. precedes ref q p) probe) + inversions ref probe"

definition oddPermutation :: "nat list \<Rightarrow> nat list \<Rightarrow> bool" where
  "oddPermutation ref probe = odd (inversions ref probe)"

text \<open>
  A carbon with a clockwise chiral tag, bonded, in this order, to a hydrogen, a
  fluorine, a chlorine and a bromine.
\<close>

definition exChiral :: "unit Mol" where
  "exChiral = \<lparr>atoms = [(newAtom 6)\<lparr>chiralTag := CHI_TETRAHEDRAL_CW\<rparr>, newAtom 1, newAtom 9,
                         newAtom 17, newAtom 35],
     bonds = [newBond 0 1 SINGLE, newBond 0 2 SINGLE, newBond 0 3 SINGLE, newBond 0 4 SINGLE],
     conformers = []\<rparr>"

text \<open>
  A double bond \<open>C0=C1\<close> with a cis descriptor whose stereo atoms are the hydrogen 3
  on \<open>C0\<close> and the carbon 4 on \<open>C1\<close>; \<open>C0\<close> also carries the carbon 2. In \<open>exWavy\<close>
  the bond from \<open>C0\<close> to the hydrogen has the unknown ("wavy") direction, in
  \<open>exCis\<close> it has none.
\<close>

definition exCis :: "unit Mol" where
  "exCis = \<lparr>atoms = [newAtom 6, newAtom 6, newAtom 6, newAtom 1, newAtom 6],
     bonds = [(newBond 0 1 DOUBLE)\<lparr>stereo := STEREOCIS, stereoAtoms := [3, 4]\<rparr>,
              newBond 0 2 SINGLE, newBond 0 3 SINGLE, newBond 1 4 SINGLE],
     conformers = []\<rparr>"

definition exWavy :: "unit Mol" where
  "exWavy = exCis\<lparr>bonds := (bonds exCis)[2 := (newBond 0 3 SINGLE)\<lparr>bondDir := DIR_UNKNOWN\<rparr>]\<rparr>"

text \<open>What makes \<open>adjustStereoAtomsIfRequired\<close> stop at a bond of the heavy atom.\<close>

definition namesHydrogen :: "'m Mol \<Rightarrow> nat \<Rightarrow> nat \<Rightarrow> bool" where
  "namesHydrogen mol atom bi =
     (bondType (bonds mol ! bi) = DOUBLE \<and>
      stereoRank (stereo (bonds mol ! bi)) > stereoRank STEREOANY \<and>
      atom \<in> set (stereoAtoms (bonds mol ! bi)))"

text \<open>Two molecules whose bonds differ at most in their direction markers.\<close>

definition sameButDir :: "'m Mol \<Rightarrow> 'm Mol \<Rightarrow> bool" where
  "sameButDir mol' mol =
     list_all2 (\<lambda>b' b. b' = b\<lparr>bondDir := bondDir b'\<rparr>) (bonds mol') (bonds mol)"

text \<open>
  An imine \<open>N0=C1\<close> with a cis descriptor whose stereo atoms are the hydrogen 2 on the
  nitrogen and the carbon 3 on \<open>C1\<close>; the nitrogen has degree 2. In \<open>exImine\<close> the
  hydrogen carries the \<open>isImplicit\<close> flag that \<open>addHs\<close> sets, in \<open>exImineDrawn\<close> it
  does not.
\<close>

definition exImineDrawn :: "unit Mol" where
  "exImineDrawn = \<lparr>atoms = [newAtom 7, newAtom 6, newAtom 1, newAtom 6],
     bonds = [(newBond 0 1 DOUBLE)\<lparr>stereo := STEREOCIS, stereoAtoms := [2, 3]\<rparr>,
              newBond 0 2 SINGLE, newBond 1 3 SINGLE],
     conformers = []\<rparr>"

definition exImine :: "unit Mol" where
  "exImine = exImineDrawn\<lparr>atoms := (atoms exImineDrawn)[2 := (newAtom 1)\<lparr>isImplicit := True\<rparr>]\<rparr>"

subsection \<open>Adding hydrogens: \<open>addHs\<close>\<close>

text \<open>
  Modelled from the spec: \<open>RWMol::addAtom\<close> and \<open>addBond\<close> (RWMol.cpp is not among
  the sources). The new atom gets the next index and a position in every conformer;
  the new bond gets the next bond index.
\<close>

definition addAtom :: "'m Mol \<Rightarrow> 'm Atom \<Rightarrow> 'm Mol" where
  "addAtom mol atom =
     mol\<lparr>atoms := atoms mol @ [atom],
         conformers := map (\<lambda>c. setAtomPos c (length (atoms mol)) (P3 0 0 0)) (conformers mol)\<rparr>"

definition addBond :: "'m Mol \<Rightarrow> nat \<Rightarrow> nat \<Rightarrow> BondType \<Rightarrow> 'm Mol" where
  "addBond mol a b t = mol\<lparr>bonds := bonds mol @ [newBond a b t]\<rparr>"

text \<open>
  One pass of either inner loop: a hydrogen atom is added and bonded to atom \<open>aidx\<close>,
  flagged \<open>isImplicit\<close> in the second loop, its property cache is updated (strictly, so
  this may throw), and it is placed when coordinates are asked for. An exception is
  the value \<open>None\<close>.
\<close>

definition addHydrogen ::
  "'m Chem \<Rightarrow> Services \<Rightarrow> bool \<Rightarrow> bool \<Rightarrow> 'm Mol \<Rightarrow> nat \<Rightarrow> 'm Mol option" where
  "addHydrogen ch sv addCoords flagged mol aidx =
     (let newIdx = getNumAtoms mol;
          mol1 = addBond (addAtom mol (newAtom 1)) aidx newIdx SINGLE;
          mol2 = (if flagged then setHeavy mol1 newIdx (\<lambda>a. a\<lparr>isImplicit := True\<rparr>) else mol1)
      in case updatePropertyCache ch True mol2 newIdx of
           None \<Rightarrow> None
         | Some mol3 \<Rightarrow> if addCoords then setHydrogenCoords sv mol3 newIdx aidx else Some mol3)"

fun addExplicitHs ::
  "'m Chem \<Rightarrow> Services \<Rightarrow> bool \<Rightarrow> 'm Mol \<Rightarrow> nat \<Rightarrow> nat \<Rightarrow> 'm Mol option" where
  "addExplicitHs ch sv addCoords mol aidx 0 = Some mol"
| "addExplicitHs ch sv addCoords mol aidx (Suc k) =
     (case addHydrogen ch sv addCoords False mol aidx of
        None \<Rightarrow> None
      | Some mol' \<Rightarrow> addExplicitHs ch sv addCoords mol' aidx k)"

lemma atoms_setHydrogenCoords:
  "setHydrogenCoords sv mol hydIdx heavyIdx = Some mol' \<Longrightarrow>
   atoms mol' = atoms mol \<and> bonds mol' = bonds mol"
  by (auto simp: setHydrogenCoords_def Let_def split: if_splits option.splits)

lemma addHydrogen_atoms:
  assumes "addHydrogen ch sv addCoords flagged mol aidx = Some mol'"
  shows "\<exists>h. atoms mol' = atoms mol @ [h] \<and> atomicNum h = 1 \<and> isImplicit h = flagged \<and>
             query h = None"
    and "bonds mol' = bonds mol @ [newBond aidx (getNumAtoms mol) SINGLE]"
proof -
  let ?mol1 = "addBond (addAtom mol (newAtom 1)) aidx (getNumAtoms mol) SINGLE"
  let ?mol2 = "if flagged then setHeavy ?mol1 (getNumAtoms mol) (\<lambda>a. a\<lparr>isImplicit := True\<rparr>)
               else ?mol1"
  from assms obtain mol3 where u: "updatePropertyCache ch True ?mol2 (getNumAtoms mol) = Some mol3"
    and c: "mol' = mol3 \<or> setHydrogenCoords sv mol3 (getNumAtoms mol) aidx = Some mol'"
    by (auto simp: addHydrogen_def Let_def split: option.splits if_splits)
  have a2: "atoms ?mol2 = atoms mol @ [(newAtom 1)\<lparr>isImplicit := flagged\<rparr>]"
    by (simp add: addBond_def addAtom_def setHeavy_def getNumAtoms_def newAtom_def)
  have b2: "bonds ?mol2 = bonds mol @ [newBond aidx (getNumAtoms mol) SINGLE]"
    by (simp add: addBond_def addAtom_def setHeavy_def)
  from u obtain ev iv where
    m3: "mol3 = ?mol2\<lparr>atoms := (atoms ?mol2)[getNumAtoms mol :=
           (atoms ?mol2 ! getNumAtoms mol)\<lparr>explicitValence := ev, implicitValence := iv\<rparr>]\<rparr>"
    by (auto simp: updatePropertyCache_def split: option.splits)
  have a3: "atoms mol3 = atoms mol @
      [(newAtom 1)\<lparr>isImplicit := flagged, explicitValence := ev, implicitValence := iv\<rparr>]"
    unfolding m3 by (simp add: a2 getNumAtoms_def)
  have b3: "bonds mol3 = bonds mol @ [newBond aidx (getNumAtoms mol) SINGLE]"
    unfolding m3 by (simp add: b2)
  have e: "atoms mol' = atoms mol3 \<and> bonds mol' = bonds mol3"
    using c atoms_setHydrogenCoords by blast
  show "\<exists>h. atoms mol' = atoms mol @ [h] \<and> atomicNum h = 1 \<and> isImplicit h = flagged \<and>
             query h = None"
    using e a3 by (simp add: newAtom_def)
  show "bonds mol' = bonds mol @ [newBond aidx (getNumAtoms mol) SINGLE]"
    using e b3 by simp
qed

text \<open>
  The second inner loop reads \<open>getNumImplicitHs\<close> of the atom in every pass; it ends
  because adding a hydrogen leaves the atom at \<open>aidx\<close> as it is.
\<close>

function addImplicitHs ::
  "'m Chem \<Rightarrow> Services \<Rightarrow> bool \<Rightarrow> 'm Mol \<Rightarrow> nat \<Rightarrow> nat \<Rightarrow> 'm Mol option" where
  "addImplicitHs ch sv addCoords mol aidx i =
     (if \<not> aidx < getNumAtoms mol then None
      else if i < getNumImplicitHs (atoms mol ! aidx) then
        (case addHydrogen ch sv addCoords True mol aidx of
           None \<Rightarrow> None
         | Some mol' \<Rightarrow> addImplicitHs ch sv addCoords mol' aidx (Suc i))
      else Some mol)"
  by pat_completeness auto
termination
proof (relation "measure (\<lambda>(ch, sv, addCoords, mol, aidx, i).
                    getNumImplicitHs (atoms mol ! aidx) - i)", goal_cases)
  case 1
  show ?case by simp
next
  case (2 ch sv addCoords mol aidx i mol')
  from addHydrogen_atoms(1) [OF 2(3)] obtain h where "atoms mol' = atoms mol @ [h]" by blast
  then have "atoms mol' ! aidx = atoms mol ! aidx"
    using 2(1) by (simp add: getNumAtoms_def nth_append)
  then show ?case using 2(2) by simp
qed

declare addImplicitHs.simps [simp del]

definition addHsAt ::
  "'m Chem \<Rightarrow> Services \<Rightarrow> bool \<Rightarrow> bool \<Rightarrow> 'm Mol \<Rightarrow> nat \<Rightarrow> 'm Mol option" where
  "addHsAt ch sv explicitOnly addCoords mol aidx =
     (case addExplicitHs ch sv addCoords mol aidx (numExplicitHs (atoms mol ! aidx)) of
        None \<Rightarrow> None
      | Some mol1 \<Rightarrow>
          let mol2 = setHeavy mol1 aidx (\<lambda>a. a\<lparr>numExplicitHs := 0\<rparr>)
          in if explicitOnly then updatePropertyCache ch True mol2 aidx
             else
               (case addImplicitHs ch sv addCoords mol2 aidx 0 of
                  None \<Rightarrow> None
                | Some mol3 \<Rightarrow>
                    updatePropertyCache ch True
                      (setHeavy mol3 aidx
                         (\<lambda>a. a\<lparr>origNoImplicit := Some (noImplicit a), noImplicit := True\<rparr>))
                      aidx))"

fun addHsLoop ::
  "'m Chem \<Rightarrow> Services \<Rightarrow> bool \<Rightarrow> bool \<Rightarrow> nat list option \<Rightarrow> 'm Mol \<Rightarrow> nat list \<Rightarrow>
   'm Mol option" where
  "addHsLoop ch sv explicitOnly addCoords onlyOnAtoms mol [] = Some mol"
| "addHsLoop ch sv explicitOnly addCoords onlyOnAtoms mol (aidx # rest) =
     (if (case onlyOnAtoms of None \<Rightarrow> False | Some only \<Rightarrow> aidx \<notin> set only)
      then addHsLoop ch sv explicitOnly addCoords onlyOnAtoms mol rest
      else case addHsAt ch sv explicitOnly addCoords mol aidx of
             None \<Rightarrow> None
           | Some mol' \<Rightarrow> addHsLoop ch sv explicitOnly addCoords onlyOnAtoms mol' rest)"

text \<open>
  \<open>addHs\<close> without the assignment of residue information (\<open>addResidueInfo = false\<close>).
\<close>

definition addHs ::
  "'m Chem \<Rightarrow> Services \<Rightarrow> 'm Mol \<Rightarrow> bool \<Rightarrow> bool \<Rightarrow> nat list option \<Rightarrow> 'm Mol option" where
  "addHs ch sv mol explicitOnly addCoords onlyOnAtoms =
     addHsLoop ch sv explicitOnly addCoords onlyOnAtoms mol [0..<getNumAtoms mol]"

text \<open>
  Ethane with all hydrogens implicit (three on each carbon), and a valence service that
  never fails and leaves the cached implicit count as it is.
\<close>

definition exEthane :: "unit Mol" where
  "exEthane = \<lparr>atoms = [(newAtom 6)\<lparr>implicitValence := 3, explicitValence := 1\<rparr>,
                         (newAtom 6)\<lparr>implicitValence := 3, explicitValence := 1\<rparr>],
     bonds = [newBond 0 1 SINGLE], conformers = []\<rparr>"

definition exChemKeeping :: "unit Chem" where
  "exChemKeeping = \<lparr>calcValences = (\<lambda>strict mol i. Some (4, implicitValence (atoms mol ! i))),
                     getValenceList = (\<lambda>z. [4]),
                     sanitizeMol = (\<lambda>mol. Some mol)\<rparr>"

text \<open>Hydrogen chloride with its hydrogen implicit.\<close>

definition exHCl :: "unit Mol" where
  "exHCl = \<lparr>atoms = [(newAtom 17)\<lparr>implicitValence := 1\<rparr>], bonds = [], conformers = []\<rparr>"

text \<open>Hydrogen fluoride with its hydrogen given as an explicit count on the fluorine.\<close>

definition exHF :: "unit Mol" where
  "exHF = \<lparr>atoms = [(newAtom 9)\<lparr>numExplicitHs := 1\<rparr>], bonds = [], conformers = []\<rparr>"

text \<open>
  The shape of a molecule between \<open>addHs\<close> and \<open>removeHs\<close>: the first \<open>n\<close> atoms are
  not hydrogens, every atom from \<open>n\<close> on is a flagged hydrogen without a query, and
  each of these hydrogens is bonded, and bonded only, to atoms among the first \<open>n\<close>
  whose atomic number is at least 1.
\<close>

definition ends :: "'m Mol \<Rightarrow> (nat \<times> nat) list" where
  "ends mol = map (\<lambda>b. (beginAtomIdx b, endAtomIdx b)) (bonds mol)"

definition touches :: "nat \<Rightarrow> nat \<times> nat \<Rightarrow> bool" where
  "touches i p = (fst p = i \<or> snd p = i)"

definition otherEnd :: "nat \<times> nat \<Rightarrow> nat \<Rightarrow> nat" where
  "otherEnd p i = (if fst p = i then snd p else fst p)"

definition flaggedHydrogen :: "'m Atom \<Rightarrow> bool" where
  "flaggedHydrogen a = (atomicNum a = 1 \<and> isImplicit a \<and> query a = None)"

definition hydrogensOnTop :: "nat \<Rightarrow> 'm Mol \<Rightarrow> bool" where
  "hydrogensOnTop n mol =
     (n \<le> length (atoms mol) \<and>
      (\<forall>p \<in> set (ends mol). fst p < length (atoms mol) \<and> snd p < length (atoms mol)) \<and>
      (\<forall>i < n. atomicNum (atoms mol ! i) \<noteq> 1) \<and>
      (\<forall>i. n \<le> i \<and> i < length (atoms mol) \<longrightarrow>
         flaggedHydrogen (atoms mol ! i) \<and>
         (\<exists>p \<in> set (ends mol). touches i p) \<and>
         (\<forall>p \<in> set (ends mol). touches i p \<longrightarrow>
            otherEnd p i < n \<and> \<not> atomicNum (atoms mol ! otherEnd p i) < 1)))"

text \<open>The fields of an atom that decide the round trip.\<close>

definition coreSame :: "'m Atom \<Rightarrow> 'm Atom \<Rightarrow> bool" where
  "coreSame a a' =
     (atomicNum a' = atomicNum a \<and> isImplicit a' = isImplicit a \<and> query a' = query a \<and>
      noImplicit a' = noImplicit a \<and> origNoImplicit a' = origNoImplicit a \<and>
      implicitValence a' = implicitValence a)"

text \<open>
  What the round-trip theorem asks of the valence service: the non-strict update never
  throws, and the cached implicit count of an atom flagged no-implicit is left as it
  is.
\<close>

definition keepsCachedCount :: "'m Chem \<Rightarrow> bool" where
  "keepsCachedCount ch =
     ((\<forall>mol i. calcValences ch False mol i \<noteq> None) \<and>
      (\<forall>strict mol i ev iv.
         noImplicit (atoms mol ! i) \<longrightarrow> calcValences ch strict mol i = Some (ev, iv) \<longrightarrow>
         iv = implicitValence (atoms mol ! i)))"

text \<open>
  The state of the first \<open>n\<close> atoms while \<open>addHs\<close> runs, when atom \<open>k\<close> is the next
  to be processed; \<open>IV\<close> and \<open>NI\<close> are the cached implicit counts and the no-implicit
  flags of the molecule \<open>addHs\<close> started from.
\<close>

definition addedUpTo :: "nat \<Rightarrow> (nat \<Rightarrow> nat) \<Rightarrow> (nat \<Rightarrow> bool) \<Rightarrow> nat \<Rightarrow> 'm Mol \<Rightarrow> bool" where
  "addedUpTo n IV NI k mol =
     (hydrogensOnTop n mol \<and>
      (\<forall>i < n. implicitValence (atoms mol ! i) = IV i \<and>
         (i < k \<longrightarrow> noImplicit (atoms mol ! i) \<and> origNoImplicit (atoms mol ! i) = Some (NI i)) \<and>
         (k \<le> i \<longrightarrow> noImplicit (atoms mol ! i) = NI i \<and> numExplicitHs (atoms mol ! i) = 0 \<and>
            (atomicNum (atoms mol ! i) < 1 \<longrightarrow> getNumImplicitHs (atoms mol ! i) = 0))))"

subsection \<open>Query hydrogens: what the claims speak of\<close>

text \<open>
  The claim's side of \<open>isQueryH\<close>, by recursion on the query tree and independent of
  the loop over \<open>childStack\<close>. The nodes \<open>scanned\<close> from a node are the node itself
  and, unless it is an \<open>AtomOr\<close> or an \<open>AtomAtomicNum\<close> node, the nodes scanned from
  its children. A query contains a hydrogen leaf when a non-negated test for atomic
  number 1 is among the nodes scanned from the children of its root; it contains an OR
  when its root is an \<open>AtomOr\<close> node or such a node is among the nodes scanned from
  the children of the root.
\<close>

fun scanned :: "'m Query \<Rightarrow> 'm Query list" where
  "scanned (Query d n v cs qm) =
     Query d n v cs qm #
       (if d = ''AtomOr'' \<or> d = ''AtomAtomicNum'' then [] else concat (map scanned cs))"

definition isHydrogenLeaf :: "'m Query \<Rightarrow> bool" where
  "isHydrogenLeaf q = (getDescription q = ''AtomAtomicNum'' \<and> getVal q = 1 \<and> \<not> getNegation q)"

definition isOrCombinator :: "'m Query \<Rightarrow> bool" where
  "isOrCombinator q = (getDescription q = ''AtomOr'')"

definition containsHydrogenLeaf :: "'m Query \<Rightarrow> bool" where
  "containsHydrogenLeaf q = list_ex isHydrogenLeaf (concat (map scanned (children q)))"

definition containsOr :: "'m Query \<Rightarrow> bool" where
  "containsOr q =
     (isOrCombinator q \<or> list_ex isOrCombinator (concat (map scanned (children q))))"

text \<open>
  The bound that the specification puts on the input: no hydrogen with several bonds.
  Here: no atom that \<open>isQueryH\<close> takes for a query hydrogen has more than one bond.
\<close>

definition hydrogensSinglyBonded :: "'m Mol \<Rightarrow> bool" where
  "hydrogensSinglyBonded mol =
     list_all (\<lambda>j. hatomsOf mol ! j \<longrightarrow> getDegree mol j \<le> 1) [0..<getNumAtoms mol]"

text \<open>
  A hydrogen on a carbon that is bonded to the degree-1 atom with the query
  "atomic number 1 and (carbon or nitrogen)".
\<close>

definition exOrHydride :: "unit Mol" where
  "exOrHydride = \<lparr>atoms = [newAtom 1, newAtom 6, (newAtom 0)\<lparr>query := Some exOrQuery\<rparr>],
     bonds = [newBond 0 1 SINGLE, newBond 1 2 SINGLE], conformers = []\<rparr>"

text \<open>
  A degree-1 atom whose only atomic-number-1 leaf lies below an OR node.
\<close>

definition exBelowOrQuery :: "unit Query" where
  "exBelowOrQuery =
     Query ''AtomAnd'' False 0
       [Query ''AtomOr'' False 0 [makeAtomNumQuery 1, makeAtomNumQuery 6] None,
        makeAtomHCountQuery 0] None"

definition exBelowOr :: "unit Mol" where
  "exBelowOr = \<lparr>atoms = [newAtom 6, (newAtom 0)\<lparr>query := Some exBelowOrQuery\<rparr>],
     bonds = [newBond 0 1 SINGLE], conformers = []\<rparr>"

section \<open>Properties\<close>

subsection \<open>Auxiliary facts\<close>

lemma upt_3: "[0..<3] = [0, 1, 2]"
  by (simp add: upt_rec)

lemma upt_5: "[0..<5] = [0, 1, 2, 3, 4]"
  by (simp add: upt_rec)

lemma getAtomPos_setAtomPos: "getAtomPos (setAtomPos c i p) i = Some p"
  by (simp add: getAtomPos_def setAtomPos_def)

lemma plength_normalize:
  assumes "lengthSq v \<noteq> 0"
  shows "plength (normalize v) = 1"
proof -
  have nn: "0 \<le> lengthSq v" by (simp add: lengthSq_def)
  then have pos: "0 < lengthSq v" using assms by simp
  have sq: "plength v * plength v = lengthSq v"
    using nn by (simp add: plength_def)
  have "lengthSq (normalize v) = lengthSq v / (plength v * plength v)"
    by (simp add: normalize_def lengthSq_def P3_def add_divide_distrib)
  also have "\<dots> = 1" using sq pos by simp
  finally show ?thesis by (simp add: plength_def)
qed

subsection \<open>Placement\<close>

text \<open>
  C7, as the code has it. In the 2-D path of the degree-3 placement (two existing
  neighbours, neither on top of the heavy atom) the hydrogen's offset from the heavy
  atom is the normalized sum of the two unit vectors pointing away from the neighbours:
  \<open>dirVect.normalize()\<close> runs before the code branches on \<open>is3D\<close>, and the 2-D branch
  only leaves out the scaling. So whenever the two unit vectors do not cancel, the
  offset has length one.
\<close>

theorem degree3_flat_offset_is_normalized:
  assumes "\<not> is3D c"
    and "getAtomPos c heavyIdx = Some heavyPos"
    and "getAtomPos c nbr1 = Some nbr1Pos"
    and "getAtomPos c nbr2 = Some nbr2Pos"
    and "\<not> degenerate (psub heavyPos nbr1Pos)"
    and "\<not> degenerate (psub heavyPos nbr2Pos)"
    and "lengthSq (padd (normalize (psub heavyPos nbr1Pos))
                        (normalize (psub heavyPos nbr2Pos))) \<noteq> 0"
  shows "\<exists>offset. degree3Body sv mol bondLength hydIdx heavyIdx nbr1 nbr2 vars c =
            Some ((offset, snd vars), setAtomPos c hydIdx (padd heavyPos offset)) \<and>
          offset = normalize (padd (normalize (psub heavyPos nbr1Pos))
                                   (normalize (psub heavyPos nbr2Pos))) \<and>
          plength offset = 1"
  using assms by (simp add: degree3Body_def Let_def plength_normalize)

theorem degree3_flat_offset_is_normalized_witness:
  "\<exists>offset. degree3Body exServices exPlanar (11 / 10) 3 0 1 2 (P3 0 0 0, P3 0 0 0) exPlanarConf =
            Some ((offset, P3 0 0 0), setAtomPos exPlanarConf 3 (padd (P3 0 0 0) offset)) \<and>
          offset = normalize (padd (normalize (psub (P3 0 0 0) (P3 (- 1) 0 0)))
                                   (normalize (psub (P3 0 0 0) (P3 0 (- 1) 0)))) \<and>
          plength offset = 1"
proof -
  have a: "\<not> is3D exPlanarConf" by (simp add: exPlanarConf_def)
  have b: "getAtomPos exPlanarConf 0 = Some (P3 0 0 0)"
    by (simp add: exPlanarConf_def getAtomPos_def)
  have c: "getAtomPos exPlanarConf 1 = Some (P3 (- 1) 0 0)"
    by (simp add: exPlanarConf_def getAtomPos_def)
  have d: "getAtomPos exPlanarConf 2 = Some (P3 0 (- 1) 0)"
    by (simp add: exPlanarConf_def getAtomPos_def)
  have e: "\<not> degenerate (psub (P3 0 0 0) (P3 (- 1) 0 0))"
    by (simp add: degenerate_def lengthSq_def psub_def P3_def)
  have f: "\<not> degenerate (psub (P3 0 0 0) (P3 0 (- 1) 0))"
    by (simp add: degenerate_def lengthSq_def psub_def P3_def)
  have g: "lengthSq (padd (normalize (psub (P3 0 0 0) (P3 (- 1) 0 0)))
                          (normalize (psub (P3 0 0 0) (P3 0 (- 1) 0)))) \<noteq> 0"
    by (simp add: lengthSq_def plength_def normalize_def padd_def psub_def P3_def)
  show ?thesis
    using degree3_flat_offset_is_normalized [OF a b c d e f g, of exServices exPlanar "11 / 10" 3
        "(P3 0 0 0, P3 0 0 0)"]
    by simp
qed

text \<open>
  C7, as the claim states it, fails: with the neighbours at \<open>(-1, 0, 0)\<close> and
  \<open>(0, -1, 0)\<close> of a heavy atom at the origin, the un-normalized sum of the two unit
  vectors is \<open>(1, 1, 0)\<close>, and the hydrogen is put at \<open>(1/\<surd>2, 1/\<surd>2, 0)\<close>.
\<close>

theorem degree3_flat_offset_counterexample:
  "setHydrogenCoords exServices exPlanar 3 0 =
     Some (exPlanar\<lparr>conformers :=
       [\<lparr>is3D = False,
         positions = [P3 0 0 0, P3 (- 1) 0 0, P3 0 (- 1) 0, P3 (1 / sqrt 2) (1 / sqrt 2) 0]\<rparr>]\<rparr>) \<and>
   P3 (1 / sqrt 2) (1 / sqrt 2) 0 \<noteq>
     padd (P3 0 0 0) (padd (normalize (psub (P3 0 0 0) (P3 (- 1) 0 0)))
                           (normalize (psub (P3 0 0 0) (P3 0 (- 1) 0))))"
  by (simp add: setHydrogenCoords_def exPlanar_def exPlanarConf_def exServices_def
     getNumAtoms_def getDegree_def
     getAtomBonds_def incident_def newBond_def newAtom_def getBondBetweenAtoms_def
     getOtherAtomIdx_def degree3Body_def getAtomPos_def setAtomPos_def scaleOf_def
     otherNbrs_def getAtomNeighbors_def degenerate_def lengthSq_def plength_def normalize_def
     padd_def psub_def pscale_def P3_def Let_def upt_3)

text \<open>
  C8 at a molecule with a 3-D conformer followed by a 2-D one: \<open>dirVect\<close> keeps the
  \<open>z = 1\<close> of the first conformer, so in the 2-D conformer the hydrogen of the isolated
  carbon is put at \<open>(1, 0, 1)\<close>, off the plane and not at unit distance.
\<close>

theorem degree1_mixed_conformers:
  "setHydrogenCoords exServices exMixed 1 0 =
     Some (exMixed\<lparr>conformers :=
       [\<lparr>is3D = True, positions = [P3 0 0 0, P3 0 0 (11 / 10)]\<rparr>,
        \<lparr>is3D = False, positions = [P3 0 0 0, P3 1 0 1]\<rparr>]\<rparr>)"
  by (simp add: setHydrogenCoords_def exMixed_def exServices_def getNumAtoms_def getDegree_def
     getAtomBonds_def incident_def newBond_def newAtom_def getBondBetweenAtoms_def
     getOtherAtomIdx_def degree1Body_def getAtomPos_def setAtomPos_def scaleOf_def
     padd_def pscale_def P3_def Let_def)

theorem degree1_mixed_conformers_witness:
  "\<exists>mol'. setHydrogenCoords exServices exMixed 1 0 = Some mol' \<and>
      map (\<lambda>c. getAtomPos c 1) (conformers mol') = [Some (P3 0 0 (11 / 10)), Some (P3 1 0 1)]"
  using degree1_mixed_conformers by (simp add: getAtomPos_def)

text \<open>
  C10. When the heavy atom has degree 5 or more after the hydrogen is attached (and the
  preconditions of the function hold), the call succeeds and writes the origin as the
  hydrogen's position into every conformer, whatever the coordinates of the heavy atom
  are: the position is computed once, before the loop, from the default-initialized
  \<open>heavyPos\<close> and the zero \<open>dirVect\<close>.
\<close>

theorem setHydrogenCoords_high_degree:
  assumes "heavyIdx \<noteq> hydIdx" "hydIdx < getNumAtoms mol" "heavyIdx < getNumAtoms mol"
    "getDegree mol hydIdx = 1" "getBondBetweenAtoms mol heavyIdx hydIdx \<noteq> None"
    "5 \<le> getDegree mol heavyIdx"
  shows "setHydrogenCoords sv mol hydIdx heavyIdx =
           Some (mol\<lparr>conformers := map (\<lambda>c. setAtomPos c hydIdx (P3 0 0 0)) (conformers mol)\<rparr>) \<and>
         (\<forall>c \<in> set (map (\<lambda>c. setAtomPos c hydIdx (P3 0 0 0)) (conformers mol)).
            getAtomPos c hydIdx = Some (P3 0 0 0))"
  using assms
  by (simp add: setHydrogenCoords_def Let_def padd_def pscale_def P3_def getAtomPos_setAtomPos)

theorem setHydrogenCoords_high_degree_witness:
  "setHydrogenCoords exServices exCrowded 5 0 =
     Some (exCrowded\<lparr>conformers := [\<lparr>is3D = True,
        positions = [P3 1 2 3, P3 2 2 3, P3 0 2 3, P3 1 3 3, P3 1 1 3, P3 0 0 0]\<rparr>]\<rparr>)"
proof -
  have bs: "getAtomBonds exCrowded 0 = [0, 1, 2, 3, 4]" "getAtomBonds exCrowded 5 = [4]"
    by (simp_all add: getAtomBonds_def exCrowded_def incident_def newBond_def upt_5)
  have a: "(0::nat) \<noteq> 5" by simp
  have b: "5 < getNumAtoms exCrowded" "0 < getNumAtoms exCrowded"
    by (simp_all add: getNumAtoms_def exCrowded_def)
  have c: "getDegree exCrowded 5 = 1" "5 \<le> getDegree exCrowded 0"
    by (simp_all add: getDegree_def bs)
  have d: "getBondBetweenAtoms exCrowded 0 5 \<noteq> None"
    unfolding getBondBetweenAtoms_def bs
    by (simp add: getOtherAtomIdx_def exCrowded_def newBond_def)
  show ?thesis
    using setHydrogenCoords_high_degree [OF a b(1) b(2) c(1) d c(2), of exServices]
    by (simp add: exCrowded_def setAtomPos_def)
qed

subsection \<open>Query hydrogens\<close>

lemma mergeAtom_marked:
  assumes "mergeAtom rec hatoms f i (mol, rm) = Some (mol', rm')"
    and "\<forall>n \<in> set rm. hatoms ! n"
  shows "\<forall>n \<in> set rm'. hatoms ! n"
  using assms
  by (auto simp: mergeAtom_def eligibleHs_def Let_def split: if_splits option.splits)

lemma mergeLoop_marked:
  assumes "mergeLoop rec hatoms f is st = Some st'"
    and "\<forall>n \<in> set (snd st). hatoms ! n"
  shows "\<forall>n \<in> set (snd st'). hatoms ! n"
  using assms
proof (induction "is" arbitrary: st)
  case Nil
  then show ?case by simp
next
  case (Cons i rest)
  from Cons.prems(1) obtain st1 where s1: "mergeAtom rec hatoms f i st = Some st1"
    and s2: "mergeLoop rec hatoms f rest st1 = Some st'"
    by (auto split: option.splits)
  have "\<forall>n \<in> set (snd st1). hatoms ! n"
    using mergeAtom_marked [of rec hatoms f i "fst st" "snd st" "fst st1" "snd st1"] s1 Cons.prems(2)
    by simp
  then show ?case using Cons.IH [OF s2] by simp
qed

lemma hatomsOf_nth: "idx < getNumAtoms mol \<Longrightarrow> hatomsOf mol ! idx = fst (isQueryH mol idx)"
  by (simp add: hatomsOf_def)

lemma mergeWarnings_mem:
  "idx < getNumAtoms mol \<Longrightarrow> w \<in> set (snd (isQueryH mol idx)) \<Longrightarrow> w \<in> set (mergeWarnings mol)"
  by (auto simp: mergeWarnings_def)

lemma scanned_stop:
  "getDescription q = ''AtomOr'' \<or> getDescription q = ''AtomAtomicNum'' \<Longrightarrow> scanned q = [q]"
  by (cases q) auto

lemma scanned_descend:
  "getDescription q \<noteq> ''AtomOr'' \<Longrightarrow> getDescription q \<noteq> ''AtomAtomicNum'' \<Longrightarrow>
   scanned q = q # concat (map scanned (children q))"
  by (cases q) auto

lemma scanChildren_scanned:
  "scanChildren hasHQuery hasOr childStack =
     (hasHQuery \<or> list_ex isHydrogenLeaf (concat (map scanned childStack)),
      hasOr \<or> list_ex isOrCombinator (concat (map scanned childStack)))"
proof (induction hasHQuery hasOr childStack rule: scanChildren.induct)
  case (1 hasHQuery hasOr)
  show ?case by simp
next
  case (2 hasHQuery hasOr q childStack)
  show ?case
  proof (cases "hasHQuery \<and> hasOr")
    case True
    then show ?thesis by simp
  next
    case nb: False
    show ?thesis
    proof (cases "getDescription q = ''AtomOr''")
      case True
      then show ?thesis
        using nb 2(1) by (auto simp: scanned_stop isHydrogenLeaf_def isOrCombinator_def)
    next
      case no: False
      show ?thesis
      proof (cases "getDescription q = ''AtomAtomicNum''")
        case True
        then show ?thesis
          using nb no 2(2) by (auto simp: scanned_stop isHydrogenLeaf_def isOrCombinator_def)
      next
        case False
        then show ?thesis
          using nb no 2(3)
          by (auto simp: scanned_descend isHydrogenLeaf_def isOrCombinator_def)
      qed
    qed
  qed
qed

lemma isQueryH_scanned:
  assumes "getDegree mol idx = 1"
    and "query (atoms mol ! idx) = Some q"
    and "\<not> getNegation q"
    and "atomicNum (atoms mol ! idx) \<noteq> 1 \<or> getDescription q \<noteq> ''AtomAtomicNum''"
  shows "isQueryH mol idx =
           (if containsHydrogenLeaf q \<and> containsOr q then (False, [orWarning])
            else (containsHydrogenLeaf q, []))"
  using assms
  by (auto simp: isQueryH_def Let_def scanChildren_scanned containsHydrogenLeaf_def
      containsOr_def isOrCombinator_def)

subsection \<open>Merging query hydrogens\<close>

lemma dropAt_Nil: "dropAt i [] = []" by (simp add: dropAt_def)
lemma dropAt_0: "dropAt 0 (x # xs) = xs" by (simp add: dropAt_def)
lemma dropAt_Suc: "dropAt (Suc i) (x # xs) = x # dropAt i xs" by (simp add: dropAt_def)

lemma length_dropAt: "i < length xs \<Longrightarrow> length (dropAt i xs) = length xs - 1"
  by (simp add: dropAt_def)

lemma nths_dropAt:
  assumes "i < length xs" and "\<forall>r \<in> R. r < i"
  shows "nths (dropAt i xs) (- R) = nths xs (- insert i R)"
  using assms
proof (induction xs arbitrary: i R)
  case Nil
  then show ?case by simp
next
  case (Cons x xs)
  show ?case
  proof (cases i)
    case 0
    with Cons.prems have "R = {}" by auto
    with 0 show ?thesis by (simp add: dropAt_0 nths_Cons)
  next
    case (Suc k)
    let ?R' = "{j. Suc j \<in> R}"
    have k: "k < length xs" using Cons.prems Suc by simp
    have r: "\<forall>r \<in> ?R'. r < k" using Cons.prems Suc by auto
    have e1: "{j. Suc j \<notin> R} = - ?R'" by auto
    have e2: "{j. j \<noteq> k \<and> Suc j \<notin> R} = - insert k ?R'" by auto
    show ?thesis
      using Cons.IH [OF k r] Suc by (simp add: dropAt_Suc nths_Cons) (simp add: e1 e2)
  qed
qed

lemma nths_all: "nths xs UNIV = xs"
  by (induction xs) (simp_all add: nths_Cons)

lemma removeAtoms_descending:
  assumes "sorted_wrt (>) ds" and "\<forall>d \<in> set ds. d < getNumAtoms mol"
  shows "\<exists>mol'. removeAtoms mol ds = Some mol' \<and> atoms mol' = nths (atoms mol) (- set ds)"
  using assms
proof (induction ds arbitrary: mol)
  case Nil
  then show ?case by (simp add: nths_all)
next
  case (Cons d ds)
  have d: "d < length (atoms mol)" using Cons.prems by (simp add: getNumAtoms_def)
  have lt: "\<forall>r \<in> set ds. r < d" using Cons.prems by auto
  have n': "\<forall>r \<in> set ds. r < getNumAtoms (removeAtom mol d)"
    using lt d by (auto simp: getNumAtoms_def removeAtom_def length_dropAt)
  have s: "sorted_wrt (>) ds" using Cons.prems by simp
  from Cons.IH [OF s n'] obtain mol' where
    m: "removeAtoms (removeAtom mol d) ds = Some mol'"
       "atoms mol' = nths (atoms (removeAtom mol d)) (- set ds)" by blast
  have "atoms mol' = nths (atoms mol) (- insert d (set ds))"
    using m(2) nths_dropAt [OF d lt] by (simp add: removeAtom_def)
  then show ?case using m(1) d by (simp add: getNumAtoms_def)
qed

lemma rev_sort_descending: "distinct xs \<Longrightarrow> sorted_wrt (>) (rev (sort xs))"
  by (simp add: sorted_wrt_rev strict_sorted_iff)

lemma withHCountQueries_mapnum:
  "molAtomMapNumber (withHCountQueries a k) = molAtomMapNumber a"
  by (simp add: withHCountQueries_def queryAtomFor_def split: option.splits)

lemma mergedAtom_mapnum:
  "mergedAtom rec hatoms f mol i = Some a \<Longrightarrow>
   molAtomMapNumber a = molAtomMapNumber (atoms mol ! i)"
  by (auto simp: mergedAtom_def Let_def withHCountQueries_mapnum split: if_splits option.splits)

lemma mergeAtom_eq:
  "mergeAtom rec hatoms f i (mol, rm) =
     (case mergedAtom rec hatoms f mol i of
        None \<Rightarrow> None
      | Some a \<Rightarrow> Some (mol\<lparr>atoms := (atoms mol)[i := a]\<rparr>, rm @ markedBy hatoms f mol i))"
  by (auto simp: mergeAtom_def mergedAtom_def markedBy_def Let_def split: option.splits)

lemma neighbors_in_range:
  assumes "wellFormed mol" and "n \<in> set (getAtomNeighbors mol i)"
  shows "n < getNumAtoms mol"
proof -
  from assms(2) obtain k where k: "k < length (bonds mol)" and
    n: "n = getOtherAtomIdx (bonds mol ! k) i"
    by (auto simp: getAtomNeighbors_def getAtomBonds_def)
  have "beginAtomIdx (bonds mol ! k) < getNumAtoms mol \<and> endAtomIdx (bonds mol ! k) < getNumAtoms mol"
    using assms(1) k by (simp add: wellFormed_def list_all_length)
  then show ?thesis using n by (simp add: getOtherAtomIdx_def)
qed

lemma eligibleHs_frame:
  assumes "wellFormed mol" and "bonds mol' = bonds mol"
    and "length (atoms mol') = length (atoms mol)"
    and "\<forall>j < length (atoms mol). molAtomMapNumber (atoms mol' ! j) = molAtomMapNumber (atoms mol ! j)"
  shows "eligibleHs mol' hatoms f i = eligibleHs mol hatoms f i"
proof -
  have nb: "getAtomNeighbors mol' i = getAtomNeighbors mol i"
    using assms(2) by (simp add: getAtomNeighbors_def getAtomBonds_def)
  have "\<forall>n \<in> set (getAtomNeighbors mol i). n < length (atoms mol)"
    using neighbors_in_range [OF assms(1)] by (simp add: getNumAtoms_def)
  then show ?thesis
    unfolding eligibleHs_def nb using assms(4) by (intro filter_cong) auto
qed

lemma mergeLoop_result:
  assumes "wellFormed mol0"
    and "bonds mol = bonds mol0" and "conformers mol = conformers mol0"
    and "length (atoms mol) = length (atoms mol0)"
    and "\<forall>j < length (atoms mol0). molAtomMapNumber (atoms mol ! j) = molAtomMapNumber (atoms mol0 ! j)"
    and "distinct is" and "\<forall>i \<in> set is. i < length (atoms mol0)"
    and "\<forall>i \<in> set is. atoms mol ! i = atoms mol0 ! i"
    and "\<forall>i \<in> set is. mergedAtom rec hatoms f mol0 i \<noteq> None"
  shows "\<exists>mol'. mergeLoop rec hatoms f is (mol, rm) =
            Some (mol', rm @ concat (map (markedBy hatoms f mol0) is)) \<and>
          bonds mol' = bonds mol0 \<and> conformers mol' = conformers mol0 \<and>
          length (atoms mol') = length (atoms mol0) \<and>
          (\<forall>j < length (atoms mol0).
             if j \<in> set is then mergedAtom rec hatoms f mol0 j = Some (atoms mol' ! j)
             else atoms mol' ! j = atoms mol ! j)"
  using assms(2-)
proof (induction "is" arbitrary: mol rm)
  case Nil
  then show ?case by simp
next
  case (Cons i rest)
  have el: "eligibleHs mol hatoms f i = eligibleHs mol0 hatoms f i"
    using eligibleHs_frame [OF assms(1), of mol hatoms f i] Cons.prems by simp
  have ai: "atoms mol ! i = atoms mol0 ! i" using Cons.prems by simp
  have me: "mergedAtom rec hatoms f mol i = mergedAtom rec hatoms f mol0 i"
    by (simp add: mergedAtom_def el ai)
  have mk: "markedBy hatoms f mol i = markedBy hatoms f mol0 i"
    by (simp add: markedBy_def el)
  from Cons.prems obtain a where a: "mergedAtom rec hatoms f mol0 i = Some a" by auto
  let ?mol1 = "mol\<lparr>atoms := (atoms mol)[i := a]\<rparr>"
  have step: "mergeAtom rec hatoms f i (mol, rm) = Some (?mol1, rm @ markedBy hatoms f mol0 i)"
    by (simp add: mergeAtom_eq me a mk)
  have il: "i < length (atoms mol0)" using Cons.prems by simp
  have mn: "molAtomMapNumber a = molAtomMapNumber (atoms mol0 ! i)"
    using mergedAtom_mapnum [OF a] .
  have p1: "bonds ?mol1 = bonds mol0" "conformers ?mol1 = conformers mol0"
    "length (atoms ?mol1) = length (atoms mol0)"
    using Cons.prems by simp_all
  have p2: "\<forall>j < length (atoms mol0).
      molAtomMapNumber (atoms ?mol1 ! j) = molAtomMapNumber (atoms mol0 ! j)"
    using Cons.prems(4) Cons.prems(3) mn il by (auto simp: nth_list_update)
  have p3: "distinct rest" "\<forall>i \<in> set rest. i < length (atoms mol0)"
    "\<forall>k \<in> set rest. atoms ?mol1 ! k = atoms mol0 ! k"
    "\<forall>i \<in> set rest. mergedAtom rec hatoms f mol0 i \<noteq> None"
    using Cons.prems il by (auto simp: nth_list_update)
  from Cons.IH [OF p1 p2 p3, of "rm @ markedBy hatoms f mol0 i"] obtain mol' where
    r: "mergeLoop rec hatoms f rest (?mol1, rm @ markedBy hatoms f mol0 i) =
          Some (mol', (rm @ markedBy hatoms f mol0 i) @ concat (map (markedBy hatoms f mol0) rest))"
      "bonds mol' = bonds mol0" "conformers mol' = conformers mol0"
      "length (atoms mol') = length (atoms mol0)"
      "\<forall>j < length (atoms mol0).
         if j \<in> set rest then mergedAtom rec hatoms f mol0 j = Some (atoms mol' ! j)
         else atoms mol' ! j = atoms ?mol1 ! j"
    by blast
  have q: "\<forall>j < length (atoms mol0).
             if j \<in> set (i # rest) then mergedAtom rec hatoms f mol0 j = Some (atoms mol' ! j)
             else atoms mol' ! j = atoms mol ! j"
  proof (intro allI impI)
    fix j assume j: "j < length (atoms mol0)"
    show "if j \<in> set (i # rest) then mergedAtom rec hatoms f mol0 j = Some (atoms mol' ! j)
             else atoms mol' ! j = atoms mol ! j"
    proof (cases "j \<in> set rest")
      case True
      then show ?thesis using r(5) j by simp
    next
      case False
      then have e: "atoms mol' ! j = atoms ?mol1 ! j" using r(5) j by simp
      show ?thesis
      proof (cases "j = i")
        case True
        then show ?thesis using e a il Cons.prems(3) by simp
      next
        case ne: False
        then show ?thesis using e False by simp
      qed
    qed
  qed
  show ?case using step r(1-4) q by simp
qed

lemma upt_4: "[0..<4] = [0, 1, 2, 3]" by (simp add: upt_rec)

lemma addHCountQueries_Suc:
  "addHCountQueries q (Suc k) =
     expandQuery (addHCountQueries q k) (setNegation True (makeAtomHCountQuery k))"
  by (simp add: addHCountQueries_def)

lemma mergedAtom_query:
  assumes "mergedAtom rec hatoms f mol i = Some a" and "\<not> hatoms ! i"
    and "eligibleHs mol hatoms f i \<noteq> []"
  shows "\<exists>q'. query a = Some q' \<and>
           mergeInQuery rec
             (addHCountQueries
                (case query (atoms mol ! i) of
                   None \<Rightarrow> makeAtomNumQuery (atomicNum (atoms mol ! i)) | Some q \<Rightarrow> q)
                (length (eligibleHs mol hatoms f i))) = Some q'"
  using assms
  by (auto simp: mergedAtom_def Let_def withHCountQueries_def split: option.splits if_splits)

lemma distinct_concat_upt:
  assumes "\<And>i. i < n \<Longrightarrow> distinct (g i)"
    and "\<And>i j. i < j \<Longrightarrow> j < n \<Longrightarrow> set (g i) \<inter> set (g j) = {}"
  shows "distinct (concat (map g [0..<n]))"
  using assms
proof (induction n)
  case 0
  show ?case by simp
next
  case (Suc n)
  have "distinct (concat (map g [0..<n]))"
    using Suc.IH Suc.prems by simp
  moreover have "distinct (g n)" using Suc.prems(1) by simp
  moreover have "set (concat (map g [0..<n])) \<inter> set (g n) = {}"
    using Suc.prems(2) [of _ n] by fastforce
  ultimately show ?case by simp
qed

lemma bond_of_degree_one:
  assumes "getDegree mol h \<le> 1"
    and "k1 < length (bonds mol)" and "incident h (bonds mol ! k1)"
    and "k2 < length (bonds mol)" and "incident h (bonds mol ! k2)"
  shows "k1 = k2"
proof (rule ccontr)
  assume ne: "k1 \<noteq> k2"
  have d: "distinct (getAtomBonds mol h)" by (simp add: getAtomBonds_def)
  have s: "{k1, k2} \<subseteq> set (getAtomBonds mol h)"
    using assms(2-5) by (simp add: getAtomBonds_def)
  have "card {k1, k2} \<le> card (set (getAtomBonds mol h))"
    by (rule card_mono) (use s in simp_all)
  then have "2 \<le> length (getAtomBonds mol h)"
    using ne distinct_card [OF d] by simp
  then show False using assms(1) by (simp add: getDegree_def)
qed

lemma other_incident:
  "incident i b \<Longrightarrow> incident (getOtherAtomIdx b i) b"
  by (auto simp: incident_def getOtherAtomIdx_def)

lemma markedBy_bond:
  assumes "h \<in> set (markedBy hatoms f mol i)"
  shows "\<not> hatoms ! i \<and> hatoms ! h \<and>
         (\<exists>k < length (bonds mol). incident i (bonds mol ! k) \<and>
              getOtherAtomIdx (bonds mol ! k) i = h)"
  using assms
  by (auto simp: markedBy_def eligibleHs_def getAtomNeighbors_def getAtomBonds_def
      split: if_splits)

lemma markedBy_distinct:
  assumes wf: "wellFormed mol" and sb: "hydrogensSinglyBonded mol"
  shows "distinct (markedBy (hatomsOf mol) f mol i)"
proof (cases "hatomsOf mol ! i")
  case True
  then show ?thesis by (simp add: markedBy_def)
next
  case False
  let ?h = "hatomsOf mol"
  let ?o = "\<lambda>k. getOtherAtomIdx (bonds mol ! k) i"
  let ?P = "\<lambda>n. ?h ! n \<and> (\<not> f \<or> molAtomMapNumber (atoms mol ! n) = None)"
  have e: "markedBy ?h f mol i = map ?o (filter (?P \<circ> ?o) (getAtomBonds mol i))"
    using False by (simp add: markedBy_def eligibleHs_def getAtomNeighbors_def filter_map)
  have inj: "inj_on ?o (set (filter (?P \<circ> ?o) (getAtomBonds mol i)))"
  proof (rule inj_onI)
    fix k1 k2
    assume a1: "k1 \<in> set (filter (?P \<circ> ?o) (getAtomBonds mol i))"
      and a2: "k2 \<in> set (filter (?P \<circ> ?o) (getAtomBonds mol i))"
      and eq: "?o k1 = ?o k2"
    have k1: "k1 < length (bonds mol)" "incident i (bonds mol ! k1)" "?h ! ?o k1"
      using a1 by (auto simp: getAtomBonds_def)
    have k2: "k2 < length (bonds mol)" "incident i (bonds mol ! k2)"
      using a2 by (auto simp: getAtomBonds_def)
    have "?o k1 \<in> set (getAtomNeighbors mol i)"
      using k1 by (auto simp: getAtomNeighbors_def getAtomBonds_def)
    from neighbors_in_range [OF wf this] have r: "?o k1 < getNumAtoms mol" .
    have dg: "getDegree mol (?o k1) \<le> 1"
      using sb r k1(3) by (simp add: hydrogensSinglyBonded_def list_all_iff)
    show "k1 = k2"
      using bond_of_degree_one [OF dg k1(1) other_incident [OF k1(2)] k2(1)]
        other_incident [OF k2(2)] eq by simp
  qed
  have "distinct (filter (?P \<circ> ?o) (getAtomBonds mol i))"
    by (simp add: getAtomBonds_def)
  then show ?thesis unfolding e distinct_map using inj by blast
qed

lemma markedBy_disjoint:
  assumes wf: "wellFormed mol" and sb: "hydrogensSinglyBonded mol" and ne: "i \<noteq> j"
  shows "set (markedBy (hatomsOf mol) f mol i) \<inter> set (markedBy (hatomsOf mol) f mol j) = {}"
proof (rule ccontr)
  let ?h = "hatomsOf mol"
  assume "\<not> ?thesis"
  then obtain h where hi: "h \<in> set (markedBy ?h f mol i)" and hj: "h \<in> set (markedBy ?h f mol j)"
    by auto
  from markedBy_bond [OF hi] obtain k1 where
    i: "\<not> ?h ! i" "?h ! h" "k1 < length (bonds mol)" "incident i (bonds mol ! k1)"
       "getOtherAtomIdx (bonds mol ! k1) i = h" by blast
  from markedBy_bond [OF hj] obtain k2 where
    j: "\<not> ?h ! j" "k2 < length (bonds mol)" "incident j (bonds mol ! k2)"
       "getOtherAtomIdx (bonds mol ! k2) j = h" by blast
  have "h \<in> set (getAtomNeighbors mol i)"
    using i by (auto simp: getAtomNeighbors_def getAtomBonds_def)
  from neighbors_in_range [OF wf this] have r: "h < getNumAtoms mol" .
  have dg: "getDegree mol h \<le> 1"
    using sb r i(2) by (simp add: hydrogensSinglyBonded_def list_all_iff)
  have i1: "incident h (bonds mol ! k1)" using other_incident [OF i(4)] i(5) by simp
  have j1: "incident h (bonds mol ! k2)" using other_incident [OF j(3)] j(4) by simp
  have k: "k1 = k2" using bond_of_degree_one [OF dg i(3) i1 j(2) j1] .
  have hi': "h \<noteq> i" "h \<noteq> j" using i(1,2) j(1) by auto
  show False
    using i(4,5) j(3,4) k ne hi' by (auto simp: incident_def getOtherAtomIdx_def split: if_splits)
qed

lemma marked_distinct:
  assumes "wellFormed mol" and "hydrogensSinglyBonded mol"
  shows "distinct (concat (map (markedBy (hatomsOf mol) f mol) [0..<getNumAtoms mol]))"
proof (rule distinct_concat_upt)
  fix i
  show "distinct (markedBy (hatomsOf mol) f mol i)"
    using markedBy_distinct [OF assms] .
next
  fix i j :: nat
  assume "i < j"
  then have "i \<noteq> j" by simp
  from markedBy_disjoint [OF assms this]
  show "set (markedBy (hatomsOf mol) f mol i) \<inter> set (markedBy (hatomsOf mol) f mol j) = {}" .
qed

lemma nths_nth_kept:
  assumes "i < length xs" and "i \<in> I"
  shows "nths xs I ! length (filter (\<lambda>j. j \<in> I) [0..<i]) = xs ! i"
proof -
  have xs: "xs = take i xs @ xs ! i # drop (Suc i) xs"
    using assms(1) by (simp add: Cons_nth_drop_Suc)
  have l: "length (take i xs) = i" using assms(1) by simp
  have "nths xs I = nths (take i xs @ xs ! i # drop (Suc i) xs) I"
    using xs by simp
  also have "\<dots> = nths (take i xs) I @ xs ! i # nths (drop (Suc i) xs) {j. Suc j + i \<in> I}"
    using assms by (simp add: nths_append nths_Cons min_absorb2)
  finally have e: "nths xs I = nths (take i xs) I @ xs ! i # nths (drop (Suc i) xs) {j. Suc j + i \<in> I}" .
  have "length (nths (take i xs) I) = card {k. k < i \<and> k \<in> I}"
    using l by (simp add: length_nths)
  also have "\<dots> = card (set (filter (\<lambda>j. j \<in> I) [0..<i]))"
    by (rule arg_cong [where f = card]) auto
  also have "\<dots> = length (filter (\<lambda>j. j \<in> I) [0..<i])"
    by (rule distinct_card) simp
  finally have "length (filter (\<lambda>j. j \<in> I) [0..<i]) = length (nths (take i xs) I)" by simp
  then show ?thesis by (subst e) (simp add: nth_append)
qed

lemma mergeMarked_result:
  assumes "wellFormed mol"
    and "\<forall>i < getNumAtoms mol. mergedAtom rec (hatomsOf mol) f mol i \<noteq> None"
  shows "\<exists>mol1. mergeMarked rec mol f =
            Some (mol1, concat (map (markedBy (hatomsOf mol) f mol) [0..<getNumAtoms mol])) \<and>
          length (atoms mol1) = length (atoms mol) \<and>
          (\<forall>i < getNumAtoms mol. mergedAtom rec (hatomsOf mol) f mol i = Some (atoms mol1 ! i))"
proof -
  let ?n = "getNumAtoms mol"
  let ?h = "hatomsOf mol"
  let ?rm = "concat (map (markedBy ?h f mol) [0..<?n])"
  have pre: "\<forall>i \<in> set [0..<?n]. i < length (atoms mol)"
       "\<forall>i \<in> set [0..<?n]. mergedAtom rec ?h f mol i \<noteq> None"
    using assms(2) by (simp_all add: getNumAtoms_def)
  from mergeLoop_result [OF assms(1) refl refl refl _ distinct_upt pre(1) _ pre(2), of "[]"]
  obtain mol1 where
    l: "mergeLoop rec ?h f [0..<?n] (mol, []) = Some (mol1, ?rm)"
       "length (atoms mol1) = length (atoms mol)"
       "\<forall>j < length (atoms mol).
          if j \<in> set [0..<?n] then mergedAtom rec ?h f mol j = Some (atoms mol1 ! j)
          else atoms mol1 ! j = atoms mol ! j"
    by auto
  have "mergeMarked rec mol f = Some (mol1, ?rm)"
    using l(1) by (simp add: mergeMarked_def)
  moreover have "\<forall>i < ?n. mergedAtom rec ?h f mol i = Some (atoms mol1 ! i)"
    using l(3) by (simp add: getNumAtoms_def)
  ultimately show ?thesis using l(2) by blast
qed

lemma removal_of_marked:
  assumes "wellFormed mol" and "hydrogensSinglyBonded mol"
    and "length (atoms mol1) = length (atoms mol)"
    and "atomsToRemove = concat (map (markedBy (hatomsOf mol) f mol) [0..<getNumAtoms mol])"
  shows "\<exists>mol2. removeAtoms mol1 (rev (sort atomsToRemove)) = Some mol2 \<and>
           sorted_wrt (>) (rev (sort atomsToRemove)) \<and>
           atoms mol2 = nths (atoms mol1) (- set atomsToRemove)"
proof -
  let ?n = "getNumAtoms mol"
  let ?h = "hatomsOf mol"
  have d: "distinct atomsToRemove"
    unfolding assms(4) using marked_distinct [OF assms(1,2)] .
  have desc: "sorted_wrt (>) (rev (sort atomsToRemove))"
    using rev_sort_descending [OF d] .
  have rng: "\<forall>d \<in> set (rev (sort atomsToRemove)). d < getNumAtoms mol1"
  proof
    fix d assume "d \<in> set (rev (sort atomsToRemove))"
    then obtain i where "i < ?n" "d \<in> set (markedBy ?h f mol i)"
      unfolding assms(4) by auto
    then have "d \<in> set (getAtomNeighbors mol i)"
      by (auto simp: markedBy_def eligibleHs_def split: if_splits)
    from neighbors_in_range [OF assms(1) this] show "d < getNumAtoms mol1"
      using assms(3) by (simp add: getNumAtoms_def)
  qed
  from removeAtoms_descending [OF desc rng] obtain mol2 where
    r: "removeAtoms mol1 (rev (sort atomsToRemove)) = Some mol2"
       "atoms mol2 = nths (atoms mol1) (- set (rev (sort atomsToRemove)))" by blast
  then show ?thesis using desc by simp
qed

lemma not_marked:
  assumes "\<not> hatoms ! idx"
  shows "idx \<notin> set (eligibleHs mol hatoms f i)"
    and "idx \<notin> set (concat (map (markedBy hatoms f mol) is))"
  using assms by (auto simp: eligibleHs_def markedBy_def)

text \<open>
  C5. Let the molecule be well formed and let every recursive call on a nested query
  molecule return. Then the main loop succeeds; the list of atoms to remove is, atom
  by atom, the eligible query-hydrogen neighbours of the atoms that are not query
  hydrogens; every such atom with \<open>n > 0\<close> eligible neighbours carries a query
  afterwards, namely its old query (or the atomic-number query made from its atomic
  number when it had none) expanded by AND with the negated "H count equals i" query
  for \<open>i = 0, \<dots>, n - 1\<close> in this order, with the nested query molecules merged. If,
  moreover, no query hydrogen has more than one bond, then the removal loop succeeds
  on the marked indices in strictly descending order and deletes exactly the marked
  atoms.
\<close>

theorem mergeQueryHs_merges:
  assumes "wellFormed mol"
    and "\<forall>i < getNumAtoms mol. mergedAtom rec (hatomsOf mol) f mol i \<noteq> None"
  shows "\<exists>mol1 atomsToRemove.
      mergeMarked rec mol f = Some (mol1, atomsToRemove) \<and>
      atomsToRemove = concat (map (markedBy (hatomsOf mol) f mol) [0..<getNumAtoms mol]) \<and>
      (\<forall>i < getNumAtoms mol.
         \<not> hatomsOf mol ! i \<longrightarrow> eligibleHs mol (hatomsOf mol) f i \<noteq> [] \<longrightarrow>
         (\<exists>q'. query (atoms mol1 ! i) = Some q' \<and>
            mergeInQuery rec
              (addHCountQueries
                 (case query (atoms mol ! i) of
                    None \<Rightarrow> makeAtomNumQuery (atomicNum (atoms mol ! i)) | Some q \<Rightarrow> q)
                 (length (eligibleHs mol (hatomsOf mol) f i))) = Some q')) \<and>
      (hydrogensSinglyBonded mol \<longrightarrow>
         (\<exists>mol2. mergeQueryHs rec mol f = Some mol2 \<and>
            removeAtoms mol1 (rev (sort atomsToRemove)) = Some mol2 \<and>
            sorted_wrt (>) (rev (sort atomsToRemove)) \<and>
            atoms mol2 = nths (atoms mol1) (- set atomsToRemove)))"
proof -
  let ?n = "getNumAtoms mol"
  let ?h = "hatomsOf mol"
  let ?rm = "concat (map (markedBy ?h f mol) [0..<?n])"
  from mergeMarked_result [OF assms] obtain mol1 where
    mm: "mergeMarked rec mol f = Some (mol1, ?rm)"
    and len: "length (atoms mol1) = length (atoms mol)"
    and at: "\<forall>i < ?n. mergedAtom rec ?h f mol i = Some (atoms mol1 ! i)"
    by blast
  have qs: "\<forall>i < ?n. \<not> ?h ! i \<longrightarrow> eligibleHs mol ?h f i \<noteq> [] \<longrightarrow>
         (\<exists>q'. query (atoms mol1 ! i) = Some q' \<and>
            mergeInQuery rec
              (addHCountQueries
                 (case query (atoms mol ! i) of
                    None \<Rightarrow> makeAtomNumQuery (atomicNum (atoms mol ! i)) | Some q \<Rightarrow> q)
                 (length (eligibleHs mol ?h f i))) = Some q')"
  proof (intro allI impI)
    fix i assume i: "i < ?n" and h: "\<not> ?h ! i" and e: "eligibleHs mol ?h f i \<noteq> []"
    have "mergedAtom rec ?h f mol i = Some (atoms mol1 ! i)"
      using at i by simp
    from mergedAtom_query [OF this h e] show "\<exists>q'. query (atoms mol1 ! i) = Some q' \<and>
            mergeInQuery rec
              (addHCountQueries
                 (case query (atoms mol ! i) of
                    None \<Rightarrow> makeAtomNumQuery (atomicNum (atoms mol ! i)) | Some q \<Rightarrow> q)
                 (length (eligibleHs mol ?h f i))) = Some q'" .
  qed
  have rm: "hydrogensSinglyBonded mol \<longrightarrow>
         (\<exists>mol2. mergeQueryHs rec mol f = Some mol2 \<and>
            removeAtoms mol1 (rev (sort ?rm)) = Some mol2 \<and>
            sorted_wrt (>) (rev (sort ?rm)) \<and>
            atoms mol2 = nths (atoms mol1) (- set ?rm))"
  proof
    assume sb: "hydrogensSinglyBonded mol"
    from removal_of_marked [OF assms(1) sb len refl, of f] obtain mol2 where
      r: "removeAtoms mol1 (rev (sort ?rm)) = Some mol2"
         "sorted_wrt (>) (rev (sort ?rm))"
         "atoms mol2 = nths (atoms mol1) (- set ?rm)" by blast
    have "mergeQueryHs rec mol f = Some mol2"
      using mm r(1) by (simp add: mergeQueryHs_def)
    with r show "\<exists>mol2. mergeQueryHs rec mol f = Some mol2 \<and>
            removeAtoms mol1 (rev (sort ?rm)) = Some mol2 \<and>
            sorted_wrt (>) (rev (sort ?rm)) \<and>
            atoms mol2 = nths (atoms mol1) (- set ?rm)" by blast
  qed
  from mm qs rm show ?thesis by blast
qed

theorem mergeQueryHs_merges_witness:
  "\<exists>mol1 mol2.
      mergeMarked Some exMethylene False = Some (mol1, [1, 2]) \<and>
      query (atoms mol1 ! 0) =
        Some (Query ''AtomAnd'' False 0
               [Query ''AtomAnd'' False 0
                  [Query ''AtomAtomicNum'' False 6 [] None,
                   Query ''AtomHCount'' True 0 [] None] None,
                Query ''AtomHCount'' True 1 [] None] None) \<and>
      mergeQueryHs Some exMethylene False = Some mol2 \<and>
      atoms mol2 = nths (atoms mol1) (- set [1, 2])"
proof -
  have a: "wellFormed exMethylene"
    by code_simp
  have b: "\<forall>i < getNumAtoms exMethylene.
             mergedAtom Some (hatomsOf exMethylene) False exMethylene i \<noteq> None"
  proof -
    have "list_all (\<lambda>i. mergedAtom Some (hatomsOf exMethylene) False exMethylene i \<noteq> None)
            [0..<getNumAtoms exMethylene]"
      by code_simp
    then show ?thesis by (simp add: list_all_iff)
  qed
  have m: "concat (map (markedBy (hatomsOf exMethylene) False exMethylene)
             [0..<getNumAtoms exMethylene]) = [1, 2]"
    by code_simp
  have c: "hydrogensSinglyBonded exMethylene"
    by code_simp
  have n: "0 < getNumAtoms exMethylene" "\<not> hatomsOf exMethylene ! 0"
    "eligibleHs exMethylene (hatomsOf exMethylene) False 0 \<noteq> []"
    by code_simp+
  have q: "mergeInQuery Some
              (addHCountQueries
                 (case query (atoms exMethylene ! 0) of
                    None \<Rightarrow> makeAtomNumQuery (atomicNum (atoms exMethylene ! 0)) | Some q \<Rightarrow> q)
                 (length (eligibleHs exMethylene (hatomsOf exMethylene) False 0))) =
        Some (Query ''AtomAnd'' False 0
               [Query ''AtomAnd'' False 0
                  [Query ''AtomAtomicNum'' False 6 [] None,
                   Query ''AtomHCount'' True 0 [] None] None,
                Query ''AtomHCount'' True 1 [] None] None)"
    by code_simp
  from mergeQueryHs_merges [OF a b] show ?thesis
    unfolding m using n q c by fastforce
qed

text \<open>
  Beyond that bound, with hydrogens of degree 2: in the ring of two borons bridged by
  two hydrogens each hydrogen is an eligible neighbour of both borons, the list of
  atoms to remove is \<open>[1, 3, 1, 3]\<close>, and the removal loop, after removing atom 3,
  asks for atom 3 again in a molecule of three atoms and aborts.
\<close>

lemma mergeQueryHs_bridged_hydrogens:
  "hatomsOf exBridged = [False, True, False, True] \<and>
   \<not> hydrogensSinglyBonded exBridged \<and>
   eligibleHs exBridged (hatomsOf exBridged) False 0 = [1, 3] \<and>
   map_option snd (mergeMarked Some exBridged False) = Some [1, 3, 1, 3] \<and>
   mergeQueryHs Some exBridged False = None"
  by code_simp

subsection \<open>Query hydrogens involved in an OR\<close>

text \<open>
  C6, as the code has it. Take a degree-1 atom with a query that is not negated at its
  root and is not the plain hydrogen test, and let the query contain a hydrogen leaf
  and an OR (in the sense fixed above: the leaf is not below an OR node, and the OR is
  the root or is not below another OR node). Then \<open>isQueryH\<close> answers no and writes
  the warning, the warning is in the log of \<open>mergeQueryHs\<close>, the atom is not marked as
  a hydrogen and no atom counts it among its hydrogens to merge, so that its index is
  never put on the list of atoms to remove. On a well-formed molecule without
  hydrogens of several bonds, and when the recursive calls on nested query molecules
  return, \<open>mergeQueryHs\<close> returns and the atom is still there: it stands at the index
  that counts the atoms before it that were not removed.
\<close>

theorem isQueryH_or_warning:
  assumes "idx < getNumAtoms mol"
    and "getDegree mol idx = 1"
    and "query (atoms mol ! idx) = Some q"
    and "\<not> getNegation q"
    and "atomicNum (atoms mol ! idx) \<noteq> 1 \<or> getDescription q \<noteq> ''AtomAtomicNum''"
    and "containsHydrogenLeaf q"
    and "containsOr q"
  shows "isQueryH mol idx = (False, [orWarning]) \<and>
         orWarning \<in> set (mergeWarnings mol) \<and>
         \<not> hatomsOf mol ! idx \<and>
         (\<forall>i. idx \<notin> set (eligibleHs mol (hatomsOf mol) f i)) \<and>
         (\<forall>mol' atomsToRemove. mergeMarked rec mol f = Some (mol', atomsToRemove)
             \<longrightarrow> idx \<notin> set atomsToRemove) \<and>
         (wellFormed mol \<longrightarrow>
          (\<forall>i < getNumAtoms mol. mergedAtom rec (hatomsOf mol) f mol i \<noteq> None) \<longrightarrow>
          hydrogensSinglyBonded mol \<longrightarrow>
          (\<exists>mol1 atomsToRemove mol2.
             mergeMarked rec mol f = Some (mol1, atomsToRemove) \<and>
             atomsToRemove = concat (map (markedBy (hatomsOf mol) f mol) [0..<getNumAtoms mol]) \<and>
             mergeQueryHs rec mol f = Some mol2 \<and>
             atoms mol2 = nths (atoms mol1) (- set atomsToRemove) \<and>
             idx \<notin> set atomsToRemove \<and>
             atoms mol2 ! length (filter (\<lambda>j. j \<notin> set atomsToRemove) [0..<idx])
               = atoms mol1 ! idx))"
proof -
  let ?n = "getNumAtoms mol"
  let ?h = "hatomsOf mol"
  let ?rm = "concat (map (markedBy ?h f mol) [0..<?n])"
  have q: "isQueryH mol idx = (False, [orWarning])"
    using isQueryH_scanned [OF assms(2-5)] assms(6,7) by simp
  have w: "orWarning \<in> set (mergeWarnings mol)"
    using mergeWarnings_mem [OF assms(1), of orWarning] q by simp
  have h: "\<not> ?h ! idx"
    using hatomsOf_nth [OF assms(1)] q by simp
  have e: "\<forall>i. idx \<notin> set (eligibleHs mol ?h f i)"
    using not_marked(1) [OF h] by blast
  have m: "\<forall>mol' atomsToRemove. mergeMarked rec mol f = Some (mol', atomsToRemove)
             \<longrightarrow> idx \<notin> set atomsToRemove"
  proof (intro allI impI)
    fix mol' atomsToRemove
    assume "mergeMarked rec mol f = Some (mol', atomsToRemove)"
    then show "idx \<notin> set atomsToRemove"
      using mergeLoop_marked [of rec ?h f "[0..<?n]" "(mol, [])" "(mol', atomsToRemove)"] h
      by (auto simp: mergeMarked_def)
  qed
  have s: "wellFormed mol \<longrightarrow>
          (\<forall>i < ?n. mergedAtom rec ?h f mol i \<noteq> None) \<longrightarrow>
          hydrogensSinglyBonded mol \<longrightarrow>
          (\<exists>mol1 atomsToRemove mol2.
             mergeMarked rec mol f = Some (mol1, atomsToRemove) \<and>
             atomsToRemove = ?rm \<and>
             mergeQueryHs rec mol f = Some mol2 \<and>
             atoms mol2 = nths (atoms mol1) (- set atomsToRemove) \<and>
             idx \<notin> set atomsToRemove \<and>
             atoms mol2 ! length (filter (\<lambda>j. j \<notin> set atomsToRemove) [0..<idx])
               = atoms mol1 ! idx)"
  proof (intro impI)
    assume wf: "wellFormed mol"
      and rr: "\<forall>i < ?n. mergedAtom rec ?h f mol i \<noteq> None"
      and sb: "hydrogensSinglyBonded mol"
    from mergeMarked_result [OF wf rr] obtain mol1 where
      mm: "mergeMarked rec mol f = Some (mol1, ?rm)"
      and len: "length (atoms mol1) = length (atoms mol)"
      by blast
    from removal_of_marked [OF wf sb len refl, of f] obtain mol2 where
      r: "removeAtoms mol1 (rev (sort ?rm)) = Some mol2"
         "atoms mol2 = nths (atoms mol1) (- set ?rm)" by blast
    have ok: "mergeQueryHs rec mol f = Some mol2"
      using mm r(1) by (simp add: mergeQueryHs_def)
    have ni: "idx \<notin> set ?rm" using not_marked(2) [OF h] .
    have il: "idx < length (atoms mol1)" using assms(1) len by (simp add: getNumAtoms_def)
    have "nths (atoms mol1) (- set ?rm) ! length (filter (\<lambda>j. j \<in> - set ?rm) [0..<idx])
            = atoms mol1 ! idx"
      using nths_nth_kept [OF il, of "- set ?rm"] ni by simp
    then have pos: "atoms mol2 ! length (filter (\<lambda>j. j \<notin> set ?rm) [0..<idx]) = atoms mol1 ! idx"
      using r(2) by simp
    from mm ok r(2) ni pos show "\<exists>mol1 atomsToRemove mol2.
             mergeMarked rec mol f = Some (mol1, atomsToRemove) \<and>
             atomsToRemove = ?rm \<and>
             mergeQueryHs rec mol f = Some mol2 \<and>
             atoms mol2 = nths (atoms mol1) (- set atomsToRemove) \<and>
             idx \<notin> set atomsToRemove \<and>
             atoms mol2 ! length (filter (\<lambda>j. j \<notin> set atomsToRemove) [0..<idx])
               = atoms mol1 ! idx" by blast
  qed
  from q w h e m s show ?thesis by blast
qed

theorem isQueryH_or_warning_witness:
  "isQueryH exOrHydride 2 = (False, [orWarning]) \<and>
   orWarning \<in> set (mergeWarnings exOrHydride) \<and>
   \<not> hatomsOf exOrHydride ! 2 \<and>
   (\<exists>mol1 mol2.
      mergeMarked Some exOrHydride False = Some (mol1, [0]) \<and>
      mergeQueryHs Some exOrHydride False = Some mol2 \<and>
      atoms mol2 = nths (atoms mol1) (- {0}) \<and>
      atoms mol2 ! 1 = atoms mol1 ! 2)"
proof -
  have a: "2 < getNumAtoms exOrHydride" by code_simp
  have b: "getDegree exOrHydride 2 = 1" by code_simp
  have c: "query (atoms exOrHydride ! 2) = Some exOrQuery" by code_simp
  have d: "\<not> getNegation exOrQuery" by code_simp
  have e: "atomicNum (atoms exOrHydride ! 2) \<noteq> 1 \<or> getDescription exOrQuery \<noteq> ''AtomAtomicNum''"
    by code_simp
  have f: "containsHydrogenLeaf exOrQuery" by code_simp
  have g: "containsOr exOrQuery" by code_simp
  have wf: "wellFormed exOrHydride" by code_simp
  have rr: "\<forall>i < getNumAtoms exOrHydride.
             mergedAtom Some (hatomsOf exOrHydride) False exOrHydride i \<noteq> None"
  proof -
    have "list_all (\<lambda>i. mergedAtom Some (hatomsOf exOrHydride) False exOrHydride i \<noteq> None)
            [0..<getNumAtoms exOrHydride]"
      by code_simp
    then show ?thesis by (simp add: list_all_iff)
  qed
  have sb: "hydrogensSinglyBonded exOrHydride" by code_simp
  have m: "concat (map (markedBy (hatomsOf exOrHydride) False exOrHydride)
             [0..<getNumAtoms exOrHydride]) = [0]"
    by code_simp
  have p: "length (filter (\<lambda>j. j \<notin> set [0::nat]) [0..<2]) = 1" by code_simp
  from isQueryH_or_warning [OF a b c d e f g, of False Some] show ?thesis
    unfolding m using wf rr sb p by auto
qed

text \<open>
  C6, as the claim states it, fails when the root of the query is negated: the atom
  below has degree 1 and its query contains a hydrogen leaf (non-negated) and an OR,
  and the scan of the children meets both; \<open>isQueryH\<close> answers no at the test for
  negated queries, before the scan, and nothing is written to the log.
\<close>

theorem isQueryH_negated_counterexample:
  "getDegree exNegated 1 = 1 \<and>
   query (atoms exNegated ! 1) = Some exNegatedQuery \<and>
   containsHydrogenLeaf exNegatedQuery \<and> containsOr exNegatedQuery \<and>
   scanChildren False (getDescription exNegatedQuery = ''AtomOr'') (children exNegatedQuery)
     = (True, True) \<and>
   isQueryH exNegated 1 = (False, []) \<and>
   mergeWarnings exNegated = []"
  by code_simp

text \<open>
  Nor is there a warning when the only hydrogen leaf of the tree lies below an OR
  node: the scan does not descend below an \<open>AtomOr\<close> node.
\<close>

lemma isQueryH_below_or:
  "getDegree exBelowOr 1 = 1 \<and>
   query (atoms exBelowOr ! 1) = Some exBelowOrQuery \<and>
   \<not> getNegation exBelowOrQuery \<and>
   \<not> containsHydrogenLeaf exBelowOrQuery \<and> containsOr exBelowOrQuery \<and>
   isQueryH exBelowOr 1 = (False, []) \<and>
   mergeWarnings exBelowOr = []"
  by code_simp

subsection \<open>The copy-returning \<open>removeHs\<close>\<close>

text \<open>
  C9. Let the copy-returning \<open>removeHs\<close> be called with \<open>sanitize = true\<close> (and
  \<open>implicitOnly = false\<close>, so that the sanitization pass runs) on the molecule at
  address \<open>src\<close>, let \<open>res\<close> be the fresh address of the copy, and let the
  sanitization pass fail on the molecule the removal produced. Then the caller
  receives the \<open>MolSanitizeException\<close> in a store that is the store of the call:
  the copy at \<open>res\<close> has been deleted, and the input molecule at \<open>src\<close> is as it was.
\<close>

theorem removeHsCopy_sanitize_failure:
  assumes "store src = Some mol" and "res \<notin> dom store"
    and "refreshCaches ch mol [0..<getNumAtoms mol] = Inr mol1"
    and "\<not> implicitOnly"
    and "sanitizeMol ch (removeHsLoop ch implicitOnly updateExplicitCount mol1 0) = None"
  shows "removeHsCopy ch store res src implicitOnly updateExplicitCount True =
           (store, Inl MolSanitizeException) \<and>
         fst (removeHsCopy ch store res src implicitOnly updateExplicitCount True) src = Some mol \<and>
         fst (removeHsCopy ch store res src implicitOnly updateExplicitCount True) res = None"
proof -
  have r: "removeHs ch mol implicitOnly updateExplicitCount True = Inl MolSanitizeException"
    using assms(3-5) by (simp add: removeHs_def Let_def)
  have n: "store res = None" using assms(2) by (simp add: domIff)
  have "fun_upd (fun_upd store res (Some mol)) res None = store"
    using n by (simp add: fun_eq_iff)
  then have "removeHsCopy ch store res src implicitOnly updateExplicitCount True =
           (store, Inl MolSanitizeException)"
    using assms(1) r by (simp add: removeHsCopy_def Let_def)
  then show ?thesis using assms(1) n by simp
qed


theorem removeHsCopy_sanitize_failure_witness:
  "removeHsCopy exChemFailing exStore 1 0 False False True = (exStore, Inl MolSanitizeException) \<and>
   exStore 0 = Some exCH \<and> exStore 1 = None"
proof -
  have a: "exStore 0 = Some exCH" by (simp add: exStore_def)
  have b: "1 \<notin> dom exStore" by (simp add: exStore_def)
  have c: "refreshCaches exChemFailing exCH [0..<getNumAtoms exCH] =
             Inr (exCH\<lparr>atoms := [(newAtom 6)\<lparr>explicitValence := 4, implicitValence := 0\<rparr>, newAtom 1]\<rparr>)"
    by code_simp
  have d: "\<not> False" by simp
  have e: "sanitizeMol exChemFailing (removeHsLoop exChemFailing False False
             (exCH\<lparr>atoms := [(newAtom 6)\<lparr>explicitValence := 4, implicitValence := 0\<rparr>, newAtom 1]\<rparr>) 0) = None"
    by (simp add: exChemFailing_def)
  show ?thesis
    using removeHsCopy_sanitize_failure [OF a b c d e] a b by (simp add: domIff)
qed

subsection \<open>Removing hydrogens: the chiral tag\<close>

lemma replaceFirst_last: "b \<notin> set ys \<Longrightarrow> replaceFirst b y (ys @ [b]) = ys @ [y]"
  by (induction ys) auto

lemma countSwaps_cycle:
  "distinct (b # ys) \<Longrightarrow> countSwapsToInterconvert (b # ys) (ys @ [b]) = length ys"
proof (induction ys arbitrary: b)
  case Nil
  then show ?case by simp
next
  case (Cons y ys)
  have "replaceFirst b y (ys @ [b]) = ys @ [y]"
    using Cons.prems by (simp add: replaceFirst_last)
  moreover have "countSwapsToInterconvert (y # ys) (ys @ [y]) = length ys"
    using Cons.IH [of y] Cons.prems by simp
  ultimately show ?case using Cons.prems by auto
qed

lemma countSwaps_moved_to_end:
  "distinct (xs @ b # ys) \<Longrightarrow>
   countSwapsToInterconvert (xs @ b # ys) (xs @ ys @ [b]) = length ys"
  by (induction xs) (simp_all add: countSwaps_cycle)

lemma takeWhile_upto:
  "x \<notin> set l \<Longrightarrow> takeWhile (\<lambda>z. z \<noteq> x) (l @ x # r) = l"
  by (induction l) auto

lemma inversions_tail:
  "distinct (pre @ b # mid @ ys) \<Longrightarrow>
   inversions (pre @ b # mid @ ys) (ys @ [b]) = length ys"
proof (induction ys arbitrary: mid)
  case Nil
  then show ?case by simp
next
  case (Cons y ys)
  let ?ref = "pre @ b # mid @ y # ys"
  have tw: "takeWhile (\<lambda>z. z \<noteq> y) ?ref = pre @ b # mid"
    using takeWhile_upto [of y "pre @ b # mid" ys] Cons.prems by simp
  have p: "\<And>q. precedes ?ref q y = (q \<in> set (pre @ b # mid))"
    by (simp only: precedes_def tw)
  have f: "filter (\<lambda>q. precedes ?ref q y) (ys @ [b]) = [b]"
    unfolding p using Cons.prems by (auto simp: filter_empty_conv)
  have "inversions ((pre @ b # (mid @ [y]) @ ys)) (ys @ [b]) = length ys"
    using Cons.IH [of "mid @ [y]"] Cons.prems by simp
  then show ?case using f by simp
qed

lemma inversions_moved_to_end:
  "distinct (pre @ xs @ b # ys) \<Longrightarrow>
   inversions (pre @ xs @ b # ys) (xs @ ys @ [b]) = length ys"
proof (induction xs arbitrary: pre)
  case Nil
  then show ?case using inversions_tail [of pre b "[]" ys] by simp
next
  case (Cons x xs)
  let ?ref = "pre @ x # xs @ b # ys"
  have tw: "takeWhile (\<lambda>z. z \<noteq> x) ?ref = pre"
    using takeWhile_upto [of x pre "xs @ b # ys"] Cons.prems by simp
  have p: "\<And>q. precedes ?ref q x = (q \<in> set pre)"
    by (simp only: precedes_def tw)
  have f: "filter (\<lambda>q. precedes ?ref q x) (xs @ ys @ [b]) = []"
    unfolding p using Cons.prems by (auto simp: filter_empty_conv)
  have "inversions ((pre @ [x]) @ xs @ b # ys) (xs @ ys @ [b]) = length ys"
    using Cons.IH [of "pre @ [x]"] Cons.prems by simp
  then show ?case using f by simp
qed

lemma swaps_parity_is_permutation_parity:
  assumes "distinct bs" and "b \<in> set bs"
  shows "odd (countSwapsToInterconvert bs (filter (\<lambda>x. x \<noteq> b) bs @ [b])) =
         oddPermutation bs (filter (\<lambda>x. x \<noteq> b) bs @ [b])"
proof -
  from assms(2) obtain xs ys where s: "bs = xs @ b # ys"
    by (auto simp: in_set_conv_decomp)
  have nb: "b \<notin> set xs" "b \<notin> set ys" using assms(1) s by auto
  have "filter (\<lambda>x. x \<noteq> b) xs = xs" "filter (\<lambda>x. x \<noteq> b) ys = ys"
    using nb by (auto simp: filter_id_conv)
  then have f: "filter (\<lambda>x. x \<noteq> b) bs = xs @ ys"
    by (simp add: s)
  have "countSwapsToInterconvert bs (xs @ ys @ [b]) = length ys"
    using countSwaps_moved_to_end [of xs b ys] assms(1) s by simp
  moreover have "inversions bs (xs @ ys @ [b]) = length ys"
    using inversions_moved_to_end [of "[]" xs b ys] assms(1) s by simp
  ultimately show ?thesis by (simp add: oddPermutation_def f)
qed

lemma getAtomBonds_distinct: "distinct (getAtomBonds mol a)"
  by (simp add: getAtomBonds_def)

lemma getAtomBonds_mem:
  "bi \<in> set (getAtomBonds mol a) \<longleftrightarrow> bi < length (bonds mol) \<and> incident a (bonds mol ! bi)"
  by (auto simp: getAtomBonds_def)

lemma first_bond_at_heavy:
  assumes "getAtomBonds mol idx = hBond # others"
  shows "hBond \<in> set (getAtomBonds mol (getOtherAtomIdx (bonds mol ! hBond) idx))"
proof -
  have "hBond \<in> set (getAtomBonds mol idx)" using assms by simp
  then show ?thesis
    by (auto simp: getAtomBonds_mem incident_def getOtherAtomIdx_def)
qed

lemma bonds_setHeavy: "bonds (setHeavy mol i f) = bonds mol"
  by (simp add: setHeavy_def)

lemma getAtomBonds_setHeavy: "getAtomBonds (setHeavy mol i f) a = getAtomBonds mol a"
  by (simp add: getAtomBonds_def bonds_setHeavy)

lemma fixedChiralTag_setHeavy:
  assumes "chiralTag (f (atoms mol ! h)) = chiralTag (atoms mol ! h)"
  shows "fixedChiralTag (setHeavy mol h f) h b = fixedChiralTag mol h b"
proof (cases "h < length (atoms mol)")
  case True
  then show ?thesis
    using assms
    by (simp add: fixedChiralTag_def getPerturbationOrder_def neighborIndices_def
        getAtomBonds_def setHeavy_def Let_def)
next
  case False
  then have "setHeavy mol h f = mol" by (simp add: setHeavy_def list_update_beyond)
  then show ?thesis by simp
qed

lemma chiralTag_detach:
  assumes "getAtomBonds mol idx = hBond # others"
    and "getOtherAtomIdx (bonds mol ! hBond) idx = heavyIdx"
    and "heavyIdx < length (atoms mol)"
  shows "chiralTag (atoms (detachHydrogen ch u mol idx) ! heavyIdx) =
           fixedChiralTag mol heavyIdx hBond"
proof -
  let ?mol1 = "if countsAsExplicit ch u (atoms mol ! heavyIdx)
               then setHeavy mol heavyIdx (\<lambda>a. a\<lparr>numExplicitHs := numExplicitHs a + 1\<rparr>)
               else mol"
  have t1: "fixedChiralTag ?mol1 heavyIdx hBond = fixedChiralTag mol heavyIdx hBond"
    by (simp add: fixedChiralTag_setHeavy)
  have l1: "length (atoms ?mol1) = length (atoms mol)"
    by (simp add: setHeavy_def)
  let ?mol2 = "setHeavy ?mol1 heavyIdx (\<lambda>a. a\<lparr>chiralTag := fixedChiralTag ?mol1 heavyIdx hBond\<rparr>)"
  have t2: "chiralTag (atoms ?mol2 ! heavyIdx) = fixedChiralTag mol heavyIdx hBond"
    using assms(3) l1 t1 by (simp add: setHeavy_def)
  have t3: "chiralTag (atoms (setHeavy ?mol2 heavyIdx (\<lambda>a. a\<lparr>unknownStereo := True\<rparr>)) ! heavyIdx)
              = fixedChiralTag mol heavyIdx hBond"
    using assms(3) l1 t1 by (simp add: setHeavy_def)
  show ?thesis
    using t2 t3 assms(1,2)
    by (simp add: detachHydrogen_def Let_def atoms_adjustStereo atoms_copyDirection)
qed

lemma nth_dropAt:
  assumes "j < length xs" and "j \<noteq> idx"
  shows "dropAt idx xs ! renumber idx j = xs ! j"
proof (cases "j < idx")
  case True
  then show ?thesis using assms by (simp add: dropAt_def renumber_def nth_append)
next
  case False
  then have gt: "idx < j" using assms(2) by simp
  then have "renumber idx j = j - 1" by (simp add: renumber_def)
  moreover have "\<not> j - 1 < idx" using gt by arith
  moreover have "Suc (idx + (j - 1 - idx)) = j" using gt by arith
  ultimately have "dropAt idx xs ! (j - 1) = xs ! j"
    using gt assms(1) by (simp add: dropAt_def nth_append min_def)
  moreover note \<open>renumber idx j = j - 1\<close>
  ultimately show ?thesis by simp
qed

lemma invertChirality_changes: "t \<noteq> CHI_UNSPECIFIED \<Longrightarrow> invertChirality t \<noteq> t"
  by (cases t) simp_all

text \<open>
  C2. Let the hydrogen at \<open>currIdx\<close> be one that the loop removes, let \<open>hBond\<close> be
  its bond and \<open>heavyIdx\<close> its neighbour, with a chiral tag that is not
  unspecified. Then the turn of the loop removes the hydrogen, and afterwards the tag
  of the heavy atom (now at its renumbered index) is the inverse of its old tag if and
  only if the permutation from \<open>neighborIndices\<close> - the heavy atom's bond indices,
  in order, with the removed bond moved to the end - to the heavy atom's own order of
  bond indices is odd; otherwise it is the old tag.
\<close>

theorem removeHs_parity_fixup:
  assumes "currIdx < getNumAtoms mol"
    and "atomicNum (atoms mol ! currIdx) = 1"
    and "removeIt mol implicitOnly currIdx"
    and "getAtomBonds mol currIdx = hBond # others"
    and "heavyIdx = getOtherAtomIdx (bonds mol ! hBond) currIdx"
    and "heavyIdx < getNumAtoms mol"
    and "heavyIdx \<noteq> currIdx"
    and "chiralTag (atoms mol ! heavyIdx) \<noteq> CHI_UNSPECIFIED"
  shows "removeHsStep ch implicitOnly updateExplicitCount mol currIdx =
           (removeAtom (detachHydrogen ch updateExplicitCount mol currIdx) currIdx, currIdx) \<and>
         chiralTag (atoms (fst (removeHsStep ch implicitOnly updateExplicitCount mol currIdx))
                      ! renumber currIdx heavyIdx) =
           (if oddPermutation (getAtomBonds mol heavyIdx) (neighborIndices mol heavyIdx hBond)
            then invertChirality (chiralTag (atoms mol ! heavyIdx))
            else chiralTag (atoms mol ! heavyIdx)) \<and>
         (chiralTag (atoms (fst (removeHsStep ch implicitOnly updateExplicitCount mol currIdx))
                      ! renumber currIdx heavyIdx) \<noteq> chiralTag (atoms mol ! heavyIdx)) =
           oddPermutation (getAtomBonds mol heavyIdx) (neighborIndices mol heavyIdx hBond)"
proof -
  let ?d = "detachHydrogen ch updateExplicitCount mol currIdx"
  have step: "removeHsStep ch implicitOnly updateExplicitCount mol currIdx =
           (removeAtom ?d currIdx, currIdx)"
    using assms(2,3) by (simp add: removeHsStep_def)
  have h: "heavyIdx < length (atoms mol)" using assms(6) by (simp add: getNumAtoms_def)
  have len: "heavyIdx < length (atoms ?d)" using h by (simp add: length_atoms_detach)
  have at: "atoms (removeAtom ?d currIdx) ! renumber currIdx heavyIdx = atoms ?d ! heavyIdx"
    using nth_dropAt [OF len assms(7)] by (simp add: removeAtom_def)
  have tag: "chiralTag (atoms ?d ! heavyIdx) = fixedChiralTag mol heavyIdx hBond"
    using chiralTag_detach [OF assms(4) assms(5) [symmetric] h] .
  have mem: "hBond \<in> set (getAtomBonds mol heavyIdx)"
    using first_bond_at_heavy [OF assms(4)] assms(5) by simp
  have par: "odd (getPerturbationOrder mol heavyIdx (neighborIndices mol heavyIdx hBond)) =
             oddPermutation (getAtomBonds mol heavyIdx) (neighborIndices mol heavyIdx hBond)"
    using swaps_parity_is_permutation_parity [OF getAtomBonds_distinct mem]
    by (simp add: getPerturbationOrder_def neighborIndices_def)
  have fx: "fixedChiralTag mol heavyIdx hBond =
           (if oddPermutation (getAtomBonds mol heavyIdx) (neighborIndices mol heavyIdx hBond)
            then invertChirality (chiralTag (atoms mol ! heavyIdx))
            else chiralTag (atoms mol ! heavyIdx))"
    using assms(8) par by (simp add: fixedChiralTag_def Let_def odd_iff_mod_2_eq_one)
  show ?thesis
    using step at tag fx invertChirality_changes [OF assms(8)] by simp
qed

theorem removeHs_parity_fixup_witness:
  "removeHsStep exChem False False exChiral 1 =
           (removeAtom (detachHydrogen exChem False exChiral 1) 1, 1) \<and>
   oddPermutation (getAtomBonds exChiral 0) (neighborIndices exChiral 0 0) \<and>
   chiralTag (atoms (fst (removeHsStep exChem False False exChiral 1)) ! 0) = CHI_TETRAHEDRAL_CCW"
proof -
  have a: "1 < getNumAtoms exChiral" "atomicNum (atoms exChiral ! 1) = 1"
    "removeIt exChiral False 1" "getAtomBonds exChiral 1 = 0 # []"
    "0 = getOtherAtomIdx (bonds exChiral ! 0) 1" "0 < getNumAtoms exChiral" "(0::nat) \<noteq> 1"
    "chiralTag (atoms exChiral ! 0) \<noteq> CHI_UNSPECIFIED"
    by code_simp+
  have o: "oddPermutation (getAtomBonds exChiral 0) (neighborIndices exChiral 0 0)"
    by code_simp
  have r: "renumber 1 0 = 0" "chiralTag (atoms exChiral ! 0) = CHI_TETRAHEDRAL_CW"
    by code_simp+
  note t = removeHs_parity_fixup [OF a, of exChem False]
  from t have s1: "removeHsStep exChem False False exChiral 1 =
           (removeAtom (detachHydrogen exChem False exChiral 1) 1, 1)" by blast
  from t have "chiralTag (atoms (fst (removeHsStep exChem False False exChiral 1))
                      ! renumber 1 0) =
           (if oddPermutation (getAtomBonds exChiral 0) (neighborIndices exChiral 0 0)
            then invertChirality (chiralTag (atoms exChiral ! 0))
            else chiralTag (atoms exChiral ! 0))" by blast
  then have s2: "chiralTag (atoms (fst (removeHsStep exChem False False exChiral 1)) ! 0)
      = CHI_TETRAHEDRAL_CCW" using o r by simp
  from s1 s2 o show ?thesis by blast
qed

subsection \<open>Removing hydrogens: stereo atoms of double bonds\<close>


lemma adjustOverBonds_first:
  assumes "\<forall>b \<in> set pre. \<not> namesHydrogen mol atom b"
    and "namesHydrogen mol atom bi"
    and "filter (\<lambda>n. \<not> (n = getOtherAtomIdx (bonds mol ! bi) heavyAtom \<or> n = atom))
           (getAtomNeighbors mol heavyAtom) = nbr # rest"
  shows "adjustOverBonds mol atom heavyAtom (pre @ bi # post) =
           (mol\<lparr>bonds := (bonds mol)[bi := (bonds mol ! bi)
                    \<lparr>stereoAtoms := replaceFirst atom nbr (stereoAtoms (bonds mol ! bi)),
                     stereo := fst (swapStereo (stereo (bonds mol ! bi)))\<rparr>]\<rparr>,
            snd (swapStereo (stereo (bonds mol ! bi))))"
  using assms
proof (induction pre)
  case Nil
  then show ?case by (simp add: namesHydrogen_def Let_def)
next
  case (Cons b pre)
  then show ?case by (auto simp: namesHydrogen_def Let_def)
qed

lemma sameButDir_refl: "sameButDir mol mol"
  by (simp add: sameButDir_def list_all2_refl)

lemma sameButDir_setHeavy: "sameButDir (setHeavy mol i f) mol"
  by (simp add: sameButDir_def setHeavy_def list_all2_refl)

lemma sameButDir_trans_setHeavy: "sameButDir m mol \<Longrightarrow> sameButDir (setHeavy m i f) mol"
  by (simp add: sameButDir_def setHeavy_def)

lemma sameButDir_copyDirection: "sameButDir (copyDirection mol h b) mol"
proof -
  have "list_all2 (\<lambda>b' b. b' = b\<lparr>bondDir := bondDir b'\<rparr>)
          ((bonds mol)[k := (bonds mol ! k)\<lparr>bondDir := d\<rparr>]) (bonds mol)" for k d
    by (cases "k < length (bonds mol)")
       (auto simp: list_all2_conv_all_nth nth_list_update list_update_beyond)
  then show ?thesis
    by (auto simp: sameButDir_def copyDirection_def Let_def list_all2_refl split: list.splits)
qed

lemma sameButDir_nth:
  assumes "sameButDir m mol"
  shows "length (bonds m) = length (bonds mol)"
    and "i < length (bonds mol) \<Longrightarrow> beginAtomIdx (bonds m ! i) = beginAtomIdx (bonds mol ! i)"
    and "i < length (bonds mol) \<Longrightarrow> endAtomIdx (bonds m ! i) = endAtomIdx (bonds mol ! i)"
    and "i < length (bonds mol) \<Longrightarrow> bondType (bonds m ! i) = bondType (bonds mol ! i)"
    and "i < length (bonds mol) \<Longrightarrow> stereo (bonds m ! i) = stereo (bonds mol ! i)"
    and "i < length (bonds mol) \<Longrightarrow> stereoAtoms (bonds m ! i) = stereoAtoms (bonds mol ! i)"
proof -
  have l: "length (bonds m) = length (bonds mol)"
    using assms by (simp add: sameButDir_def list_all2_lengthD)
  have e: "bonds m ! i = (bonds mol ! i)\<lparr>bondDir := bondDir (bonds m ! i)\<rparr>"
    if "i < length (bonds mol)"
    using assms that l by (simp add: sameButDir_def list_all2_conv_all_nth)
  show "length (bonds m) = length (bonds mol)" by (rule l)
  show "i < length (bonds mol) \<Longrightarrow> beginAtomIdx (bonds m ! i) = beginAtomIdx (bonds mol ! i)"
    using e by (metis Bond.select_convs(1) Bond.surjective Bond.update_convs(7))
  show "i < length (bonds mol) \<Longrightarrow> endAtomIdx (bonds m ! i) = endAtomIdx (bonds mol ! i)"
    using e by (metis Bond.select_convs(2) Bond.surjective Bond.update_convs(7))
  show "i < length (bonds mol) \<Longrightarrow> bondType (bonds m ! i) = bondType (bonds mol ! i)"
    using e by (metis Bond.select_convs(3) Bond.surjective Bond.update_convs(7))
  show "i < length (bonds mol) \<Longrightarrow> stereo (bonds m ! i) = stereo (bonds mol ! i)"
    using e by (metis Bond.select_convs(5) Bond.surjective Bond.update_convs(7))
  show "i < length (bonds mol) \<Longrightarrow> stereoAtoms (bonds m ! i) = stereoAtoms (bonds mol ! i)"
    using e by (metis Bond.select_convs(6) Bond.surjective Bond.update_convs(7))
qed

lemma sameButDir_getAtomBonds:
  assumes "sameButDir m mol"
  shows "getAtomBonds m a = getAtomBonds mol a"
  unfolding getAtomBonds_def sameButDir_nth(1) [OF assms]
  by (rule filter_cong) (auto simp: incident_def sameButDir_nth [OF assms])

lemma sameButDir_getAtomNeighbors:
  assumes "sameButDir m mol"
  shows "getAtomNeighbors m a = getAtomNeighbors mol a"
  unfolding getAtomNeighbors_def sameButDir_getAtomBonds [OF assms]
  by (rule map_cong)
     (auto simp: getOtherAtomIdx_def getAtomBonds_def sameButDir_nth [OF assms])

lemma detach_via_adjust:
  assumes "getAtomBonds mol currIdx = hBond # others"
    and "getOtherAtomIdx (bonds mol ! hBond) currIdx = heavyIdx"
    and "usesStereoAdjust mol heavyIdx hBond"
  shows "\<exists>m. sameButDir m mol \<and>
           detachHydrogen ch u mol currIdx = fst (adjustStereoAtomsIfRequired m currIdx heavyIdx)"
proof -
  let ?mol1 = "if countsAsExplicit ch u (atoms mol ! heavyIdx)
               then setHeavy mol heavyIdx (\<lambda>a. a\<lparr>numExplicitHs := numExplicitHs a + 1\<rparr>)
               else mol"
  let ?mol2 = "setHeavy ?mol1 heavyIdx (\<lambda>a. a\<lparr>chiralTag := fixedChiralTag ?mol1 heavyIdx hBond\<rparr>)"
  have b2: "bonds ?mol2 = bonds mol" by (simp add: setHeavy_def)
  have s2: "sameButDir ?mol2 mol"
    by (simp add: sameButDir_def b2 list_all2_refl)
  have s3: "sameButDir (copyDirection ?mol2 heavyIdx hBond) mol"
    using sameButDir_copyDirection [of ?mol2 heavyIdx hBond]
    by (simp add: sameButDir_def b2)
  have nw: "\<not> (bondDir (bonds mol ! hBond) = DIR_UNKNOWN \<and>
               beginAtomIdx (bonds mol ! hBond) = heavyIdx)"
    using assms(3) by (simp add: usesStereoAdjust_def)
  have "detachHydrogen ch u mol currIdx =
          (let bond = bonds ?mol2 ! hBond
           in if bondDir bond = DIR_UNKNOWN \<and> beginAtomIdx bond = heavyIdx
              then setHeavy ?mol2 heavyIdx (\<lambda>a. a\<lparr>unknownStereo := True\<rparr>)
              else if bondDir bond = ENDDOWNRIGHT \<or> bondDir bond = ENDUPRIGHT
              then fst (adjustStereoAtomsIfRequired (copyDirection ?mol2 heavyIdx hBond) currIdx heavyIdx)
              else fst (adjustStereoAtomsIfRequired ?mol2 currIdx heavyIdx))"
    unfolding detachHydrogen_def assms(1) list.case assms(2) Let_def ..
  then have "detachHydrogen ch u mol currIdx =
          (if bondDir (bonds mol ! hBond) = ENDDOWNRIGHT \<or> bondDir (bonds mol ! hBond) = ENDUPRIGHT
           then fst (adjustStereoAtomsIfRequired (copyDirection ?mol2 heavyIdx hBond) currIdx heavyIdx)
           else fst (adjustStereoAtomsIfRequired ?mol2 currIdx heavyIdx))"
    unfolding Let_def b2 using nw by simp
  then show ?thesis using s2 s3 by (cases "bondDir (bonds mol ! hBond) = ENDDOWNRIGHT \<or>
      bondDir (bonds mol ! hBond) = ENDUPRIGHT") auto
qed

lemma fst_swapStereo:
  "fst (swapStereo s) = (case s of STEREOCIS \<Rightarrow> STEREOTRANS | STEREOTRANS \<Rightarrow> STEREOCIS | _ \<Rightarrow> s)"
  by (cases s) simp_all

lemma sameButDir_namesHydrogen:
  assumes "sameButDir m mol" and "k < length (bonds mol)"
  shows "namesHydrogen m a k = namesHydrogen mol a k"
  using assms(2) by (simp add: namesHydrogen_def sameButDir_nth [OF assms(1)])

lemma getBondBetweenAtoms_first:
  assumes "getAtomBonds mol a = hBond # others"
  shows "getBondBetweenAtoms mol a (getOtherAtomIdx (bonds mol ! hBond) a) \<noteq> None"
  using assms by (simp add: getBondBetweenAtoms_def)

text \<open>
  C3, as the code has it. Let the hydrogen at \<open>currIdx\<close> be one that the loop
  removes, with bond \<open>hBond\<close> to \<open>heavyIdx\<close>, and let this bond not be a bond of
  unknown direction that begins at the heavy atom. Let \<open>bi\<close> be the first of the
  heavy atom's bonds that is a double bond with a stereo descriptor beyond "any" whose
  stereo atoms name the hydrogen. When the heavy atom's degree is not 2, the first
  neighbour of the heavy atom that is neither the other end of \<open>bi\<close> nor the
  hydrogen replaces the hydrogen in the stereo atoms of \<open>bi\<close>, cis and trans are
  swapped, and any other descriptor stays. When the degree is 2, no stereo atoms and no
  descriptor change. (The statement is about the molecule handed to \<open>removeAtom\<close>.)
\<close>

theorem removeHs_stereo_atoms:
  assumes "atomicNum (atoms mol ! currIdx) = 1"
    and "removeIt mol implicitOnly currIdx"
    and "getAtomBonds mol currIdx = hBond # others"
    and "getOtherAtomIdx (bonds mol ! hBond) currIdx = heavyIdx"
    and "usesStereoAdjust mol heavyIdx hBond"
    and "getAtomBonds mol heavyIdx = pre @ bi # post"
    and "\<forall>b \<in> set pre. \<not> namesHydrogen mol currIdx b"
    and "namesHydrogen mol currIdx bi"
  shows "removeHsStep ch implicitOnly updateExplicitCount mol currIdx =
           (removeAtom (detachHydrogen ch updateExplicitCount mol currIdx) currIdx, currIdx) \<and>
         (getDegree mol heavyIdx \<noteq> 2 \<longrightarrow>
            (\<forall>nbr rest.
               filter (\<lambda>n. \<not> (n = getOtherAtomIdx (bonds mol ! bi) heavyIdx \<or> n = currIdx))
                 (getAtomNeighbors mol heavyIdx) = nbr # rest \<longrightarrow>
               stereoAtoms (bonds (detachHydrogen ch updateExplicitCount mol currIdx) ! bi) =
                 replaceFirst currIdx nbr (stereoAtoms (bonds mol ! bi)) \<and>
               stereo (bonds (detachHydrogen ch updateExplicitCount mol currIdx) ! bi) =
                 (case stereo (bonds mol ! bi) of
                    STEREOCIS \<Rightarrow> STEREOTRANS | STEREOTRANS \<Rightarrow> STEREOCIS | s \<Rightarrow> s))) \<and>
         (getDegree mol heavyIdx = 2 \<longrightarrow>
            (\<forall>k < length (bonds mol).
               stereoAtoms (bonds (detachHydrogen ch updateExplicitCount mol currIdx) ! k) =
                 stereoAtoms (bonds mol ! k) \<and>
               stereo (bonds (detachHydrogen ch updateExplicitCount mol currIdx) ! k) =
                 stereo (bonds mol ! k)))"
proof -
  let ?d = "detachHydrogen ch updateExplicitCount mol currIdx"
  have step: "removeHsStep ch implicitOnly updateExplicitCount mol currIdx =
           (removeAtom ?d currIdx, currIdx)"
    using assms(1,2) by (simp add: removeHsStep_def)
  from detach_via_adjust [OF assms(3,4,5)] obtain m where
    m: "sameButDir m mol" "?d = fst (adjustStereoAtomsIfRequired m currIdx heavyIdx)"
    by blast
  have ab: "getAtomBonds m heavyIdx = pre @ bi # post" "getAtomBonds m currIdx = hBond # others"
    using assms(3,6) by (simp_all add: sameButDir_getAtomBonds [OF m(1)])
  have deg: "getDegree m heavyIdx = getDegree mol heavyIdx"
    by (simp add: getDegree_def sameButDir_getAtomBonds [OF m(1)])
  have inr: "\<forall>k \<in> set (pre @ bi # post). k < length (bonds mol)"
    using assms(6) getAtomBonds_def [of mol heavyIdx] by (metis (no_types, lifting) atLeastLessThan_iff filter_is_subset set_upt subsetD)
  have bil: "bi < length (bonds mol)" using inr by simp
  have two: "\<forall>k < length (bonds mol). stereoAtoms (bonds ?d ! k) = stereoAtoms (bonds mol ! k) \<and>
               stereo (bonds ?d ! k) = stereo (bonds mol ! k)"
    if "getDegree mol heavyIdx = 2"
    using that deg m by (simp add: adjustStereoAtomsIfRequired_def sameButDir_nth [OF m(1)])
  have sub: "stereoAtoms (bonds ?d ! bi) = replaceFirst currIdx nbr (stereoAtoms (bonds mol ! bi)) \<and>
             stereo (bonds ?d ! bi) =
               (case stereo (bonds mol ! bi) of
                  STEREOCIS \<Rightarrow> STEREOTRANS | STEREOTRANS \<Rightarrow> STEREOCIS | s \<Rightarrow> s)"
    if d: "getDegree mol heavyIdx \<noteq> 2"
      and f: "filter (\<lambda>n. \<not> (n = getOtherAtomIdx (bonds mol ! bi) heavyIdx \<or> n = currIdx))
                 (getAtomNeighbors mol heavyIdx) = nbr # rest"
    for nbr rest
  proof -
    have h4: "hBond < length (bonds mol)"
      using assms(3) getAtomBonds_def [of mol currIdx]
      by (metis (no_types, lifting) atLeastLessThan_iff filter_is_subset list.set_intros(1) set_upt subsetD)
    have oth: "getOtherAtomIdx (bonds m ! hBond) currIdx = heavyIdx"
      using assms(4) h4 by (auto simp: getOtherAtomIdx_def sameButDir_nth [OF m(1)])
    have bb: "getBondBetweenAtoms m currIdx heavyIdx \<noteq> None"
      using getBondBetweenAtoms_first [OF ab(2)] oth by simp
    have p1: "\<forall>b \<in> set pre. \<not> namesHydrogen m currIdx b"
      using assms(7) inr by (simp add: sameButDir_namesHydrogen [OF m(1)])
    have p2: "namesHydrogen m currIdx bi"
      using assms(8) bil by (simp add: sameButDir_namesHydrogen [OF m(1)])
    have p3: "filter (\<lambda>n. \<not> (n = getOtherAtomIdx (bonds m ! bi) heavyIdx \<or> n = currIdx))
                 (getAtomNeighbors m heavyIdx) = nbr # rest"
    proof -
      have "getOtherAtomIdx (bonds m ! bi) heavyIdx = getOtherAtomIdx (bonds mol ! bi) heavyIdx"
        using bil by (simp add: getOtherAtomIdx_def sameButDir_nth [OF m(1)])
      then show ?thesis
        using f by (simp only: sameButDir_getAtomNeighbors [OF m(1)])
    qed
    have lm: "bi < length (bonds m)" using bil by (simp add: sameButDir_nth(1) [OF m(1)])
    have "?d = fst (adjustOverBonds m currIdx heavyIdx (pre @ bi # post))"
      using m(2) d deg bb ab(1) by (simp add: adjustStereoAtomsIfRequired_def)
    then have "bonds ?d ! bi = (bonds m ! bi)
                    \<lparr>stereoAtoms := replaceFirst currIdx nbr (stereoAtoms (bonds m ! bi)),
                     stereo := fst (swapStereo (stereo (bonds m ! bi)))\<rparr>"
      using adjustOverBonds_first [OF p1 p2 p3] lm by simp
    then show ?thesis
      using bil by (simp add: sameButDir_nth [OF m(1)] fst_swapStereo split: BondStereo.splits)
  qed
  from step two sub show ?thesis by blast
qed

theorem removeHs_stereo_atoms_witness:
  "removeHsStep exChem False False exCis 3 =
     (removeAtom (detachHydrogen exChem False exCis 3) 3, 3) \<and>
   stereoAtoms (bonds (detachHydrogen exChem False exCis 3) ! 0) = [2, 4] \<and>
   stereo (bonds (detachHydrogen exChem False exCis 3) ! 0) = STEREOTRANS"
proof -
  have a: "atomicNum (atoms exCis ! 3) = 1" "removeIt exCis False 3"
    "getAtomBonds exCis 3 = 2 # []" "getOtherAtomIdx (bonds exCis ! 2) 3 = 0"
    "usesStereoAdjust exCis 0 2" "getAtomBonds exCis 0 = [] @ 0 # [1, 2]"
    "\<forall>b \<in> set []. \<not> namesHydrogen exCis 3 b" "namesHydrogen exCis 3 0"
    by code_simp+
  have d: "getDegree exCis 0 \<noteq> 2" by code_simp
  have f: "filter (\<lambda>n. \<not> (n = getOtherAtomIdx (bonds exCis ! 0) 0 \<or> n = 3))
                 (getAtomNeighbors exCis 0) = 2 # []" by code_simp
  have s: "replaceFirst 3 2 (stereoAtoms (bonds exCis ! 0)) = [2, 4]"
    "stereo (bonds exCis ! 0) = STEREOCIS" by code_simp+
  note t = removeHs_stereo_atoms [OF a, of exChem False]
  from t have t1: "removeHsStep exChem False False exCis 3 =
     (removeAtom (detachHydrogen exChem False exCis 3) 3, 3)" by blast
  from t d f have "stereoAtoms (bonds (detachHydrogen exChem False exCis 3) ! 0) =
                 replaceFirst 3 2 (stereoAtoms (bonds exCis ! 0)) \<and>
               stereo (bonds (detachHydrogen exChem False exCis 3) ! 0) =
                 (case stereo (bonds exCis ! 0) of
                    STEREOCIS \<Rightarrow> STEREOTRANS | STEREOTRANS \<Rightarrow> STEREOCIS | s \<Rightarrow> s)"
    by blast
  then have t2: "stereoAtoms (bonds (detachHydrogen exChem False exCis 3) ! 0) = [2, 4] \<and>
   stereo (bonds (detachHydrogen exChem False exCis 3) ! 0) = STEREOTRANS"
    by (simp add: s)
  from t1 t2 show ?thesis by blast
qed

text \<open>
  C3, as the claim states it, fails for a hydrogen on a bond of unknown direction
  that begins at the heavy atom: the code then only marks the heavy atom and does not
  call \<open>adjustStereoAtomsIfRequired\<close>. In \<open>exWavy\<close> the hydrogen 3 is removed, the
  heavy atom 0 has degree 3 and the other substituent 2, and the cis double bond keeps
  the hydrogen among its stereo atoms and keeps its descriptor.
\<close>

theorem removeHs_wavy_counterexample:
  "atomicNum (atoms exWavy ! 3) = 1 \<and> removeIt exWavy False 3 \<and>
   getAtomBonds exWavy 3 = [2] \<and> getOtherAtomIdx (bonds exWavy ! 2) 3 = 0 \<and>
   getDegree exWavy 0 = 3 \<and> namesHydrogen exWavy 3 0 \<and>
   getAtomNeighbors exWavy 0 = [1, 2, 3] \<and>
   stereoAtoms (bonds (detachHydrogen exChem False exWavy 3) ! 0) = [3, 4] \<and>
   stereo (bonds (detachHydrogen exChem False exWavy 3) ! 0) = STEREOCIS \<and>
   stereo (bonds (fst (removeHsStep exChem False False exWavy 3)) ! 0) = STEREOCIS \<and>
   getNumAtoms (fst (removeHsStep exChem False False exWavy 3)) = 4"
  by code_simp

subsection \<open>Removing hydrogens: which hydrogens stay\<close>

text \<open>
  C4, part (iv), at a hydrogen that carries the \<open>isImplicit\<close> flag. The hydrogen 2
  of \<open>exImine\<close> is a stereo atom of the cis double bond at the nitrogen 0, whose
  only other neighbour is the other end of that double bond. The test that keeps such
  a hydrogen is made only for hydrogens without the flag: \<open>removeHs\<close> with
  \<open>implicitOnly = false\<close> removes the flagged hydrogen and keeps the same hydrogen
  when it is not flagged.
\<close>

theorem removeHs_implicit_stereo_reference:
  "atomicNum (atoms exImine ! 2) = 1 \<and> isImplicit (atoms exImine ! 2) \<and>
   getAtomNeighbors exImine 2 = [0] \<and> getAtomNeighbors exImine 0 = [1, 2] \<and>
   namesHydrogen exImine 2 0 \<and>
   removeIt exImine False 2 \<and>
   \<not> removeIt exImineDrawn False 2 \<and>
   map_sum id (\<lambda>m. map atomicNum (atoms m)) (removeHs exChem exImine False False False)
     = Inr [7, 6, 6] \<and>
   map_sum id (\<lambda>m. map atomicNum (atoms m)) (removeHs exChem exImineDrawn False False False)
     = Inr [7, 6, 1, 6]"
  by code_simp

theorem removeHs_implicit_stereo_reference_witness:
  "removeIt exImine False 2 \<and> \<not> removeIt exImineDrawn False 2"
  using removeHs_implicit_stereo_reference by blast

subsection \<open>The round trip of \<open>addHs\<close> and \<open>removeHs\<close>\<close>


lemma ends_nth: "k < length (bonds mol) \<Longrightarrow>
   ends mol ! k = (beginAtomIdx (bonds mol ! k), endAtomIdx (bonds mol ! k))"
  by (simp add: ends_def)

lemma incident_touches: "incident i b = touches i (beginAtomIdx b, endAtomIdx b)"
  by (simp add: incident_def touches_def)

lemma other_otherEnd: "getOtherAtomIdx b i = otherEnd (beginAtomIdx b, endAtomIdx b) i"
  by (simp add: getOtherAtomIdx_def otherEnd_def)

lemma removeIt_on_top:
  assumes "hydrogensOnTop n mol" and "n \<le> i" and "i < length (atoms mol)"
  shows "removeIt mol implicitOnly i"
proof -
  have fh: "flaggedHydrogen (atoms mol ! i)"
    and ex: "\<exists>p \<in> set (ends mol). touches i p"
    and al: "\<forall>p \<in> set (ends mol). touches i p \<longrightarrow>
               \<not> atomicNum (atoms mol ! otherEnd p i) < 1"
    using assms by (auto simp: hydrogensOnTop_def)
  from ex obtain k where k: "k < length (bonds mol)" "incident i (bonds mol ! k)"
    by (auto simp: ends_def incident_touches in_set_conv_nth)
  then have "k \<in> set (getAtomBonds mol i)" by (simp add: getAtomBonds_def)
  then obtain hb others where g: "getAtomBonds mol i = hb # others"
    by (cases "getAtomBonds mol i") auto
  then have "hb \<in> set (getAtomBonds mol i)" by simp
  then have hb: "hb < length (bonds mol)" "incident i (bonds mol ! hb)"
    by (simp_all add: getAtomBonds_def)
  have "ends mol ! hb \<in> set (ends mol)" using hb(1) by (simp add: ends_def)
  then have "\<not> atomicNum (atoms mol ! otherEnd (ends mol ! hb) i) < 1"
    using al hb by (simp add: ends_nth incident_touches)
  then have nb: "\<not> atomicNum (atoms mol ! getOtherAtomIdx (bonds mol ! hb) i) < 1"
    using hb(1) by (simp add: other_otherEnd ends_nth)
  show ?thesis
    using fh nb by (simp add: removeIt_def g flaggedHydrogen_def Let_def)
qed

lemma ends_setHeavy: "ends (setHeavy mol i f) = ends mol"
  by (simp add: ends_def setHeavy_def)

lemma ends_bond_update:
  assumes "beginAtomIdx b' = beginAtomIdx (bonds mol ! k)"
    and "endAtomIdx b' = endAtomIdx (bonds mol ! k)"
  shows "ends (mol\<lparr>bonds := (bonds mol)[k := b']\<rparr>) = ends mol"
  using assms
  by (cases "k < length (bonds mol)")
     (simp_all add: ends_def map_update list_update_same_conv list_update_beyond)

lemma ends_adjustOverBonds: "ends (fst (adjustOverBonds mol a h bs)) = ends mol"
  by (induction bs) (auto simp: Let_def ends_bond_update split: list.splits)

lemma ends_adjustStereo: "ends (fst (adjustStereoAtomsIfRequired mol a h)) = ends mol"
  by (simp add: adjustStereoAtomsIfRequired_def ends_adjustOverBonds)

lemma ends_copyDirection: "ends (copyDirection mol h b) = ends mol"
  by (simp add: copyDirection_def Let_def ends_bond_update split: list.splits)

lemma ends_detach: "ends (detachHydrogen ch u mol idx) = ends mol"
  by (simp add: detachHydrogen_def Let_def ends_adjustStereo ends_copyDirection ends_setHeavy
      split: list.splits)

lemma coreSame_refl: "coreSame a a"
  by (simp add: coreSame_def)

lemma coreSame_trans: "coreSame a b \<Longrightarrow> coreSame b c \<Longrightarrow> coreSame a c"
  by (simp add: coreSame_def)

lemma coreSame_setHeavy:
  assumes "\<And>a. coreSame a (f a)"
  shows "coreSame (atoms mol ! i) (atoms (setHeavy mol h f) ! i)"
  using assms
  by (cases "h < length (atoms mol)")
     (simp_all add: setHeavy_def nth_list_update coreSame_refl list_update_beyond)

lemma coreSame_detach:
  "coreSame (atoms mol ! i) (atoms (detachHydrogen ch u mol idx) ! i)"
proof (cases "getAtomBonds mol idx")
  case Nil
  then show ?thesis by (simp add: detachHydrogen_def coreSame_refl)
next
  case (Cons hBond others)
  let ?h = "getOtherAtomIdx (bonds mol ! hBond) idx"
  let ?mol1 = "if countsAsExplicit ch u (atoms mol ! ?h)
               then setHeavy mol ?h (\<lambda>a. a\<lparr>numExplicitHs := numExplicitHs a + 1\<rparr>)
               else mol"
  let ?mol2 = "setHeavy ?mol1 ?h (\<lambda>a. a\<lparr>chiralTag := fixedChiralTag ?mol1 ?h hBond\<rparr>)"
  let ?mol3 = "setHeavy ?mol2 ?h (\<lambda>a. a\<lparr>unknownStereo := True\<rparr>)"
  have "coreSame (atoms mol ! i)
          (atoms (setHeavy mol ?h (\<lambda>a. a\<lparr>numExplicitHs := numExplicitHs a + 1\<rparr>)) ! i)"
    by (rule coreSame_setHeavy) (simp add: coreSame_def)
  then have c1: "coreSame (atoms mol ! i) (atoms ?mol1 ! i)"
    by (simp add: coreSame_refl)
  have c2: "coreSame (atoms ?mol1 ! i) (atoms ?mol2 ! i)"
    by (rule coreSame_setHeavy) (simp add: coreSame_def)
  have c3: "coreSame (atoms ?mol2 ! i) (atoms ?mol3 ! i)"
    by (rule coreSame_setHeavy) (simp add: coreSame_def)
  have a2: "coreSame (atoms mol ! i) (atoms ?mol2 ! i)"
    using coreSame_trans [OF c1 c2] .
  have a3: "coreSame (atoms mol ! i) (atoms ?mol3 ! i)"
    using coreSame_trans [OF a2 c3] .
  have "atoms (detachHydrogen ch u mol idx) = atoms ?mol2 \<or>
        atoms (detachHydrogen ch u mol idx) = atoms ?mol3"
    unfolding detachHydrogen_def Cons list.case Let_def
    by (simp add: atoms_adjustStereo atoms_copyDirection)
  then show ?thesis using a2 a3 by auto
qed

lemma atoms_removeAtom: "atoms (removeAtom mol c) = dropAt c (atoms mol)"
  by (simp add: removeAtom_def)

lemma ends_removeAtom:
  "ends (removeAtom mol c) =
     map (\<lambda>p. (renumber c (fst p), renumber c (snd p)))
       (filter (\<lambda>p. \<not> touches c p) (ends mol))"
  by (simp add: ends_def removeAtom_def filter_map o_def incident_touches renumberBond_def)

lemma dropAt_nth_below: "i < c \<Longrightarrow> c < length xs \<Longrightarrow> dropAt c xs ! i = xs ! i"
  by (simp add: dropAt_def nth_append)

lemma dropAt_nth_above: "c \<le> i \<Longrightarrow> c < length xs \<Longrightarrow> dropAt c xs ! i = xs ! Suc i"
  by (simp add: dropAt_def nth_append min_def)

lemma renumber_lt: "x \<noteq> n \<Longrightarrow> x < L \<Longrightarrow> n < L \<Longrightarrow> renumber n x < L - 1"
  by (auto simp: renumber_def)

lemma renumber_below: "x < n \<Longrightarrow> renumber n x = x"
  by (simp add: renumber_def)

lemma renumber_hits: "renumber n x = i \<Longrightarrow> x \<noteq> n \<Longrightarrow> n \<le> i \<Longrightarrow> x = Suc i"
  by (auto simp: renumber_def split: if_splits)

lemma renumber_Suc: "n \<le> i \<Longrightarrow> renumber n (Suc i) = i"
  by (simp add: renumber_def)

lemma top_cong:
  assumes "hydrogensOnTop n m"
    and "length (atoms m') = length (atoms m)" and "ends m' = ends m"
    and "\<And>i. atomicNum (atoms m' ! i) = atomicNum (atoms m ! i)"
    and "\<And>i. flaggedHydrogen (atoms m' ! i) = flaggedHydrogen (atoms m ! i)"
  shows "hydrogensOnTop n m'"
  using assms(1) unfolding hydrogensOnTop_def assms(2) assms(3) assms(4) assms(5) .

lemma coreSame_kind:
  assumes "coreSame a a'"
  shows "atomicNum a' = atomicNum a" and "flaggedHydrogen a' = flaggedHydrogen a"
  using assms by (simp_all add: coreSame_def flaggedHydrogen_def)

lemma top_detach:
  assumes "hydrogensOnTop n m"
  shows "hydrogensOnTop n (detachHydrogen ch u m idx)"
  using assms length_atoms_detach ends_detach
    coreSame_kind(1) [OF coreSame_detach] coreSame_kind(2) [OF coreSame_detach]
  by (rule top_cong)

lemma top_removeAtom:
  assumes top: "hydrogensOnTop n d" and nl: "n < length (atoms d)"
  shows "hydrogensOnTop n (removeAtom d n)"
proof -
  let ?L = "length (atoms d)"
  let ?r = "removeAtom d n"
  have len: "length (atoms ?r) = ?L - 1"
    using nl by (simp add: atoms_removeAtom length_dropAt)
  have below: "atoms ?r ! i = atoms d ! i" if "i < n" for i
    using that nl by (simp add: atoms_removeAtom dropAt_nth_below)
  have above: "atoms ?r ! i = atoms d ! Suc i" if "n \<le> i" for i
    using that nl by (simp add: atoms_removeAtom dropAt_nth_above)
  have rng: "\<forall>p \<in> set (ends d). fst p < ?L \<and> snd p < ?L"
    using top by (simp add: hydrogensOnTop_def)
  have mem: "p' \<in> set (ends ?r) \<longleftrightarrow>
      (\<exists>a b. (a, b) \<in> set (ends d) \<and> a \<noteq> n \<and> b \<noteq> n \<and> p' = (renumber n a, renumber n b))"
    for p'
    unfolding ends_removeAtom by (force simp: touches_def)
  have c1: "n \<le> length (atoms ?r)" using len nl by simp
  have c2: "\<forall>p \<in> set (ends ?r). fst p < length (atoms ?r) \<and> snd p < length (atoms ?r)"
  proof
    fix p' assume "p' \<in> set (ends ?r)"
    then obtain a b where ab: "(a, b) \<in> set (ends d)" "a \<noteq> n" "b \<noteq> n"
      "p' = (renumber n a, renumber n b)" using mem by blast
    then have "a < ?L" "b < ?L" using rng by auto
    then show "fst p' < length (atoms ?r) \<and> snd p' < length (atoms ?r)"
      using ab nl renumber_lt [of a n ?L] renumber_lt [of b n ?L] by (simp add: len)
  qed
  have c3: "\<forall>i < n. atomicNum (atoms ?r ! i) \<noteq> 1"
    using top below by (simp add: hydrogensOnTop_def)
  have c4: "flaggedHydrogen (atoms ?r ! i) \<and>
         (\<exists>p \<in> set (ends ?r). touches i p) \<and>
         (\<forall>p \<in> set (ends ?r). touches i p \<longrightarrow>
            otherEnd p i < n \<and> \<not> atomicNum (atoms ?r ! otherEnd p i) < 1)"
    if i: "n \<le> i" "i < length (atoms ?r)" for i
  proof -
    have si: "n \<le> Suc i" "Suc i < ?L" using i len by simp_all
    have old: "flaggedHydrogen (atoms d ! Suc i)"
      "\<exists>p \<in> set (ends d). touches (Suc i) p"
      "\<forall>p \<in> set (ends d). touches (Suc i) p \<longrightarrow>
            otherEnd p (Suc i) < n \<and> \<not> atomicNum (atoms d ! otherEnd p (Suc i)) < 1"
      using top si by (auto simp: hydrogensOnTop_def)
    have g1: "flaggedHydrogen (atoms ?r ! i)" using old(1) above i(1) by simp
    from old(2) obtain a b where ab: "(a, b) \<in> set (ends d)" "touches (Suc i) (a, b)"
      by auto
    have oe: "otherEnd (a, b) (Suc i) < n" using old(3) ab by blast
    have nn: "a \<noteq> n" "b \<noteq> n"
      using ab(2) oe i(1) by (auto simp: touches_def otherEnd_def split: if_splits)
    have "(renumber n a, renumber n b) \<in> set (ends ?r)" using mem ab(1) nn by blast
    moreover have "touches i (renumber n a, renumber n b)"
      using ab(2) i(1) by (auto simp: touches_def renumber_Suc)
    ultimately have g2: "\<exists>p \<in> set (ends ?r). touches i p" by blast
    have g3: "\<forall>p \<in> set (ends ?r). touches i p \<longrightarrow>
            otherEnd p i < n \<and> \<not> atomicNum (atoms ?r ! otherEnd p i) < 1"
    proof (intro ballI impI)
      fix p' assume p': "p' \<in> set (ends ?r)" and t: "touches i p'"
      from p' obtain a b where q: "(a, b) \<in> set (ends d)" "a \<noteq> n" "b \<noteq> n"
        "p' = (renumber n a, renumber n b)" using mem by blast
      have "renumber n a = i \<or> renumber n b = i"
        using t q(4) by (simp add: touches_def)
      then have "a = Suc i \<or> b = Suc i"
        using renumber_hits [of n a i] renumber_hits [of n b i] q(2,3) i(1) by blast
      then have tt: "touches (Suc i) (a, b)"
        by (simp add: touches_def)
      then have o: "otherEnd (a, b) (Suc i) < n"
        "\<not> atomicNum (atoms d ! otherEnd (a, b) (Suc i)) < 1"
        using old(3) q(1) by blast+
      have e: "otherEnd p' i = otherEnd (a, b) (Suc i)"
      proof (cases "a = Suc i")
        case True
        then have "b < n" using o(1) by (simp add: otherEnd_def)
        then show ?thesis using True i(1) q(4)
          by (simp add: otherEnd_def renumber_Suc renumber_below)
      next
        case False
        then have b: "b = Suc i" using tt by (simp add: touches_def)
        have a: "a < n" using o(1) False by (simp add: otherEnd_def)
        then have "renumber n a \<noteq> i" using i(1) by (simp add: renumber_below)
        then show ?thesis using False a q(4)
          by (simp add: otherEnd_def renumber_below)
      qed
      show "otherEnd p' i < n \<and> \<not> atomicNum (atoms ?r ! otherEnd p' i) < 1"
        using o e below by simp
    qed
    from g1 g2 g3 show ?thesis by blast
  qed
  show ?thesis
    unfolding hydrogensOnTop_def using c1 c2 c3 c4 by blast
qed

lemma restore_atoms:
  "length (atoms (restoreNoImplicit m c)) = length (atoms m)"
  "ends (restoreNoImplicit m c) = ends m"
  "atomicNum (atoms (restoreNoImplicit m c) ! i) = atomicNum (atoms m ! i)"
  "flaggedHydrogen (atoms (restoreNoImplicit m c) ! i) = flaggedHydrogen (atoms m ! i)"
  "implicitValence (atoms (restoreNoImplicit m c) ! i) = implicitValence (atoms m ! i)"
  "i \<noteq> c \<Longrightarrow> atoms (restoreNoImplicit m c) ! i = atoms m ! i"
  by (cases "c < length (atoms m)";
      simp add: restoreNoImplicit_def setHeavy_def ends_def nth_list_update flaggedHydrogen_def
        list_update_beyond split: option.splits)+

lemma restore_flag:
  "c < length (atoms m) \<Longrightarrow> origNoImplicit (atoms m ! c) = Some v \<Longrightarrow>
   noImplicit (atoms (restoreNoImplicit m c) ! c) = v"
  by (simp add: restoreNoImplicit_def setHeavy_def)

lemma removeHsLoop_restores:
  "hydrogensOnTop n m \<Longrightarrow> c \<le> n \<Longrightarrow>
   (\<forall>i < n. implicitValence (atoms m ! i) = IV i) \<Longrightarrow>
   (\<forall>i < n. i < c \<longrightarrow> noImplicit (atoms m ! i) = NI i) \<Longrightarrow>
   (\<forall>i < n. c \<le> i \<longrightarrow> origNoImplicit (atoms m ! i) = Some (NI i)) \<Longrightarrow>
   length (atoms (removeHsLoop ch io ue m c)) = n \<and>
   (\<forall>i < n. implicitValence (atoms (removeHsLoop ch io ue m c) ! i) = IV i \<and>
             noImplicit (atoms (removeHsLoop ch io ue m c) ! i) = NI i)"
proof (induction ch io ue m c rule: removeHsLoop.induct)
  case (1 ch io ue m c)
  have nlen: "n \<le> length (atoms m)" using "1.prems"(1) by (simp add: hydrogensOnTop_def)
  show ?case
  proof (cases "c < getNumAtoms m")
    case False
    then have "length (atoms m) = n" "c = n"
      using nlen "1.prems"(2) by (simp_all add: getNumAtoms_def)
    moreover have "removeHsLoop ch io ue m c = m"
      using False by (subst removeHsLoop.simps) simp
    ultimately show ?thesis using "1.prems" by simp
  next
    case True
    obtain m' nxt where st: "removeHsStep ch io ue m c = (m', nxt)"
      by (cases "removeHsStep ch io ue m c")
    have unf: "removeHsLoop ch io ue m c = removeHsLoop ch io ue m' nxt"
      using True st by (subst removeHsLoop.simps) simp
    have IH: "hydrogensOnTop n m' \<Longrightarrow> nxt \<le> n \<Longrightarrow>
       (\<forall>i < n. implicitValence (atoms m' ! i) = IV i) \<Longrightarrow>
       (\<forall>i < n. i < nxt \<longrightarrow> noImplicit (atoms m' ! i) = NI i) \<Longrightarrow>
       (\<forall>i < n. nxt \<le> i \<longrightarrow> origNoImplicit (atoms m' ! i) = Some (NI i)) \<Longrightarrow>
       length (atoms (removeHsLoop ch io ue m' nxt)) = n \<and>
       (\<forall>i < n. implicitValence (atoms (removeHsLoop ch io ue m' nxt) ! i) = IV i \<and>
             noImplicit (atoms (removeHsLoop ch io ue m' nxt) ! i) = NI i)"
      using "1.IH" [OF True st [symmetric]] by blast
    show ?thesis
    proof (cases "c < n")
      case cn: True
      then have nh: "atomicNum (atoms m ! c) \<noteq> 1"
        using "1.prems"(1) by (simp add: hydrogensOnTop_def)
      then have e: "m' = restoreNoImplicit m c" "nxt = Suc c"
        using st by (simp_all add: removeHsStep_def)
      have clen: "c < length (atoms m)" using True by (simp add: getNumAtoms_def)
      have t: "hydrogensOnTop n m'"
        unfolding e using "1.prems"(1) restore_atoms(1-4) by (rule top_cong)
      have o: "origNoImplicit (atoms m ! c) = Some (NI c)" using "1.prems"(5) cn by simp
      have p3: "\<forall>i < n. implicitValence (atoms m' ! i) = IV i"
        using "1.prems"(3) by (simp add: e restore_atoms)
      have p4: "\<forall>i < n. i < nxt \<longrightarrow> noImplicit (atoms m' ! i) = NI i"
      proof (intro allI impI)
        fix i assume "i < n" "i < nxt"
        then show "noImplicit (atoms m' ! i) = NI i"
          using "1.prems"(4) restore_flag [OF clen o] restore_atoms(6) [of i c m]
          by (cases "i = c") (simp_all add: e)
      qed
      have p5: "\<forall>i < n. nxt \<le> i \<longrightarrow> origNoImplicit (atoms m' ! i) = Some (NI i)"
        using "1.prems"(5) by (simp add: e restore_atoms(6))
      show ?thesis unfolding unf using IH [OF t _ p3 p4 p5] cn e by simp
    next
      case False
      then have c: "c = n" using "1.prems"(2) by simp
      have nl: "n < length (atoms m)" using True c by (simp add: getNumAtoms_def)
      have fh: "flaggedHydrogen (atoms m ! n)"
        using "1.prems"(1) nl by (simp add: hydrogensOnTop_def)
      have ri: "removeIt m io n" using removeIt_on_top [OF "1.prems"(1) _ nl] by simp
      let ?d = "detachHydrogen ch ue m n"
      have e: "m' = removeAtom ?d n" "nxt = n"
        using st fh ri by (auto simp: removeHsStep_def c flaggedHydrogen_def)
      have dl: "n < length (atoms ?d)" using nl by (simp add: length_atoms_detach)
      have t: "hydrogensOnTop n m'"
        unfolding e using top_removeAtom [OF top_detach [OF "1.prems"(1)] dl] .
      have at: "coreSame (atoms m ! i) (atoms m' ! i)" if "i < n" for i
        using that dl coreSame_detach [of m i ch ue n]
        by (simp add: e atoms_removeAtom dropAt_nth_below)
      have p3: "\<forall>i < n. implicitValence (atoms m' ! i) = IV i"
        using "1.prems"(3) at by (simp add: coreSame_def)
      have p4: "\<forall>i < n. i < nxt \<longrightarrow> noImplicit (atoms m' ! i) = NI i"
        using "1.prems"(4) at c by (simp add: coreSame_def)
      have p5: "\<forall>i < n. nxt \<le> i \<longrightarrow> origNoImplicit (atoms m' ! i) = Some (NI i)"
        by (simp add: e)
      show ?thesis unfolding unf using IH [OF t _ p3 p4 p5] e by simp
    qed
  qed
qed

lemma upc_effect:
  assumes "updatePropertyCache ch s m i = Some m'"
  shows "\<exists>ev iv. calcValences ch s m i = Some (ev, iv) \<and>
           m' = m\<lparr>atoms := (atoms m)[i := (atoms m ! i)\<lparr>explicitValence := ev,
                                                         implicitValence := iv\<rparr>]\<rparr>"
  using assms by (auto simp: updatePropertyCache_def split: option.splits)

lemma upc_frame:
  assumes "updatePropertyCache ch s m i = Some m'"
  shows "length (atoms m') = length (atoms m)" and "ends m' = ends m"
    and "atomicNum (atoms m' ! j) = atomicNum (atoms m ! j)"
    and "flaggedHydrogen (atoms m' ! j) = flaggedHydrogen (atoms m ! j)"
    and "noImplicit (atoms m' ! j) = noImplicit (atoms m ! j)"
    and "origNoImplicit (atoms m' ! j) = origNoImplicit (atoms m ! j)"
    and "numExplicitHs (atoms m' ! j) = numExplicitHs (atoms m ! j)"
    and "j \<noteq> i \<Longrightarrow> atoms m' ! j = atoms m ! j"
    and "keepsCachedCount ch \<Longrightarrow> noImplicit (atoms m ! i) \<Longrightarrow>
         implicitValence (atoms m' ! j) = implicitValence (atoms m ! j)"
proof -
  from upc_effect [OF assms] obtain ev iv where
    c: "calcValences ch s m i = Some (ev, iv)" and
    m': "m' = m\<lparr>atoms := (atoms m)[i := (atoms m ! i)\<lparr>explicitValence := ev,
                                                         implicitValence := iv\<rparr>]\<rparr>"
    by blast
  show "length (atoms m') = length (atoms m)" by (simp add: m')
  show "ends m' = ends m" by (simp add: m' ends_def)
  show "atomicNum (atoms m' ! j) = atomicNum (atoms m ! j)"
    by (cases "i < length (atoms m)") (simp_all add: m' nth_list_update list_update_beyond)
  show "flaggedHydrogen (atoms m' ! j) = flaggedHydrogen (atoms m ! j)"
    by (cases "i < length (atoms m)")
       (simp_all add: m' nth_list_update list_update_beyond flaggedHydrogen_def)
  show "noImplicit (atoms m' ! j) = noImplicit (atoms m ! j)"
    by (cases "i < length (atoms m)") (simp_all add: m' nth_list_update list_update_beyond)
  show "origNoImplicit (atoms m' ! j) = origNoImplicit (atoms m ! j)"
    by (cases "i < length (atoms m)") (simp_all add: m' nth_list_update list_update_beyond)
  show "numExplicitHs (atoms m' ! j) = numExplicitHs (atoms m ! j)"
    by (cases "i < length (atoms m)") (simp_all add: m' nth_list_update list_update_beyond)
  show "j \<noteq> i \<Longrightarrow> atoms m' ! j = atoms m ! j"
    by (simp add: m')
  show "implicitValence (atoms m' ! j) = implicitValence (atoms m ! j)"
    if k: "keepsCachedCount ch" and n: "noImplicit (atoms m ! i)"
  proof -
    have "iv = implicitValence (atoms m ! i)"
      using k n c unfolding keepsCachedCount_def by blast
    then show ?thesis
      by (cases "i < length (atoms m)") (simp_all add: m' nth_list_update list_update_beyond)
  qed
qed

lemma upc_top:
  assumes "updatePropertyCache ch s m i = Some m'" and "hydrogensOnTop n m"
  shows "hydrogensOnTop n m'"
  using assms(2) upc_frame(1-4) [OF assms(1)] by (rule top_cong)

lemma refreshCaches_keeps:
  assumes kc: "keepsCachedCount ch"
  shows "hydrogensOnTop n m \<Longrightarrow> \<forall>i \<in> set is. i < length (atoms m) \<Longrightarrow>
     (\<forall>i < n. implicitValence (atoms m ! i) = IV i \<and> noImplicit (atoms m ! i) \<and>
               origNoImplicit (atoms m ! i) = Some (NI i)) \<Longrightarrow>
     \<exists>m1. refreshCaches ch m is = Inr m1 \<and> hydrogensOnTop n m1 \<and>
       (\<forall>i < n. implicitValence (atoms m1 ! i) = IV i \<and> noImplicit (atoms m1 ! i) \<and>
                origNoImplicit (atoms m1 ! i) = Some (NI i))"
proof (induction "is" arbitrary: m)
  case Nil
  then show ?case by simp
next
  case (Cons i rest)
  show ?case
  proof (cases "atomicNum (atoms m ! i) = 1")
    case True
    then show ?thesis using Cons.IH [of m] Cons.prems by simp
  next
    case False
    have il: "i < length (atoms m)" using Cons.prems(2) by simp
    have "i < n"
    proof (rule ccontr)
      assume "\<not> i < n"
      then have "flaggedHydrogen (atoms m ! i)"
        using Cons.prems(1) il by (simp add: hydrogensOnTop_def)
      then show False using False by (simp add: flaggedHydrogen_def)
    qed
    then have ni: "noImplicit (atoms m ! i)" using Cons.prems(3) by simp
    have "calcValences ch False m i \<noteq> None" using kc by (simp add: keepsCachedCount_def)
    then obtain m' where u: "updatePropertyCache ch False m i = Some m'"
      by (auto simp: updatePropertyCache_def split: option.splits)
    have t: "hydrogensOnTop n m'" using upc_top [OF u Cons.prems(1)] .
    have r: "\<forall>i \<in> set rest. i < length (atoms m')"
      using Cons.prems(2) upc_frame(1) [OF u] by simp
    have p: "\<forall>j < n. implicitValence (atoms m' ! j) = IV j \<and> noImplicit (atoms m' ! j) \<and>
               origNoImplicit (atoms m' ! j) = Some (NI j)"
      using Cons.prems(3) upc_frame(5,6) [OF u] upc_frame(9) [OF u kc ni] by simp
    from Cons.IH [OF t r p] show ?thesis using False u by simp
  qed
qed

lemma addHydrogen_top:
  assumes top: "hydrogensOnTop n m" and kn: "k < n"
    and heavy: "\<not> atomicNum (atoms m ! k) < 1"
    and add: "addHydrogen ch sv ac True m k = Some m'"
  shows "hydrogensOnTop n m'"
    and "length (atoms m') = Suc (length (atoms m))"
    and "\<forall>j < length (atoms m). atoms m' ! j = atoms m ! j"
proof -
  let ?L = "length (atoms m)"
  from addHydrogen_atoms [OF add] obtain h where
    a: "atoms m' = atoms m @ [h]" and h: "flaggedHydrogen h"
    and b: "bonds m' = bonds m @ [newBond k ?L SINGLE]"
    by (auto simp: flaggedHydrogen_def getNumAtoms_def)
  have e: "ends m' = ends m @ [(k, ?L)]"
    by (simp add: ends_def b newBond_def)
  have nL: "n \<le> ?L" using top by (simp add: hydrogensOnTop_def)
  have old: "\<forall>j < ?L. atoms m' ! j = atoms m ! j" by (simp add: a nth_append)
  have rng: "\<forall>p \<in> set (ends m). fst p < ?L \<and> snd p < ?L"
    using top by (simp add: hydrogensOnTop_def)
  show "length (atoms m') = Suc ?L" by (simp add: a)
  show "\<forall>j < ?L. atoms m' ! j = atoms m ! j" by (rule old)
  have c2: "\<forall>p \<in> set (ends m'). fst p < length (atoms m') \<and> snd p < length (atoms m')"
    using rng kn nL by (auto simp: e a)
  have c3: "\<forall>i < n. atomicNum (atoms m' ! i) \<noteq> 1"
    using top old nL by (simp add: hydrogensOnTop_def)
  have c4: "flaggedHydrogen (atoms m' ! i) \<and>
         (\<exists>p \<in> set (ends m'). touches i p) \<and>
         (\<forall>p \<in> set (ends m'). touches i p \<longrightarrow>
            otherEnd p i < n \<and> \<not> atomicNum (atoms m' ! otherEnd p i) < 1)"
    if i: "n \<le> i" "i < length (atoms m')" for i
  proof (cases "i < ?L")
    case True
    have o: "flaggedHydrogen (atoms m ! i)" "\<exists>p \<in> set (ends m). touches i p"
      "\<forall>p \<in> set (ends m). touches i p \<longrightarrow>
            otherEnd p i < n \<and> \<not> atomicNum (atoms m ! otherEnd p i) < 1"
      using top i(1) True by (auto simp: hydrogensOnTop_def)
    have nt: "\<not> touches i (k, ?L)" using True kn i(1) by (simp add: touches_def)
    have "\<forall>p \<in> set (ends m'). touches i p \<longrightarrow>
            otherEnd p i < n \<and> \<not> atomicNum (atoms m' ! otherEnd p i) < 1"
      using o(3) nt old nL by (auto simp: e)
    then show ?thesis using o(1,2) old True by (auto simp: e)
  next
    case False
    then have iL: "i = ?L" using i(2) by (simp add: a)
    have f: "flaggedHydrogen (atoms m' ! i)" using h by (simp add: iL a)
    have t: "touches i (k, ?L)" by (simp add: touches_def iL)
    have oe: "otherEnd (k, ?L) i = k" using kn nL by (simp add: otherEnd_def iL)
    have nto: "\<forall>p \<in> set (ends m). \<not> touches i p"
      using rng by (auto simp: touches_def iL)
    have "\<forall>p \<in> set (ends m'). touches i p \<longrightarrow>
            otherEnd p i < n \<and> \<not> atomicNum (atoms m' ! otherEnd p i) < 1"
      using nto oe kn heavy old nL by (auto simp: e)
    then show ?thesis using f t by (auto simp: e)
  qed
  show "hydrogensOnTop n m'"
    unfolding hydrogensOnTop_def using nL c2 c3 c4 by (simp add: a)
qed

lemma addImplicitHs_top:
  "addImplicitHs ch sv ac m k i = Some m' \<Longrightarrow> hydrogensOnTop n m \<Longrightarrow> k < n \<Longrightarrow>
   (0 < getNumImplicitHs (atoms m ! k) \<longrightarrow> \<not> atomicNum (atoms m ! k) < 1) \<Longrightarrow>
   hydrogensOnTop n m' \<and> length (atoms m) \<le> length (atoms m') \<and>
   (\<forall>j < length (atoms m). atoms m' ! j = atoms m ! j)"
proof (induction ch sv ac m k i rule: addImplicitHs.induct)
  case (1 ch sv ac m k i)
  have kl: "k < getNumAtoms m"
    using "1.prems"(2,3) by (simp add: hydrogensOnTop_def getNumAtoms_def)
  show ?case
  proof (cases "i < getNumImplicitHs (atoms m ! k)")
    case False
    then have "m' = m" using "1.prems"(1) kl by (subst (asm) addImplicitHs.simps) simp
    then show ?thesis using "1.prems"(2) by simp
  next
    case True
    then obtain m1 where a: "addHydrogen ch sv ac True m k = Some m1"
      and r: "addImplicitHs ch sv ac m1 k (Suc i) = Some m'"
      using "1.prems"(1) kl
      by (subst (asm) addImplicitHs.simps) (auto split: option.splits)
    have hv: "\<not> atomicNum (atoms m ! k) < 1" using True "1.prems"(4) by simp
    note s = addHydrogen_top [OF "1.prems"(2,3) hv a]
    have same: "atoms m1 ! k = atoms m ! k" using s(3) kl by (simp add: getNumAtoms_def)
    have "hydrogensOnTop n m' \<and> length (atoms m1) \<le> length (atoms m') \<and>
          (\<forall>j < length (atoms m1). atoms m' ! j = atoms m1 ! j)"
      using "1.IH" [OF _ True a r s(1) "1.prems"(3)] kl "1.prems"(4) same by simp
    then show ?thesis using s(2,3) by simp
  qed
qed

lemma setHeavy_nth:
  "atoms (setHeavy m k f) ! j = (if j = k \<and> k < length (atoms m) then f (atoms m ! k)
                                 else atoms m ! j)"
  by (cases "k < length (atoms m)") (simp_all add: setHeavy_def nth_list_update list_update_beyond)

lemma setHeavy_top:
  assumes "hydrogensOnTop n m"
    and "\<And>a. atomicNum (f a) = atomicNum a"
    and "\<And>a. flaggedHydrogen (f a) = flaggedHydrogen a"
  shows "hydrogensOnTop n (setHeavy m k f)"
  using assms(1)
proof (rule top_cong)
  show "length (atoms (setHeavy m k f)) = length (atoms m)" by (simp add: setHeavy_def)
  show "ends (setHeavy m k f) = ends m" by (rule ends_setHeavy)
  show "atomicNum (atoms (setHeavy m k f) ! i) = atomicNum (atoms m ! i)" for i
    by (simp add: setHeavy_nth assms(2))
  show "flaggedHydrogen (atoms (setHeavy m k f) ! i) = flaggedHydrogen (atoms m ! i)" for i
    by (simp add: setHeavy_nth assms(3))
qed

lemma addHsAt_step:
  assumes inv: "addedUpTo n IV NI k m" and kn: "k < n" and kc: "keepsCachedCount ch"
    and add: "addHsAt ch sv False ac m k = Some m'"
  shows "addedUpTo n IV NI (Suc k) m'"
proof -
  have top: "hydrogensOnTop n m" using inv by (simp add: addedUpTo_def)
  have nl: "n \<le> length (atoms m)" using top by (simp add: hydrogensOnTop_def)
  have kl: "k < length (atoms m)" using kn nl by simp
  have ak: "implicitValence (atoms m ! k) = IV k" "noImplicit (atoms m ! k) = NI k"
    "numExplicitHs (atoms m ! k) = 0"
    "atomicNum (atoms m ! k) < 1 \<longrightarrow> getNumImplicitHs (atoms m ! k) = 0"
    using inv kn by (simp_all add: addedUpTo_def)
  let ?m2 = "setHeavy m k (\<lambda>a. a\<lparr>numExplicitHs := 0\<rparr>)"
  from add obtain m3 where
    a3: "addImplicitHs ch sv ac ?m2 k 0 = Some m3" and
    u: "updatePropertyCache ch True
          (setHeavy m3 k (\<lambda>a. a\<lparr>origNoImplicit := Some (noImplicit a), noImplicit := True\<rparr>))
          k = Some m'"
    by (auto simp: addHsAt_def ak(3) Let_def split: option.splits)
  let ?m4 = "setHeavy m3 k (\<lambda>a. a\<lparr>origNoImplicit := Some (noImplicit a), noImplicit := True\<rparr>)"
  have t2: "hydrogensOnTop n ?m2"
    using top by (rule setHeavy_top) (simp_all add: flaggedHydrogen_def)
  have l2: "length (atoms ?m2) = length (atoms m)" by (simp add: setHeavy_def)
  have k2: "atoms ?m2 ! k = (atoms m ! k)\<lparr>numExplicitHs := 0\<rparr>"
    using kl by (simp add: setHeavy_nth)
  have pre: "0 < getNumImplicitHs (atoms ?m2 ! k) \<longrightarrow> \<not> atomicNum (atoms ?m2 ! k) < 1"
    using ak(4) by (auto simp: k2 getNumImplicitHs_def)
  from addImplicitHs_top [OF a3 t2 kn pre] have
    t3: "hydrogensOnTop n m3" and l3: "length (atoms m) \<le> length (atoms m3)"
    and s3: "\<forall>j < length (atoms m). atoms m3 ! j = atoms ?m2 ! j"
    by (simp_all add: l2)
  have k3: "k < length (atoms m3)" using kl l3 by simp
  have t4: "hydrogensOnTop n ?m4"
    using t3 by (rule setHeavy_top) (simp_all add: flaggedHydrogen_def)
  have k4: "noImplicit (atoms ?m4 ! k)" using k3 by (simp add: setHeavy_nth)
  have t': "hydrogensOnTop n m'" using upc_top [OF u t4] .
  have chain: "atoms m' ! i = atoms m ! i" if "i < n" "i \<noteq> k" for i
  proof -
    have "atoms m' ! i = atoms ?m4 ! i" using upc_frame(8) [OF u that(2)] .
    also have "\<dots> = atoms m3 ! i" using that(2) by (simp add: setHeavy_nth)
    also have "\<dots> = atoms ?m2 ! i" using s3 that(1) nl by simp
    also have "\<dots> = atoms m ! i" using that(2) by (simp add: setHeavy_nth)
    finally show ?thesis .
  qed
  have atk: "atoms ?m4 ! k =
      (atoms m ! k)\<lparr>numExplicitHs := 0, origNoImplicit := Some (NI k), noImplicit := True\<rparr>"
    using k3 kl s3 ak(2) by (simp add: setHeavy_nth)
  have ivk: "implicitValence (atoms m' ! k) = IV k"
    using upc_frame(9) [OF u kc k4, of k] ak(1) by (simp add: atk)
  have nik: "noImplicit (atoms m' ! k)" "origNoImplicit (atoms m' ! k) = Some (NI k)"
    using upc_frame(5,6) [OF u, of k] by (simp_all add: atk)
  have "implicitValence (atoms m' ! i) = IV i \<and>
         (i < Suc k \<longrightarrow> noImplicit (atoms m' ! i) \<and> origNoImplicit (atoms m' ! i) = Some (NI i)) \<and>
         (Suc k \<le> i \<longrightarrow> noImplicit (atoms m' ! i) = NI i \<and> numExplicitHs (atoms m' ! i) = 0 \<and>
            (atomicNum (atoms m' ! i) < 1 \<longrightarrow> getNumImplicitHs (atoms m' ! i) = 0))"
    if i: "i < n" for i
  proof (cases "i = k")
    case True
    then show ?thesis using ivk nik by simp
  next
    case False
    have "implicitValence (atoms m ! i) = IV i \<and>
         (i < k \<longrightarrow> noImplicit (atoms m ! i) \<and> origNoImplicit (atoms m ! i) = Some (NI i)) \<and>
         (k \<le> i \<longrightarrow> noImplicit (atoms m ! i) = NI i \<and> numExplicitHs (atoms m ! i) = 0 \<and>
            (atomicNum (atoms m ! i) < 1 \<longrightarrow> getNumImplicitHs (atoms m ! i) = 0))"
      using inv i unfolding addedUpTo_def by blast
    then show ?thesis using chain [OF i False] False by auto
  qed
  then show ?thesis unfolding addedUpTo_def using t' by blast
qed

lemma addHsLoop_all:
  "addHsLoop ch sv False ac None m [k..<n] = Some m' \<Longrightarrow> addedUpTo n IV NI k m \<Longrightarrow>
   k \<le> n \<Longrightarrow> keepsCachedCount ch \<Longrightarrow> addedUpTo n IV NI n m'"
proof (induction "n - k" arbitrary: k m)
  case 0
  then show ?case by simp
next
  case (Suc d)
  then have kn: "k < n" by simp
  then have u: "[k..<n] = k # [Suc k..<n]" by (simp add: upt_conv_Cons)
  from Suc.prems(1) obtain m1 where a: "addHsAt ch sv False ac m k = Some m1"
    and r: "addHsLoop ch sv False ac None m1 [Suc k..<n] = Some m'"
    unfolding u by (auto split: option.splits)
  have i1: "addedUpTo n IV NI (Suc k) m1"
    using addHsAt_step [OF Suc.prems(2) kn Suc.prems(4) a] .
  have d: "d = n - Suc k" using Suc.hyps(2) by simp
  show ?case using Suc.hyps(1) [OF d r i1 _ Suc.prems(4)] kn by simp
qed

lemma addHs_exHCl:
  "addHs exChemKeeping exServices exHCl False False None =
     Some \<lparr>atoms = [(newAtom 17)\<lparr>implicitValence := 1, explicitValence := 4,
                       origNoImplicit := Some False, noImplicit := True\<rparr>,
                    (newAtom 1)\<lparr>isImplicit := True, explicitValence := 4\<rparr>],
           bonds = [newBond 0 1 SINGLE], conformers = []\<rparr>"
  by (simp add: addHs_def getNumAtoms_def exHCl_def addHsAt_def addHydrogen_def
      addAtom_def addBond_def setHeavy_def updatePropertyCache_def exChemKeeping_def
      getNumImplicitHs_def newAtom_def Let_def addImplicitHs.simps)

text \<open>
  C1. Let the molecule be well formed and hold no hydrogen atom, let every atom's count
  of explicit hydrogens be zero (all its hydrogens are implicit), and let no dummy atom
  (atomic number below 1) have implicit hydrogens; let the valence service keep the
  cached implicit count of an atom flagged no-implicit and not throw in its non-strict
  mode. If \<open>addHs\<close> (\<open>explicitOnly = false\<close>, no restriction to a set of atoms, with or
  without coordinates) returns, then \<open>removeHs\<close> (\<open>implicitOnly = true\<close>,
  \<open>updateExplicitCount = false\<close>, \<open>sanitize = false\<close>) on its result returns as well, and
  gives a molecule with the original number of atoms in which every atom has its
  original number of implicit hydrogens.
\<close>

theorem addHs_removeHs_round_trip:
  assumes kc: "keepsCachedCount ch"
    and wf: "wellFormed mol"
    and noH: "\<forall>a \<in> set (atoms mol). atomicNum a \<noteq> 1"
    and noExpl: "\<forall>a \<in> set (atoms mol). numExplicitHs a = 0"
    and dummy: "\<forall>a \<in> set (atoms mol). atomicNum a < 1 \<longrightarrow> getNumImplicitHs a = 0"
    and add: "addHs ch sv mol False addCoords None = Some mol1"
  shows "\<exists>mol2. removeHs ch mol1 True False False = Inr mol2 \<and>
           getNumAtoms mol2 = getNumAtoms mol \<and>
           (\<forall>i < getNumAtoms mol.
              getNumImplicitHs (atoms mol2 ! i) = getNumImplicitHs (atoms mol ! i))"
proof -
  let ?n = "length (atoms mol)"
  let ?IV = "\<lambda>i. implicitValence (atoms mol ! i)"
  let ?NI = "\<lambda>i. noImplicit (atoms mol ! i)"
  have e: "\<forall>p \<in> set (ends mol). fst p < ?n \<and> snd p < ?n"
    using wf by (auto simp: wellFormed_def ends_def list_all_iff getNumAtoms_def)
  have top0: "hydrogensOnTop ?n mol"
    unfolding hydrogensOnTop_def using e noH by auto
  have inv0: "addedUpTo ?n ?IV ?NI 0 mol"
    unfolding addedUpTo_def using top0 noExpl dummy by simp
  have l: "addHsLoop ch sv False addCoords None mol [0..<?n] = Some mol1"
    using add by (simp add: addHs_def getNumAtoms_def)
  have inv1: "addedUpTo ?n ?IV ?NI ?n mol1"
    using addHsLoop_all [OF l inv0 _ kc] by simp
  then have top1: "hydrogensOnTop ?n mol1"
    and f1: "\<forall>i < ?n. implicitValence (atoms mol1 ! i) = ?IV i \<and> noImplicit (atoms mol1 ! i) \<and>
               origNoImplicit (atoms mol1 ! i) = Some (?NI i)"
    by (simp_all add: addedUpTo_def)
  have rg: "\<forall>i \<in> set [0..<getNumAtoms mol1]. i < length (atoms mol1)"
    by (simp add: getNumAtoms_def)
  from refreshCaches_keeps [OF kc top1 rg f1] obtain m1 where
    r: "refreshCaches ch mol1 [0..<getNumAtoms mol1] = Inr m1" and t: "hydrogensOnTop ?n m1"
    and f: "\<forall>i < ?n. implicitValence (atoms m1 ! i) = ?IV i \<and> noImplicit (atoms m1 ! i) \<and>
               origNoImplicit (atoms m1 ! i) = Some (?NI i)"
    by blast
  let ?m2 = "removeHsLoop ch True False m1 0"
  have res: "length (atoms ?m2) = ?n \<and>
      (\<forall>i < ?n. implicitValence (atoms ?m2 ! i) = ?IV i \<and> noImplicit (atoms ?m2 ! i) = ?NI i)"
    using removeHsLoop_restores [OF t, of 0 ?IV ?NI ch True False] f by simp
  have "removeHs ch mol1 True False False = Inr ?m2"
    by (simp add: removeHs_def r Let_def)
  then show ?thesis using res by (simp add: getNumAtoms_def getNumImplicitHs_def)
qed

theorem addHs_removeHs_round_trip_witness:
  "\<exists>mol2. removeHs exChemKeeping
             \<lparr>atoms = [(newAtom 17)\<lparr>implicitValence := 1, explicitValence := 4,
                       origNoImplicit := Some False, noImplicit := True\<rparr>,
                    (newAtom 1)\<lparr>isImplicit := True, explicitValence := 4\<rparr>],
              bonds = [newBond 0 1 SINGLE], conformers = []\<rparr> True False False = Inr mol2 \<and>
           getNumAtoms mol2 = getNumAtoms exHCl \<and>
           (\<forall>i < getNumAtoms exHCl.
              getNumImplicitHs (atoms mol2 ! i) = getNumImplicitHs (atoms exHCl ! i))"
proof -
  have kc: "keepsCachedCount exChemKeeping"
    by (simp add: keepsCachedCount_def exChemKeeping_def)
  have wf: "wellFormed exHCl" by (simp add: wellFormed_def exHCl_def)
  have a: "\<forall>a \<in> set (atoms exHCl). atomicNum a \<noteq> 1"
    "\<forall>a \<in> set (atoms exHCl). numExplicitHs a = 0"
    "\<forall>a \<in> set (atoms exHCl). atomicNum a < 1 \<longrightarrow> getNumImplicitHs a = 0"
    by (simp_all add: exHCl_def newAtom_def)
  show ?thesis
    using addHs_removeHs_round_trip [OF kc wf a addHs_exHCl] .
qed

text \<open>
  The hydrogens that \<open>addHs\<close> makes from an explicit count do not get the
  \<open>isImplicit\<close> flag, and \<open>removeHs\<close> with \<open>implicitOnly = true\<close> keeps them: this is
  why the round trip asks for explicit counts of zero.
\<close>

lemma addHs_explicit_count_stays:
  "addHs exChemKeeping exServices exHF False False None =
     Some \<lparr>atoms = [(newAtom 9)\<lparr>explicitValence := 4,
                       origNoImplicit := Some False, noImplicit := True\<rparr>,
                    (newAtom 1)\<lparr>explicitValence := 4\<rparr>],
           bonds = [newBond 0 1 SINGLE], conformers = []\<rparr> \<and>
   map_sum id getNumAtoms
     (removeHs exChemKeeping
        \<lparr>atoms = [(newAtom 9)\<lparr>explicitValence := 4,
                       origNoImplicit := Some False, noImplicit := True\<rparr>,
                    (newAtom 1)\<lparr>explicitValence := 4\<rparr>],
           bonds = [newBond 0 1 SINGLE], conformers = []\<rparr> True False False) = Inr 2"
proof -
  have a: "addHs exChemKeeping exServices exHF False False None =
     Some \<lparr>atoms = [(newAtom 9)\<lparr>explicitValence := 4,
                       origNoImplicit := Some False, noImplicit := True\<rparr>,
                    (newAtom 1)\<lparr>explicitValence := 4\<rparr>],
           bonds = [newBond 0 1 SINGLE], conformers = []\<rparr>"
    by (simp add: addHs_def getNumAtoms_def exHF_def addHsAt_def addHydrogen_def
      addAtom_def addBond_def setHeavy_def updatePropertyCache_def exChemKeeping_def
      getNumImplicitHs_def newAtom_def Let_def addImplicitHs.simps)
  have b: "map_sum id getNumAtoms
     (removeHs exChemKeeping
        \<lparr>atoms = [(newAtom 9)\<lparr>explicitValence := 4,
                       origNoImplicit := Some False, noImplicit := True\<rparr>,
                    (newAtom 1)\<lparr>explicitValence := 4\<rparr>],
           bonds = [newBond 0 1 SINGLE], conformers = []\<rparr> True False False) = Inr 2"
    by code_simp
  from a b show ?thesis by simp
qed

end
